(* ===== verification/Net_Prelude.thy ===== *)
theory Net_Prelude
  imports Main "HOL-Library.Word" "HOL-Library.List_Lexorder" "HOL-Library.Char_ord"
begin

text \<open>
  Shared vocabulary of the development: the machine integer types of the target
  (Linux on x86-64, the platform whose layouts the sources assert), Rust results as sums,
  the \<^verbatim>\<open>?\<close> operator, the checked \<^verbatim>\<open>usize\<close> operations, slices, the loops that push into a
  vector, and the byte encodings of integers in both orders.
\<close>

unbundle bit_operations_syntax

named_theorems result_simps \<open>rewriting of results and of the question-mark operator\<close>
named_theorems layout_simps \<open>sizes and offsets of the shared-memory layouts\<close>

section \<open>Machine types\<close>

type_synonym u8 = "8 word"
type_synonym u16 = "16 word"
type_synonym u32 = "32 word"
type_synonym u64 = "64 word"
type_synonym bytes = "8 word list"

text \<open>
  A \<^verbatim>\<open>usize\<close> (a length, an offset, an address) is a natural number below
  \<open>usize_bound\<close>; every operation of the source that could leave that range is one of the
  checked operations below.
\<close>

type_synonym usize = nat

definition usize_bound :: nat where
  "usize_bound = 2 ^ 64"

definition checked_add :: "usize \<Rightarrow> usize \<Rightarrow> usize option" where
  "checked_add a b = (if a + b < usize_bound then Some (a + b) else None)"

definition checked_mul :: "usize \<Rightarrow> usize \<Rightarrow> usize option" where
  "checked_mul a b = (if a * b < usize_bound then Some (a * b) else None)"

definition checked_sub :: "usize \<Rightarrow> usize \<Rightarrow> usize option" where
  "checked_sub a b = (if b \<le> a then Some (a - b) else None)"

lemma checked_add_Some [simp]:
  "checked_add a b = Some c \<longleftrightarrow> c = a + b \<and> a + b < usize_bound"
  by (auto simp: checked_add_def)

lemma checked_add_None [simp]: "checked_add a b = None \<longleftrightarrow> usize_bound \<le> a + b"
  by (auto simp: checked_add_def)

lemma checked_mul_Some [simp]:
  "checked_mul a b = Some c \<longleftrightarrow> c = a * b \<and> a * b < usize_bound"
  by (auto simp: checked_mul_def)

lemma checked_mul_None [simp]: "checked_mul a b = None \<longleftrightarrow> usize_bound \<le> a * b"
  by (auto simp: checked_mul_def)

lemma checked_sub_Some [simp]: "checked_sub a b = Some c \<longleftrightarrow> b \<le> a \<and> c = a - b"
  by (auto simp: checked_sub_def)

lemma checked_sub_None [simp]: "checked_sub a b = None \<longleftrightarrow> a < b"
  by (auto simp: checked_sub_def)

section \<open>Results\<close>

text \<open>
  \<^verbatim>\<open>Result<T, E>\<close> is the sum \<open>'e + 't\<close> with \<open>Inl\<close> for \<^verbatim>\<open>Err\<close>. \<open>rbind\<close> is the
  question-mark operator: the rest of the function runs on the value and an error returns at
  once. Code that can also panic (an out-of-range index, an arithmetic overflow under
  overflow checks, a failed assertion, \<^verbatim>\<open>expect\<close> on a failure) has errors in \<open>'e fault\<close>.
\<close>

datatype 'e fault = Err 'e | Panic string

definition rbind :: "'e + 'a \<Rightarrow> ('a \<Rightarrow> 'e + 'b) \<Rightarrow> 'e + 'b" where
  "rbind m f = (case m of Inl e \<Rightarrow> Inl e | Inr x \<Rightarrow> f x)"

definition map_err :: "('e \<Rightarrow> 'f) \<Rightarrow> 'e + 'a \<Rightarrow> 'f + 'a" where
  "map_err g m = (case m of Inl e \<Rightarrow> Inl (g e) | Inr x \<Rightarrow> Inr x)"

definition ok_or :: "'e \<Rightarrow> 'a option \<Rightarrow> 'e + 'a" where
  "ok_or e m = (case m of None \<Rightarrow> Inl e | Some x \<Rightarrow> Inr x)"

lemma rbind_simps [simp, result_simps]:
  "rbind (Inl e) f = Inl e"
  "rbind (Inr x) f = f x"
  by (simp_all add: rbind_def)

lemma map_err_simps [simp, result_simps]:
  "map_err g (Inl e) = Inl (g e)"
  "map_err g (Inr x) = Inr x"
  by (simp_all add: map_err_def)

lemma ok_or_simps [simp, result_simps]:
  "ok_or e None = Inl e"
  "ok_or e (Some x) = Inr x"
  by (simp_all add: ok_or_def)

lemma rbind_Inr: "rbind m f = Inr y \<longleftrightarrow> (\<exists>x. m = Inr x \<and> f x = Inr y)"
  by (cases m) auto

lemma rbind_Inl: "rbind m f = Inl e \<longleftrightarrow> m = Inl e \<or> (\<exists>x. m = Inr x \<and> f x = Inl e)"
  by (cases m) auto

lemma map_err_Inr [simp]: "map_err g m = Inr y \<longleftrightarrow> m = Inr y"
  by (cases m) auto

lemma map_err_Inl: "map_err g m = Inl e \<longleftrightarrow> (\<exists>e'. m = Inl e' \<and> e = g e')"
  by (cases m) auto

lemma ok_or_Inr [simp]: "ok_or e m = Inr x \<longleftrightarrow> m = Some x"
  by (cases m) auto

lemma ok_or_Inl [simp]: "ok_or e m = Inl e' \<longleftrightarrow> m = None \<and> e' = e"
  by (cases m) auto

lemma rbind_cong [fundef_cong]:
  "m = m' \<Longrightarrow> (\<And>x. m' = Inr x \<Longrightarrow> f x = f' x) \<Longrightarrow> rbind m f = rbind m' f'"
  by (cases m') auto

lemmas result_iffs = rbind_Inr rbind_Inl map_err_Inl

text \<open>
  \<open>collect_res f xs\<close> is the loop \<^verbatim>\<open>for x in xs { out.push(f(x)?) }\<close>: the values in order,
  or the error of the first element that fails.
\<close>

fun collect_res :: "('a \<Rightarrow> 'e + 'b) \<Rightarrow> 'a list \<Rightarrow> 'e + 'b list" where
  "collect_res f [] = Inr []"
| "collect_res f (x # xs) =
     rbind (f x) (\<lambda>y. rbind (collect_res f xs) (\<lambda>ys. Inr (y # ys)))"

lemma list_all2_rightD: "list_all2 P xs ys \<Longrightarrow> y \<in> set ys \<Longrightarrow> \<exists>x\<in>set xs. P x y"
  by (induction rule: list_all2_induct) auto

lemma map_zip_fst: "length xs = length ys \<Longrightarrow> map (\<lambda>z. f (fst z)) (zip xs ys) = map f xs"
  by (induction xs ys rule: list_induct2) auto

lemma map_zip_snd: "length xs = length ys \<Longrightarrow> map (\<lambda>z. f (snd z)) (zip xs ys) = map f ys"
  by (induction xs ys rule: list_induct2) auto

lemma list_all2_zipD:
  "list_all2 R xs ys \<Longrightarrow> z \<in> set (zip xs ys) \<Longrightarrow>
     fst z \<in> set xs \<and> snd z \<in> set ys \<and> R (fst z) (snd z)"
  by (induction rule: list_all2_induct) auto

lemma length_concat_nonempty:
  "\<forall>x\<in>set xs. f x \<noteq> [] \<Longrightarrow> length xs \<le> length (concat (map f xs))"
proof (induction xs)
  case Nil
  then show ?case by simp
next
  case (Cons x xs)
  then show ?case by (cases "f x") auto
qed

lemma collect_res_Inr:
  "collect_res f xs = Inr ys \<longleftrightarrow> list_all2 (\<lambda>x y. f x = Inr y) xs ys"
  by (induction xs arbitrary: ys) (auto simp: rbind_Inr list_all2_Cons1)

lemma collect_res_length: "collect_res f xs = Inr ys \<Longrightarrow> length ys = length xs"
  by (auto simp: collect_res_Inr dest: list_all2_lengthD)

lemma collect_res_nth:
  "collect_res f xs = Inr ys \<Longrightarrow> i < length xs \<Longrightarrow> f (xs ! i) = Inr (ys ! i)"
  by (auto simp: collect_res_Inr dest: list_all2_nthD)

lemma collect_res_map:
  "(\<And>x. x \<in> set xs \<Longrightarrow> f x = Inr (g x)) \<Longrightarrow> collect_res f xs = Inr (map g xs)"
  by (induction xs) auto

lemma collect_res_InlD: "collect_res f xs = Inl e \<Longrightarrow> \<exists>x\<in>set xs. f x = Inl e"
  by (induction xs) (auto simp: rbind_Inl)

lemma collect_res_append:
  "collect_res f (xs @ ys) =
     rbind (collect_res f xs) (\<lambda>us. rbind (collect_res f ys) (\<lambda>vs. Inr (us @ vs)))"
  by (induction xs) (auto simp: rbind_def split: sum.splits)

lemma collect_res_cong [fundef_cong]:
  "xs = xs' \<Longrightarrow> (\<And>x. x \<in> set xs' \<Longrightarrow> f x = f' x) \<Longrightarrow> collect_res f xs = collect_res f' xs'"
  by (induction xs arbitrary: xs') (auto intro!: rbind_cong)

section \<open>Slices\<close>

text \<open>
  \<^verbatim>\<open>slice.get(a..b)\<close> is \<open>None\<close> when the range is reversed or passes the end, and
  \<open>position\<close> is \<^verbatim>\<open>iter().position(p)\<close>.
\<close>

definition slice_get :: "'a list \<Rightarrow> usize \<Rightarrow> usize \<Rightarrow> 'a list option" where
  "slice_get xs a b = (if a \<le> b \<and> b \<le> length xs then Some (take (b - a) (drop a xs)) else None)"

fun position :: "('a \<Rightarrow> bool) \<Rightarrow> 'a list \<Rightarrow> usize option" where
  "position p [] = None"
| "position p (x # xs) = (if p x then Some 0 else map_option Suc (position p xs))"

definition splice :: "'a list \<Rightarrow> usize \<Rightarrow> 'a list \<Rightarrow> 'a list" where
  "splice xs off ys = take off xs @ ys @ drop (off + length ys) xs"

lemma slice_get_Some:
  "slice_get xs a b = Some ys \<longleftrightarrow> a \<le> b \<and> b \<le> length xs \<and> ys = take (b - a) (drop a xs)"
  by (auto simp: slice_get_def)

lemma slice_get_None: "slice_get xs a b = None \<longleftrightarrow> b < a \<or> length xs < b"
  by (auto simp: slice_get_def)

lemma slice_get_length: "slice_get xs a b = Some ys \<Longrightarrow> length ys = b - a"
  by (auto simp: slice_get_Some)

lemma slice_get_append [simp]:
  "slice_get (pre @ xs @ post) (length pre) (length pre + length xs) = Some xs"
  by (simp add: slice_get_def)

lemma position_Some:
  "position p xs = Some i \<longleftrightarrow> i < length xs \<and> p (xs ! i) \<and> (\<forall>j<i. \<not> p (xs ! j))"
proof (induction xs arbitrary: i)
  case Nil
  then show ?case by simp
next
  case (Cons x xs)
  then show ?case
    by (cases i) (auto simp: less_Suc_eq_0_disj)
qed

lemma position_None: "position p xs = None \<longleftrightarrow> (\<forall>x\<in>set xs. \<not> p x)"
  by (induction xs) auto

lemma position_le: "position p xs = Some i \<Longrightarrow> i < length xs"
  by (simp add: position_Some)

lemma position_append_hit:
  "(\<forall>x\<in>set xs. \<not> p x) \<Longrightarrow> p y \<Longrightarrow> position p (xs @ y # zs) = Some (length xs)"
  by (induction xs) auto

lemma length_splice [simp]:
  "off + length ys \<le> length xs \<Longrightarrow> length (splice xs off ys) = length xs"
  by (simp add: splice_def)

lemma splice_same: "off + length ys \<le> length xs \<Longrightarrow> take (length ys) (drop off (splice xs off ys)) = ys"
  by (simp add: splice_def)

lemma splice_Nil [simp]: "off \<le> length xs \<Longrightarrow> splice xs off [] = xs"
  by (simp add: splice_def)

lemma splice_append:
  "off + length ys + length zs \<le> length xs \<Longrightarrow>
     splice (splice xs off ys) (off + length ys) zs = splice xs off (ys @ zs)"
  by (simp add: splice_def add.assoc add.commute add.left_commute)

lemma take_splice_before: "off + length ys \<le> length xs \<Longrightarrow> n \<le> off \<Longrightarrow> take n (splice xs off ys) = take n xs"
  by (simp add: splice_def)

lemma drop_splice_after:
  "off + length ys \<le> length xs \<Longrightarrow> off + length ys \<le> n \<Longrightarrow> drop n (splice xs off ys) = drop n xs"
  by (simp add: splice_def)

lemma splice_disjoint_before:
  assumes "off + length ys \<le> length xs" and "i + n \<le> off"
  shows "take n (drop i (splice xs off ys)) = take n (drop i xs)"
proof -
  have "take n (drop i (splice xs off ys)) = drop i (take (i + n) (splice xs off ys))"
    by (simp add: drop_take)
  also have "\<dots> = drop i (take (i + n) xs)"
    using assms by (simp add: take_splice_before)
  finally show ?thesis by (simp add: drop_take)
qed

lemma splice_disjoint_after:
  assumes "off + length ys \<le> length xs" and "off + length ys \<le> i"
  shows "take n (drop i (splice xs off ys)) = take n (drop i xs)"
  using drop_splice_after [OF assms] by simp

section \<open>Integers as bytes\<close>

text \<open>
  \<open>le_bytes n w\<close> is the low \<open>n\<close> bytes of \<open>w\<close>, least significant first;
  \<^verbatim>\<open>to_be_bytes\<close> reverses it, and \<^verbatim>\<open>to_ne_bytes\<close> is it on the little-endian target.
\<close>

primrec le_bytes :: "nat \<Rightarrow> 'a::len word \<Rightarrow> bytes" where
  "le_bytes 0 w = []"
| "le_bytes (Suc n) w = ucast w # le_bytes n (drop_bit 8 w)"

fun from_le_bytes :: "bytes \<Rightarrow> 'a::len word" where
  "from_le_bytes [] = 0"
| "from_le_bytes (b # bs) = ucast b OR push_bit 8 (from_le_bytes bs)"

definition be_bytes :: "nat \<Rightarrow> 'a::len word \<Rightarrow> bytes" where
  "be_bytes n w = rev (le_bytes n w)"

definition from_be_bytes :: "bytes \<Rightarrow> 'a::len word" where
  "from_be_bytes bs = from_le_bytes (rev bs)"

abbreviation to_ne_bytes :: "nat \<Rightarrow> 'a::len word \<Rightarrow> bytes" where
  "to_ne_bytes \<equiv> le_bytes"

abbreviation from_ne_bytes :: "bytes \<Rightarrow> 'a::len word" where
  "from_ne_bytes \<equiv> from_le_bytes"

lemma length_le_bytes [simp]: "length (le_bytes n w) = n"
  by (induction n arbitrary: w) auto

lemma length_be_bytes [simp]: "length (be_bytes n w) = n"
  by (simp add: be_bytes_def)

lemma from_le_bytes_le_bytes:
  fixes w :: "'a::len word"
  shows "(from_le_bytes (le_bytes n w) :: 'a word) = take_bit (8 * n) w"
proof (induction n arbitrary: w)
  case 0
  then show ?case by simp
next
  case (Suc n)
  show ?case
  proof (rule bit_word_eqI)
    fix k
    assume "k < LENGTH('a)"
    then show "bit (from_le_bytes (le_bytes (Suc n) w) :: 'a word) k = bit (take_bit (8 * Suc n) w) k"
      by (cases "k < 8")
        (auto simp: Suc.IH bit_or_iff bit_push_bit_iff bit_take_bit_iff bit_ucast_iff bit_drop_bit_eq)
  qed
qed

lemma from_le_bytes_roundtrip:
  fixes w :: "'a::len word"
  assumes "LENGTH('a) = 8 * n"
  shows "from_le_bytes (le_bytes n w) = w"
  using assms by (simp add: from_le_bytes_le_bytes flip: assms)

lemma from_be_bytes_roundtrip:
  fixes w :: "'a::len word"
  assumes "LENGTH('a) = 8 * n"
  shows "from_be_bytes (be_bytes n w) = w"
  using from_le_bytes_roundtrip [OF assms] by (simp add: be_bytes_def from_be_bytes_def)

lemma ucast_or_push_bit_8:
  fixes x :: "'a::len word"
  assumes "8 \<le> LENGTH('a)"
  shows "(ucast (ucast b OR push_bit 8 x) :: u8) = b"
  using assms by (intro bit_word_eqI) (auto simp: bit_ucast_iff bit_or_iff bit_push_bit_iff)

lemma le_bytes_from_le_bytes:
  assumes "8 * length bs \<le> LENGTH('a::len)"
  shows "le_bytes (length bs) (from_le_bytes bs :: 'a word) = bs"
  using assms
proof (induction bs)
  case Nil
  then show ?case by simp
next
  case (Cons b bs)
  let ?x = "from_le_bytes bs :: 'a word"
  have small: "?x = take_bit (8 * length bs) ?x"
    using from_le_bytes_le_bytes [of "length bs" ?x] Cons by simp
  have drop: "drop_bit 8 (ucast b OR push_bit 8 ?x :: 'a word) = ?x"
  proof (rule bit_word_eqI)
    fix k
    assume "k < LENGTH('a)"
    moreover have "bit ?x k \<longrightarrow> 8 + k < LENGTH('a)"
      using Cons.prems by (subst small) (auto simp: bit_take_bit_iff)
    moreover have "\<not> bit b (8 + k)"
      using bit_imp_le_length by fastforce
    ultimately show "bit (drop_bit 8 (ucast b OR push_bit 8 ?x :: 'a word)) k = bit ?x k"
      by (auto simp: bit_or_iff bit_push_bit_iff bit_ucast_iff bit_drop_bit_eq)
  qed
  from Cons show ?case
    by (simp add: ucast_or_push_bit_8 drop del: drop_bit_or)
qed

text \<open>The widths the sources use, ready for \<open>simp\<close>.\<close>

lemma be_roundtrip_widths [simp]:
  "(from_be_bytes (be_bytes (Suc 0) (a :: u8)) :: u8) = a"
  "(from_be_bytes (be_bytes 2 (b :: u16)) :: u16) = b"
  "(from_be_bytes (be_bytes 4 (c :: u32)) :: u32) = c"
  "(from_be_bytes (be_bytes 8 (d :: u64)) :: u64) = d"
  by (simp_all add: from_be_bytes_roundtrip)

lemma le_roundtrip_widths [simp]:
  "(from_le_bytes (le_bytes (Suc 0) (a :: u8)) :: u8) = a"
  "(from_le_bytes (le_bytes 2 (b :: u16)) :: u16) = b"
  "(from_le_bytes (le_bytes 4 (c :: u32)) :: u32) = c"
  "(from_le_bytes (le_bytes 8 (d :: u64)) :: u64) = d"
  by (simp_all add: from_le_bytes_roundtrip)

end
