(* ===== verification/Shared_Heap.thy ===== *)
theory Shared_Heap
  imports Net_Prelude
begin

text \<open>
  Shared memory and the heap inside it, \<^verbatim>\<open>hammer-shmem/src/heap.rs\<close>. Memory is a function from
  addresses to bytes. The C allocator behind \<^verbatim>\<open>mspace\<close> is a parameter: a record of its functions
  over a state of its own; its bookkeeping bytes are part of that state, not of the memory. What
  its documentation promises is \<open>mspace_ok\<close>, stated over the map of live blocks. A debug build's
  assertions and overflow checks are panics, and so is \<^verbatim>\<open>std::process::abort\<close>.
\<close>

section \<open>Memory\<close>

type_synonym memory = "usize \<Rightarrow> u8"

definition load :: "memory \<Rightarrow> usize \<Rightarrow> nat \<Rightarrow> bytes" where
  "load m a n = map m [a..<a + n]"

definition store :: "memory \<Rightarrow> usize \<Rightarrow> bytes \<Rightarrow> memory" where
  "store m a bs = (\<lambda>x. if a \<le> x \<and> x < a + length bs then bs ! (x - a) else m x)"

definition load_word :: "memory \<Rightarrow> usize \<Rightarrow> usize" where
  "load_word m a = unat (from_ne_bytes (load m a 8) :: u64)"

section \<open>Layouts and the allocator\<close>

record layout =
  lay_size :: usize
  lay_align :: usize

definition is_power_of_two :: "usize \<Rightarrow> bool" where
  "is_power_of_two n \<longleftrightarrow> n \<in> set (map (\<lambda>k. 2 ^ k) [0..<64])"

text \<open>\<^verbatim>\<open>Layout::from_size_align\<close>: the size rounded up to the alignment stays within \<^verbatim>\<open>isize::MAX\<close>.\<close>

definition from_size_align :: "usize \<Rightarrow> usize \<Rightarrow> layout option" where
  "from_size_align n al =
     (if is_power_of_two al \<and> n + al \<le> 2 ^ 63 then Some \<lparr>lay_size = n, lay_align = al\<rparr> else None)"

definition min_heap_alignment :: usize where
  "min_heap_alignment = 8"

record 's mspace =
  memalign :: "usize \<Rightarrow> usize \<Rightarrow> 's \<Rightarrow> usize \<times> 's"
  realloc_in_place :: "usize \<Rightarrow> usize \<Rightarrow> 's \<Rightarrow> bool \<times> 's"
  free_block :: "usize \<Rightarrow> 's \<Rightarrow> 's"
  usable_size :: "usize \<Rightarrow> 's \<Rightarrow> usize"
  heap_object :: "usize \<Rightarrow> 's \<Rightarrow> bool"

type_synonym 's heap = "'s \<times> memory"

section \<open>Heap operations\<close>

definition is_heap_object :: "'s mspace \<Rightarrow> usize \<Rightarrow> 's heap \<Rightarrow> bool" where
  "is_heap_object ms p h = heap_object ms p (fst h)"

definition allocate :: "'s mspace \<Rightarrow> layout \<Rightarrow> 's heap \<Rightarrow> ('e fault + usize option) \<times> 's heap" where
  "allocate ms l h =
     (case from_size_align (lay_size l) (max (lay_align l) min_heap_alignment) of
        None \<Rightarrow> (Inl (Panic ''valid minimum allocation layout''), h)
      | Some l' \<Rightarrow>
          (case memalign ms (lay_align l') (lay_size l') (fst h) of
             (p, s') \<Rightarrow> (Inr (if p = 0 then None else Some p), s', snd h)))"

definition allocate_zeroed :: "'s mspace \<Rightarrow> layout \<Rightarrow> 's heap \<Rightarrow> ('e fault + usize option) \<times> 's heap" where
  "allocate_zeroed ms l h =
     (case allocate ms l h of
        (Inr (Some p), h') \<Rightarrow> (Inr (Some p), fst h', store (snd h') p (replicate (lay_size l) 0))
      | other \<Rightarrow> other)"

definition deallocate :: "'s mspace \<Rightarrow> usize \<Rightarrow> 's heap \<Rightarrow> ('e fault + unit) \<times> 's heap" where
  "deallocate ms p h =
     (if \<not> is_heap_object ms p h then (Inl (Panic ''abort''), h)
      else (Inr (), free_block ms p (fst h), snd h))"

definition reallocate ::
  "'s mspace \<Rightarrow> usize \<Rightarrow> layout \<Rightarrow> layout \<Rightarrow> 's heap \<Rightarrow> ('e fault + usize option) \<times> 's heap" where
  "reallocate ms p old_layout new_layout h =
     (case from_size_align (lay_size new_layout) (max (lay_align new_layout) min_heap_alignment) of
        None \<Rightarrow> (Inl (Panic ''valid minimum allocation layout''), h)
      | Some l \<Rightarrow>
          if \<not> is_heap_object ms p h then (Inr None, h)
          else let old_size = usable_size ms p (fst h) in
            if old_size < lay_size old_layout
            then (Inl (Panic ''assertion failed: old_layout.size() <= old_size''), h)
            else if lay_size l = old_size then (Inr (Some p), h)
            else
              (let (in_place, s1) = (if lay_align l dvd p then realloc_in_place ms p (lay_size l) (fst h)
                 else (False, fst h)) in
               if in_place then (Inr (Some p), s1, snd h)
               else
                 (case allocate ms l (s1, snd h) of
                    (Inr (Some q), s2, m) \<Rightarrow>
                      (Inr (Some q), free_block ms p s2, store m q (load m p (min old_size (lay_size l))))
                  | other \<Rightarrow> other)))"

section \<open>What the allocator promises\<close>

text \<open>Live blocks lie in the heap's range, away from address zero, and do not overlap.\<close>

definition blocks_ok :: "usize \<Rightarrow> usize \<Rightarrow> (usize \<rightharpoonup> usize) \<Rightarrow> bool" where
  "blocks_ok lo hi L \<longleftrightarrow>
     (\<forall>p u. L p = Some u \<longrightarrow> 0 < p \<and> lo \<le> p \<and> p + u \<le> hi) \<and>
     (\<forall>p u q v. L p = Some u \<longrightarrow> L q = Some v \<longrightarrow> p \<noteq> q \<longrightarrow> p + u \<le> q \<or> q + v \<le> p)"

definition mspace_ok ::
  "'s mspace \<Rightarrow> ('s \<Rightarrow> bool) \<Rightarrow> ('s \<Rightarrow> usize \<rightharpoonup> usize) \<Rightarrow> usize \<Rightarrow> usize \<Rightarrow> bool" where
  "mspace_ok ms good live lo hi \<longleftrightarrow>
     (\<forall>s. good s \<longrightarrow> blocks_ok lo hi (live s)) \<and>
     (\<forall>s al n p s'. good s \<longrightarrow> memalign ms al n s = (p, s') \<longrightarrow> good s' \<and>
        (if p = 0 then live s' = live s
         else (is_power_of_two al \<longrightarrow> al dvd p) \<and> live s p = None \<and> (\<exists>u\<ge>n. live s' = (live s)(p \<mapsto> u)))) \<and>
     (\<forall>s p n grown s'. good s \<longrightarrow> live s p \<noteq> None \<longrightarrow> realloc_in_place ms p n s = (grown, s') \<longrightarrow> good s' \<and>
        (if grown then \<exists>u\<ge>n. live s' = (live s)(p \<mapsto> u) else live s' = live s)) \<and>
     (\<forall>s p. good s \<longrightarrow> live s p \<noteq> None \<longrightarrow>
        good (free_block ms p s) \<and> live (free_block ms p s) = (live s)(p := None)) \<and>
     (\<forall>s p u. good s \<longrightarrow> live s p = Some u \<longrightarrow> usable_size ms p s = u \<and> heap_object ms p s)"

section \<open>Lemmas on memory\<close>

lemma length_load [simp]: "length (load m a n) = n"
  by (simp add: load_def)

lemma nth_load [simp]: "i < n \<Longrightarrow> load m a n ! i = m (a + i)"
  by (simp add: load_def)

lemma load_store_same [simp]: "load (store m a bs) a (length bs) = bs"
  by (rule nth_equalityI) (simp_all add: store_def)

lemma load_store_at: "n = length bs \<Longrightarrow> load (store m a bs) a n = bs"
  by simp

lemma load_store_other:
  "a + length bs \<le> b \<or> b + n \<le> a \<Longrightarrow> load (store m a bs) b n = load m b n"
  by (rule nth_equalityI) (auto simp: store_def)

lemma load_store_inside:
  "a \<le> b \<Longrightarrow> b + n \<le> a + length bs \<Longrightarrow> load (store m a bs) b n = take n (drop (b - a) bs)"
  by (rule nth_equalityI) (auto simp: store_def)

lemma load_append: "load m a (n + k) = load m a n @ load m (a + n) k"
  by (rule nth_equalityI) (auto simp: nth_append)

lemma take_load [simp]: "take n (load m a k) = load m a (min n k)"
  by (rule nth_equalityI) auto

lemma drop_load [simp]: "drop n (load m a k) = load m (a + n) (k - n)"
  by (rule nth_equalityI) (auto simp: add.assoc)

lemma load_word_store [simp]: "length bs = 8 \<Longrightarrow> load_word (store m a bs) a = unat (from_ne_bytes bs :: u64)"
  by (metis load_store_same load_word_def)

lemma load_word_other: "a + length bs \<le> b \<or> b + 8 \<le> a \<Longrightarrow> load_word (store m a bs) b = load_word m b"
  by (simp add: load_word_def load_store_other)

section \<open>Lemmas on the heap\<close>

lemma mspace_okD:
  assumes "mspace_ok ms good live lo hi" and "good s"
  shows "blocks_ok lo hi (live s)"
    and "memalign ms al n s = (p, s') \<Longrightarrow> good s' \<and>
        (if p = 0 then live s' = live s
         else (is_power_of_two al \<longrightarrow> al dvd p) \<and> live s p = None \<and> (\<exists>u\<ge>n. live s' = (live s)(p \<mapsto> u)))"
    and "live s p \<noteq> None \<Longrightarrow> realloc_in_place ms p n s = (grown, s') \<Longrightarrow> good s' \<and>
        (if grown then \<exists>u\<ge>n. live s' = (live s)(p \<mapsto> u) else live s' = live s)"
    and "live s p \<noteq> None \<Longrightarrow> good (free_block ms p s) \<and> live (free_block ms p s) = (live s)(p := None)"
    and "live s p = Some u \<Longrightarrow> usable_size ms p s = u \<and> heap_object ms p s"
  using assms unfolding mspace_ok_def by blast+

lemma blocks_okD:
  assumes "blocks_ok lo hi L" and "L p = Some u"
  shows "0 < p" "lo \<le> p" "p + u \<le> hi" "L q = Some v \<Longrightarrow> p \<noteq> q \<Longrightarrow> p + u \<le> q \<or> q + v \<le> p"
  using assms unfolding blocks_ok_def by metis+

text \<open>Writing inside one live block leaves every other live block as it was.\<close>

lemma store_other_block:
  assumes "blocks_ok lo hi L" and "L p = Some u" and "L q = Some v" and "p \<noteq> q"
    and "p \<le> a" "a + length bs \<le> p + u" and "n \<le> v"
  shows "load (store m a bs) q n = load m q n"
  using blocks_okD(4) [OF assms(1,2,3,4)] assms(5-7) by (intro load_store_other) auto

lemma allocate_ok:
  assumes "mspace_ok ms good live lo hi" and "good s" and "allocate ms l (s, m) = (res, s', m')"
  shows "good s' \<and> m' = m \<and>
    (case res of
       Inr (Some p) \<Rightarrow> 0 < p \<and> max (lay_align l) 8 dvd p \<and> live s p = None \<and>
         (\<exists>u\<ge>lay_size l. live s' = (live s)(p \<mapsto> u))
     | _ \<Rightarrow> live s' = live s)"
proof (cases "from_size_align (lay_size l) (max (lay_align l) min_heap_alignment)")
  case (Some l')
  then have l': "lay_align l' = max (lay_align l) 8" "lay_size l' = lay_size l" "is_power_of_two (lay_align l')"
    by (auto simp: from_size_align_def min_heap_alignment_def split: if_splits)
  obtain p s1 where call: "memalign ms (lay_align l') (lay_size l') s = (p, s1)" by fastforce
  from mspace_okD(2) [OF assms(1,2) call] show ?thesis
    using assms(3) Some call l' by (auto simp: allocate_def split: if_splits)
qed (use assms in \<open>auto simp: allocate_def\<close>)

lemma allocate_zeroed_ok:
  fixes res :: "'e fault + usize option"
  assumes "mspace_ok ms good live lo hi" and "good s" and "allocate_zeroed ms l (s, m) = (res, s', m')"
  shows "good s' \<and>
    (case res of
       Inr (Some p) \<Rightarrow> 0 < p \<and> max (lay_align l) 8 dvd p \<and> live s p = None \<and>
         (\<exists>u\<ge>lay_size l. live s' = (live s)(p \<mapsto> u)) \<and> m' = store m p (replicate (lay_size l) 0)
     | _ \<Rightarrow> live s' = live s \<and> m' = m)"
proof -
  obtain res1 :: "'e fault + usize option" and s1 m1 where alloc: "allocate ms l (s, m) = (res1, s1, m1)"
    by (rule prod_cases3)
  from allocate_ok [OF assms(1,2) alloc] assms(3) alloc show ?thesis
    by (auto simp: allocate_zeroed_def split: sum.splits option.splits)
qed

lemma deallocate_ok:
  assumes "mspace_ok ms good live lo hi" and "good s" and "live s p \<noteq> None"
  shows "deallocate ms p (s, m) = (Inr (), free_block ms p s, m) \<and>
    good (free_block ms p s) \<and> live (free_block ms p s) = (live s)(p := None)"
  using mspace_okD(4,5) [OF assms(1,2)] assms(3) by (auto simp: deallocate_def is_heap_object_def)

lemma reallocate_ok:
  fixes res :: "usize option"
  assumes ok: "mspace_ok ms good live lo hi" and "good s" and p: "live s p = Some u"
    and "lay_size old \<le> u" and run: "reallocate ms p old new (s, m) = ((Inr res :: 'e fault + usize option), s', m')"
  shows "good s' \<and>
    (case res of
       None \<Rightarrow> live s' = live s \<and> m' = m
     | Some q \<Rightarrow> 0 < q \<and> (q = p \<or> live s q = None) \<and>
         (\<exists>u'\<ge>lay_size new. live s' = (live s)(p := None, q \<mapsto> u')) \<and>
         load m' q (min u (lay_size new)) = load m p (min u (lay_size new)) \<and>
         (\<forall>b v. live s b = Some v \<longrightarrow> b \<noteq> p \<longrightarrow> load m' b v = load m b v))"
proof -
  note blocks = mspace_okD(1) [OF ok \<open>good s\<close>]
  note obj = mspace_okD(5) [OF ok \<open>good s\<close> p]
  have "0 < p" by (rule blocks_okD(1) [OF blocks p])
  obtain l where l: "from_size_align (lay_size new) (max (lay_align new) min_heap_alignment) = Some l"
    using run by (auto simp: reallocate_def split: option.splits)
  then have size_l: "lay_size l = lay_size new"
    by (auto simp: from_size_align_def split: if_splits)
  obtain grown s1 where step: "(if lay_align l dvd p then realloc_in_place ms p (lay_size l) s else (False, s)) = (grown, s1)"
    by fastforce
  then have s1: "good s1 \<and> (if grown then \<exists>u'\<ge>lay_size l. live s1 = (live s)(p \<mapsto> u') else live s1 = live s)"
    using mspace_okD(3) [OF ok \<open>good s\<close>, of p "lay_size l" grown s1] p \<open>good s\<close> by (auto split: if_splits)
  have run: "(if lay_size l = u then (Inr (Some p), s, m)
     else if grown then (Inr (Some p), s1, m)
     else case allocate ms l (s1, m) of
         (Inr (Some q), s2, m2) \<Rightarrow> (Inr (Some q), free_block ms p s2, store m2 q (load m2 p (min u (lay_size l))))
       | other \<Rightarrow> other) = ((Inr res :: 'e fault + usize option), s', m')"
    using run obj \<open>lay_size old \<le> u\<close> unfolding reallocate_def l
    by (simp add: is_heap_object_def step cong: if_cong)
  consider "lay_size l = u" | "lay_size l \<noteq> u" "grown" | "lay_size l \<noteq> u" "\<not> grown" by blast
  then show ?thesis
  proof cases
    case 1
    then show ?thesis
      using run \<open>0 < p\<close> \<open>good s\<close> p size_l by (auto simp: fun_upd_idem intro!: exI [of _ u])
  next
    case 2
    then show ?thesis
      using run \<open>0 < p\<close> s1 size_l by auto
  next
    case 3
    obtain res2 :: "'e fault + usize option" and s2 m2 where alloc: "allocate ms l (s1, m) = (res2, s2, m2)"
      by (rule prod_cases3)
    have live1: "live s1 = live s" and "good s1" using s1 3(2) by auto
    note fresh = allocate_ok [OF ok \<open>good s1\<close> alloc]
    show ?thesis
    proof (cases res)
      case None
      then show ?thesis
        using run 3 alloc fresh live1 by (auto split: sum.splits option.splits)
    next
      case (Some q)
      then have q: "res2 = Inr (Some q)" "s' = free_block ms p s2"
          "m' = store m q (load m p (min u (lay_size new)))"
        using run 3 alloc fresh size_l by (auto split: sum.splits option.splits)
      from fresh q(1) obtain u' where q': "0 < q" "live s q = None" "lay_size new \<le> u'" "live s2 = (live s)(q \<mapsto> u')"
        and "good s2" using live1 size_l by auto
      then have "q \<noteq> p" and p2: "live s2 p = Some u" using p by auto
      have "load m' b v = load m b v" if "live s b = Some v" "b \<noteq> p" for b v
        using mspace_okD(1) [OF ok \<open>good s2\<close>] that q' unfolding q(3)
        by (intro store_other_block [of lo hi "live s2" q u' b v]) auto
      moreover have "load m' q (min u (lay_size new)) = load m p (min u (lay_size new))"
        unfolding q(3) by (rule load_store_at) simp
      ultimately show ?thesis
        using mspace_okD(4) [OF ok \<open>good s2\<close>, of p] p2 Some q(2) q' \<open>q \<noteq> p\<close> by (auto simp: fun_upd_twist)
    qed
  qed
qed

section \<open>An allocator that keeps the promise\<close>

text \<open>
  A bump allocator over the range from \<open>lo\<close> to \<open>hi\<close>; its state is the next free address and the live
  blocks. It shows that \<open>mspace_ok\<close> can hold and serves the concrete evaluations.
\<close>

definition bump_mspace :: "usize \<Rightarrow> (usize \<times> (usize \<rightharpoonup> usize)) mspace" where
  "bump_mspace hi =
     \<lparr>memalign = (\<lambda>al n s. let p = (fst s + al - 1) div al * al in
        if 0 < p \<and> p + n \<le> hi then (p, p + n + 1, (snd s)(p \<mapsto> n)) else (0, s)),
      realloc_in_place = (\<lambda>p n s. (False, s)),
      free_block = (\<lambda>p s. (fst s, (snd s)(p := None))),
      usable_size = (\<lambda>p s. case snd s p of None \<Rightarrow> 0 | Some u \<Rightarrow> u),
      heap_object = (\<lambda>p s. 0 < p \<and> p \<le> hi)\<rparr>"

definition bump_good :: "usize \<Rightarrow> usize \<Rightarrow> usize \<times> (usize \<rightharpoonup> usize) \<Rightarrow> bool" where
  "bump_good lo hi s \<longleftrightarrow> lo \<le> fst s \<and> blocks_ok lo hi (snd s) \<and> (\<forall>p u. snd s p = Some u \<longrightarrow> p + u < fst s)"

lemma round_up: "0 < (a :: nat) \<Longrightarrow> n \<le> (n + a - 1) div a * a"
proof -
  assume "0 < a"
  then have "(n + a - 1) div a * a + (n + a - 1) mod a = n + a - 1" "(n + a - 1) mod a < a" by simp_all
  then show ?thesis by linarith
qed

lemma bump_memalign:
  assumes "bump_good lo hi s" "memalign (bump_mspace hi) al n s = (p, s')"
  shows "bump_good lo hi s' \<and>
    (if p = 0 then snd s' = snd s
     else al dvd p \<and> snd s p = None \<and> (\<exists>u\<ge>n. snd s' = (snd s)(p \<mapsto> u)))"
proof (cases "p = 0")
  case True
  then show ?thesis using assms by (auto simp: bump_mspace_def Let_def split: if_splits)
next
  case False
  let ?p = "(fst s + al - 1) div al * al"
  have p: "p = ?p" "0 < p" "p + n \<le> hi" "s' = (p + n + 1, (snd s)(p \<mapsto> n))"
    using assms(2) False by (auto simp: bump_mspace_def Let_def split: if_splits)
  then have "0 < al" using p(2) by (cases al) auto
  then have le: "fst s \<le> p" using round_up p(1) by simp
  have fresh: "snd s p = None"
    using assms(1) le by (cases "snd s p") (fastforce simp: bump_good_def)+
  have below: "q + v < p" if "snd s q = Some v" for q v
    using assms(1) le that by (fastforce simp: bump_good_def)
  have "blocks_ok lo hi ((snd s)(p \<mapsto> n))"
    using assms(1) p(2,3) le below unfolding bump_good_def blocks_ok_def
    by (auto split: if_splits) (meson less_imp_le)+
  then show ?thesis
    using assms(1) p le fresh below by (fastforce simp: bump_good_def)
qed

lemma bump_mspace_ok: "mspace_ok (bump_mspace hi) (bump_good lo hi) snd lo hi"
  unfolding mspace_ok_def
proof (intro conjI allI impI)
  fix s al n p s' assume "bump_good lo hi s" "memalign (bump_mspace hi) al n s = (p, s')"
  from bump_memalign [OF this] show "bump_good lo hi s'"
    and "if p = 0 then snd s' = snd s
      else (is_power_of_two al \<longrightarrow> al dvd p) \<and> snd s p = None \<and> (\<exists>u\<ge>n. snd s' = (snd s)(p \<mapsto> u))"
    by (auto split: if_splits)
next
  fix s p u assume "bump_good lo hi s" "snd s p = Some u"
  then show "usable_size (bump_mspace hi) p s = u" and "heap_object (bump_mspace hi) p s"
    using blocks_okD(1,3) [of lo hi "snd s" p u] by (auto simp: bump_good_def bump_mspace_def)
qed (auto simp: bump_good_def bump_mspace_def blocks_ok_def split: if_splits)

section \<open>Properties of the heap\<close>

text \<open>
  C12. A successful \<^verbatim>\<open>reallocate\<close> of a live block keeps the block's bytes up to the smaller size, in
  a live block of the requested size: the same one, or a new one with the old one freed. Every other
  live block is untouched; when it fails, nothing has changed.
\<close>

theorem reallocate_keeps_contents:
  assumes "mspace_ok ms good live lo hi" and "good s" and "live s p = Some u" and "lay_size old \<le> u"
  shows "(reallocate ms p old new (s, m) = (Inr (Some q), s', m') \<longrightarrow>
      (q = p \<or> live s q = None) \<and>
      (\<exists>u'\<ge>lay_size new. live s' = (live s)(p := None, q \<mapsto> u')) \<and>
      load m' q (min u (lay_size new)) = load m p (min u (lay_size new)) \<and>
      (\<forall>b v. live s b = Some v \<longrightarrow> b \<noteq> p \<longrightarrow> load m' b v = load m b v)) \<and>
    (reallocate ms p old new (s, m) = (Inr None, s', m') \<longrightarrow> live s' = live s \<and> m' = m)"
  using reallocate_ok [OF assms, where res = "Some q"] reallocate_ok [OF assms, where res = None]
  by fastforce

definition sample_heap :: "(usize \<times> (usize \<rightharpoonup> usize)) heap" where
  "sample_heap = ((101, [96 \<mapsto> 4]), store (\<lambda>_. 0) 96 [1, 2, 3, 4])"

lemma reallocate_keeps_contents_witness:
  "\<exists>q s' m'. reallocate (bump_mspace 200) 96 \<lparr>lay_size = 4, lay_align = 1\<rparr> \<lparr>lay_size = 6, lay_align = 1\<rparr> sample_heap =
       (Inr (Some q), s', m') \<and> q = 104 \<and> load m' q 4 = [1, 2, 3, 4] \<and> snd s' 96 = None"
proof -
  have good: "bump_good 64 200 (101, [96 \<mapsto> 4])"
    by (auto simp: bump_good_def blocks_ok_def split: if_splits)
  let ?m = "store (\<lambda>_. 0) 96 [1, 2, 3, 4] :: memory"
  have run: "reallocate (bump_mspace 200) 96 \<lparr>lay_size = 4, lay_align = 1\<rparr> \<lparr>lay_size = 6, lay_align = 1\<rparr>
      ((101, [96 \<mapsto> 4]), ?m) =
      (Inr (Some 104), (111, [96 \<mapsto> 4, 104 \<mapsto> 6](96 := None)), store ?m 104 (load ?m 96 4))"
    by (simp add: reallocate_def from_size_align_def is_power_of_two_def min_heap_alignment_def is_heap_object_def
        bump_mspace_def allocate_def Let_def image_iff Bex_def exI [of _ 3])
  have "load (store ?m 104 (load ?m 96 4)) 104 4 = load ?m 96 4"
    using reallocate_keeps_contents [OF bump_mspace_ok good, of 96 4 "\<lparr>lay_size = 4, lay_align = 1\<rparr>"
        "\<lparr>lay_size = 6, lay_align = 1\<rparr>", THEN conjunct1, rule_format, OF _ _ run] by simp
  moreover have "load ?m 96 4 = [1, 2, 3, 4]"
    by (rule load_store_at) simp
  ultimately show ?thesis
    unfolding sample_heap_def run by simp
qed

end
