(* ===== verification/Shared_Region.thy ===== *)
theory Shared_Region
  imports Shared_Heap
begin

text \<open>
  Attachment to the server's shared region, \<^verbatim>\<open>hammer-shmem/src/region.rs\<close>: probing the backing
  file, mapping it at the address it names, and checking the header in front of the heaps. System
  calls are parameters: what they return is an argument. The header and the heap descriptors are
  read from memory at the offsets the source asserts. A raw pointer that is null or does not lie in
  the mapping is undefined behaviour in the source; here its dereference is a panic.
\<close>

section \<open>Types\<close>

definition svm_region_version :: u64 where
  "svm_region_version = push_bit 16 2 OR 2"

definition data_heap_flag :: u64 where
  "data_heap_flag = 1"

definition nodata_flag :: u64 where
  "nodata_flag = 4"

definition public_flags :: u64 where
  "public_flags = data_heap_flag OR nodata_flag"

definition flags_contain :: "u64 \<Rightarrow> u64 \<Rightarrow> bool" where
  "flags_contain flags flag \<longleftrightarrow> flags AND flag = flag"

text \<open>The header fields the client reads; the rest of the struct is opaque to it.\<close>

record region_header =
  rh_version :: u64
  rh_flags :: u64
  rh_virtual_base :: usize
  rh_virtual_size :: usize
  rh_pvt_heap :: usize
  rh_data_heap :: usize
  rh_user_ctx :: usize

definition region_header_bytes :: usize where
  "region_header_bytes = 256"

definition region_header_at :: "memory \<Rightarrow> usize \<Rightarrow> region_header" where
  "region_header_at m a =
     \<lparr>rh_version = from_ne_bytes (load m a 8), rh_flags = from_ne_bytes (load m (a + 104) 8),
      rh_virtual_base = load_word m (a + 112), rh_virtual_size = load_word m (a + 120),
      rh_pvt_heap = load_word m (a + 128), rh_data_heap = load_word m (a + 144),
      rh_user_ctx = load_word m (a + 152)\<rparr>"

record mem_heap =
  mh_base :: usize
  mh_mspace :: usize
  mh_size :: usize

definition mem_heap_bytes :: usize where
  "mem_heap_bytes = 32"

definition mem_heap_at :: "memory \<Rightarrow> usize \<Rightarrow> mem_heap" where
  "mem_heap_at m a = \<lparr>mh_base = load_word m a, mh_mspace = load_word m (a + 8), mh_size = load_word m (a + 16)\<rparr>"

text \<open>\<^verbatim>\<open>io::Error\<close>: an error number of the system, or an error kind with its text.\<close>

datatype io_error = Os int | Custom string string

datatype region_error =
    RegionOpen bytes io_error
  | BackingMetadata io_error
  | RegionNotReady
  | RegionVersion u64 u64
  | VirtualBaseMismatch usize usize
  | VirtualSizeMismatch usize usize
  | InvalidFlags u64
  | MissingDataHeap
  | PvtHeapLayout
  | DataHeapLayout
  | FixedMapping usize usize io_error
  | AddressRangeOccupied usize usize
  | Unmapping usize usize io_error

record svm_region =
  rg_base :: usize
  rg_size :: usize

section \<open>Ranges\<close>

definition contains_range :: "svm_region \<Rightarrow> usize \<Rightarrow> usize \<Rightarrow> bool" where
  "contains_range r start n =
     (case checked_add (rg_base r) (rg_size r) of
        None \<Rightarrow> False
      | Some end' \<Rightarrow> rg_base r \<le> start \<and>
          (case checked_add start n of None \<Rightarrow> False | Some end_of_range \<Rightarrow> end_of_range \<le> end'))"

definition remaining_from :: "svm_region \<Rightarrow> memory \<Rightarrow> usize \<Rightarrow> bytes option" where
  "remaining_from r m address =
     (case checked_add (rg_base r) (rg_size r) of
        None \<Rightarrow> None
      | Some end' \<Rightarrow> if address < rg_base r \<or> end' < address then None
          else Some (load m address (end' - address)))"

section \<open>Validation\<close>

definition heap_deref :: "svm_region \<Rightarrow> memory \<Rightarrow> usize \<Rightarrow> 'e fault + mem_heap" where
  "heap_deref r m p =
     (if p = 0 then Inl (Panic ''null pointer dereferenced'')
      else if \<not> contains_range r p mem_heap_bytes then Inl (Panic ''pointer outside the mapping dereferenced'')
      else Inr (mem_heap_at m p))"

definition add_usize :: "usize \<Rightarrow> usize \<Rightarrow> 'e fault + usize" where
  "add_usize a b = ok_or (Panic ''attempt to add with overflow'') (checked_add a b)"

text \<open>
  The second half of \<^verbatim>\<open>validate\<close>: \<^verbatim>\<open>expected_data_base\<close> allows for a null private heap, the size
  check dereferences it. \<^verbatim>\<open>||\<close> evaluates its operands from the left.
\<close>

definition validate_data_heap :: "svm_region \<Rightarrow> memory \<Rightarrow> usize \<Rightarrow> region_header \<Rightarrow> region_error fault + unit" where
  "validate_data_heap r m page_size h =
     rbind (add_usize (rg_base r) page_size) (\<lambda>b.
     rbind (if rh_pvt_heap h = 0 then Inr 0
            else rbind (heap_deref r m (rh_pvt_heap h)) (\<lambda>pvt. Inr (mh_size pvt))) (\<lambda>pvt_size.
     rbind (add_usize b pvt_size) (\<lambda>expected_data_base.
     if rh_data_heap h = 0 then Inl (Err MissingDataHeap)
     else if \<not> flags_contain (rh_flags h) data_heap_flag then Inl (Err DataHeapLayout)
     else
     rbind (heap_deref r m (rh_data_heap h)) (\<lambda>data_heap.
     if mh_base data_heap \<noteq> expected_data_base then Inl (Err DataHeapLayout)
     else
     rbind (heap_deref r m (rh_pvt_heap h)) (\<lambda>pvt.
     rbind (add_usize page_size (mh_size pvt)) (\<lambda>used.
     if mh_size data_heap \<noteq> rg_size r - used then Inl (Err DataHeapLayout) else Inr ()))))))"

definition validate_region :: "svm_region \<Rightarrow> memory \<Rightarrow> usize \<Rightarrow> region_error fault + unit" where
  "validate_region r m page_size =
     (let h = region_header_at m (rg_base r); version = rh_version h in
      if version = 0 then Inl (Err RegionNotReady)
      else if version \<noteq> svm_region_version then Inl (Err (RegionVersion version svm_region_version))
      else if rh_virtual_base h \<noteq> rg_base r
        then Inl (Err (VirtualBaseMismatch (rg_base r) (rh_virtual_base h)))
      else if rh_virtual_size h \<noteq> rg_size r
        then Inl (Err (VirtualSizeMismatch (rg_size r) (rh_virtual_size h)))
      else if rh_flags h AND NOT public_flags \<noteq> 0 \<or>
          flags_contain (rh_flags h) data_heap_flag \<and> flags_contain (rh_flags h) nodata_flag
        then Inl (Err (InvalidFlags (rh_flags h)))
      else validate_data_heap r m page_size h)"

section \<open>Mapping\<close>

text \<open>
  \<open>stat\<close> is the result of \<^verbatim>\<open>fstat\<close>: the file size; \<open>pread\<close> gives the bytes read.
\<close>

definition probe_backing :: "int + int \<Rightarrow> int + bytes \<Rightarrow> usize \<Rightarrow> region_error fault + usize \<times> usize" where
  "probe_backing stat pread page_size =
     (case stat of
        Inl e \<Rightarrow> Inl (Err (BackingMetadata (Os e)))
      | Inr st_size \<Rightarrow>
          if st_size < 0 then Inl (Err (BackingMetadata (Custom ''InvalidData'' ''negative backing size'')))
          else if nat st_size < page_size then Inl (Err RegionNotReady)
          else (case pread of
              Inl e \<Rightarrow> Inl (Err (BackingMetadata (Os e)))
            | Inr bs \<Rightarrow>
                if length bs < region_header_bytes then Inl (Err RegionNotReady)
                else let h = region_header_at (store (\<lambda>_. 0) 0 bs) 0 in
                  if rh_version h = 0 then Inl (Err RegionNotReady)
                  else if rh_version h \<noteq> svm_region_version
                    then Inl (Err (RegionVersion (rh_version h) svm_region_version))
                  else if rh_virtual_base h = 0 \<or> rh_virtual_size h < page_size \<or>
                      rh_virtual_size h mod page_size \<noteq> 0 then Inl (Err RegionNotReady)
                  else if nat st_size < rh_virtual_size h then Inl (Err (BackingMetadata (Custom ''UnexpectedEof'' ''SVM backing is too short'')))
                  else Inr (rh_virtual_base h, rh_virtual_size h)))"

text \<open>
  \<open>reserve\<close> is the first \<^verbatim>\<open>mmap\<close>, at a hint; \<open>map_fixed\<close> the second, over the reservation;
  \<open>unmapped\<close> says whether \<^verbatim>\<open>munmap\<close> succeeds. The offset is always zero. 17 is \<^verbatim>\<open>EEXIST\<close>.
\<close>

record map_calls =
  reserve :: "usize \<Rightarrow> usize \<Rightarrow> int + usize"
  map_fixed :: "usize \<Rightarrow> usize \<Rightarrow> int + usize"
  unmapped :: "usize \<Rightarrow> usize \<Rightarrow> bool"

definition unmap_or_abort :: "map_calls \<Rightarrow> usize \<Rightarrow> usize \<Rightarrow> region_error fault \<Rightarrow> region_error fault + 'a" where
  "unmap_or_abort calls a n e = (if unmapped calls a n then Inl e else Inl (Panic ''abort''))"

definition map_fixed_backing :: "map_calls \<Rightarrow> usize \<Rightarrow> usize \<Rightarrow> region_error fault + usize" where
  "map_fixed_backing calls base n =
     (case reserve calls base n of
        Inl e \<Rightarrow> Inl (Err (if e = 17 then AddressRangeOccupied base n else FixedMapping base n (Os e)))
      | Inr reservation \<Rightarrow>
          if reservation \<noteq> base then unmap_or_abort calls reservation n (Err (AddressRangeOccupied base n))
          else (case map_fixed calls reservation n of
              Inl e \<Rightarrow> unmap_or_abort calls reservation n (Err (FixedMapping base n (Os e)))
            | Inr mapped \<Rightarrow>
                if mapped = 0 then Inl (Panic ''successful fixed mmap is non-null'') else Inr mapped))"

text \<open>
  \<^verbatim>\<open>SvmRegion::attach\<close>; \<open>m\<close> is the memory once the backing is mapped, \<open>opened\<close> the error of opening
  the file, if any.
\<close>

definition attach_region ::
  "bytes \<Rightarrow> int option \<Rightarrow> int + int \<Rightarrow> int + bytes \<Rightarrow> map_calls \<Rightarrow> usize \<Rightarrow> memory \<Rightarrow> region_error fault + svm_region" where
  "attach_region path opened stat pread calls page_size m =
     (case opened of
        Some e \<Rightarrow> Inl (Err (RegionOpen path (Os e)))
      | None \<Rightarrow>
          rbind (probe_backing stat pread page_size) (\<lambda>(base, n).
          rbind (map_fixed_backing calls base n) (\<lambda>mapped.
            let r = \<lparr>rg_base = mapped, rg_size = n\<rparr> in
            (case validate_region r m page_size of
               Inr _ \<Rightarrow> Inr r
             | Inl (Err e) \<Rightarrow> unmap_or_abort calls mapped n (Err e)
             | Inl (Panic msg) \<Rightarrow> Inl (Panic msg)))))"

text \<open>Dropping the region; a region of size zero is not mapped.\<close>

definition drop_region :: "map_calls \<Rightarrow> svm_region \<Rightarrow> region_error fault + unit" where
  "drop_region calls r =
     (if rg_size r \<noteq> 0 \<and> \<not> unmapped calls (rg_base r) (rg_size r) then Inl (Panic ''abort'') else Inr ())"

section \<open>The attached region\<close>

definition data_heap :: "svm_region \<Rightarrow> memory \<Rightarrow> 'e fault + mem_heap" where
  "data_heap r m =
     (let p = rh_data_heap (region_header_at m (rg_base r)) in
      if p = 0 then Inl (Panic ''validated region has a Data Heap'') else heap_deref r m p)"

definition user_context :: "svm_region \<Rightarrow> memory \<Rightarrow> usize option" where
  "user_context r m =
     (let p = rh_user_ctx (region_header_at m (rg_base r)) in if p = 0 then None else Some p)"

section \<open>Images of headers\<close>

text \<open>The bytes a server writes, used for the concrete regions below.\<close>

definition word_image :: "usize \<Rightarrow> bytes" where
  "word_image n = to_ne_bytes 8 (of_nat n :: u64)"

definition header_image :: "region_header \<Rightarrow> bytes" where
  "header_image h = to_ne_bytes 8 (rh_version h) @ replicate 96 0 @ to_ne_bytes 8 (rh_flags h) @
     word_image (rh_virtual_base h) @ word_image (rh_virtual_size h) @ word_image (rh_pvt_heap h) @
     replicate 8 0 @ word_image (rh_data_heap h) @ word_image (rh_user_ctx h) @ replicate 96 0"

definition heap_image :: "mem_heap \<Rightarrow> bytes" where
  "heap_image d = word_image (mh_base d) @ word_image (mh_mspace d) @ word_image (mh_size d) @ replicate 8 0"

lemma length_word_image [simp]: "length (word_image n) = 8"
  by (simp add: word_image_def)

lemma word_image_read [simp]: "n < usize_bound \<Longrightarrow> unat (from_ne_bytes (word_image n) :: u64) = n"
  by (simp add: word_image_def usize_bound_def unat_of_nat)

lemma length_images [simp]: "length (header_image h) = 256" "length (heap_image d) = 32"
  by (simp_all add: header_image_def heap_image_def)

definition header_in_range :: "region_header \<Rightarrow> bool" where
  "header_in_range h \<longleftrightarrow> (\<forall>f\<in>{rh_virtual_base, rh_virtual_size, rh_pvt_heap, rh_data_heap, rh_user_ctx}. f h < usize_bound)"

lemma load_word_inside:
  "a \<le> b \<Longrightarrow> b + 8 \<le> a + length bs \<Longrightarrow>
     load_word (store m a bs) b = unat (from_ne_bytes (take 8 (drop (b - a) bs)) :: u64)"
  by (simp add: load_word_def load_store_inside)

lemma region_header_image:
  assumes "header_in_range h"
  shows "region_header_at (store m a (header_image h)) a = h"
  using assms
  by (cases h) (simp add: region_header_at_def load_store_inside load_word_inside header_in_range_def header_image_def)

lemma mem_heap_image:
  assumes "mh_base d < usize_bound" "mh_mspace d < usize_bound" "mh_size d < usize_bound"
  shows "mem_heap_at (store m a (heap_image d)) a = d"
  using assms
  by (cases d) (simp add: mem_heap_at_def load_store_inside load_word_inside heap_image_def)

lemma region_header_other:
  "a + length bs \<le> b \<or> b + 256 \<le> a \<Longrightarrow> region_header_at (store m a bs) b = region_header_at m b"
  by (elim disjE) (simp_all add: region_header_at_def load_word_other load_store_other)

section \<open>Lemmas on regions\<close>

lemma contains_range_iff:
  "contains_range r start n \<longleftrightarrow>
     rg_base r + rg_size r < usize_bound \<and> rg_base r \<le> start \<and> start + n \<le> rg_base r + rg_size r"
  by (auto simp: contains_range_def split: option.splits)

lemma remaining_from_Some:
  "remaining_from r m a = Some bs \<longleftrightarrow> rg_base r + rg_size r < usize_bound \<and> rg_base r \<le> a \<and>
     a \<le> rg_base r + rg_size r \<and> bs = load m a (rg_base r + rg_size r - a)"
  by (auto simp: remaining_from_def split: option.splits)

lemma heap_deref_Inr [simp]:
  "heap_deref r m p = Inr d \<longleftrightarrow> p \<noteq> 0 \<and> contains_range r p mem_heap_bytes \<and> d = mem_heap_at m p"
  by (auto simp: heap_deref_def)

lemma add_usize_Inr [simp]: "add_usize a b = Inr c \<longleftrightarrow> c = a + b \<and> a + b < usize_bound"
  by (auto simp: add_usize_def)

lemma validate_region_Inr:
  assumes "validate_region r m page_size = Inr ()" and "h = region_header_at m (rg_base r)"
  shows "rh_version h = svm_region_version \<and> rh_virtual_base h = rg_base r \<and> rh_virtual_size h = rg_size r \<and>
    rh_flags h AND NOT public_flags = 0 \<and> flags_contain (rh_flags h) data_heap_flag \<and>
    \<not> flags_contain (rh_flags h) nodata_flag \<and>
    heap_deref r m (rh_pvt_heap h) = Inr (mem_heap_at m (rh_pvt_heap h) :: mem_heap) \<and>
    data_heap r m = (Inr (mem_heap_at m (rh_data_heap h)) :: region_error fault + mem_heap) \<and>
    mh_base (mem_heap_at m (rh_data_heap h)) = rg_base r + page_size + mh_size (mem_heap_at m (rh_pvt_heap h)) \<and>
    mh_size (mem_heap_at m (rh_data_heap h)) = rg_size r - (page_size + mh_size (mem_heap_at m (rh_pvt_heap h)))"
  using assms
  by (auto simp: validate_region_def validate_data_heap_def Let_def rbind_Inr data_heap_def split: if_splits)

lemma mem_heap_other:
  "a + length bs \<le> b \<or> b + 32 \<le> a \<Longrightarrow> mem_heap_at (store m a bs) b = mem_heap_at m b"
  by (elim disjE) (simp_all add: mem_heap_at_def load_word_other)

lemma attach_region_Inr:
  assumes "attach_region path opened stat pread calls page_size m = Inr r"
  obtains st_size where "stat = Inr st_size" "rg_size r \<le> nat st_size" "page_size \<le> rg_size r"
    "rg_size r mod page_size = 0" "rg_base r \<noteq> 0" "validate_region r m page_size = Inr ()"
proof -
  obtain base n mapped where probe: "probe_backing stat pread page_size = Inr (base, n)"
      and map: "map_fixed_backing calls base n = Inr mapped"
      and run: "(case validate_region \<lparr>rg_base = mapped, rg_size = n\<rparr> m page_size of
          Inr _ \<Rightarrow> Inr \<lparr>rg_base = mapped, rg_size = n\<rparr>
        | Inl (Err e) \<Rightarrow> unmap_or_abort calls mapped n (Err e)
        | Inl (Panic msg) \<Rightarrow> Inl (Panic msg)) = Inr r"
    using assms by (auto simp: attach_region_def rbind_Inr Let_def split: option.splits)
  from run have r: "r = \<lparr>rg_base = mapped, rg_size = n\<rparr>" and valid: "validate_region r m page_size = Inr ()"
    by (cases "validate_region \<lparr>rg_base = mapped, rg_size = n\<rparr> m page_size";
        auto simp: unmap_or_abort_def split: fault.splits if_splits)+
  with map have "rg_base r \<noteq> 0"
    by (auto simp: map_fixed_backing_def unmap_or_abort_def split: sum.splits if_splits)
  moreover obtain st_size where "stat = Inr st_size" "n \<le> nat st_size" "page_size \<le> n" "n mod page_size = 0"
    using probe by (auto simp: probe_backing_def Let_def split: sum.splits if_splits)
  ultimately show ?thesis
    using that r valid by simp
qed

section \<open>Properties of the region\<close>

text \<open>
  C24. A region is attached only when the server has published it completely and it is mapped where
  the server has it: the version, base and size agree, no flag outside the public ones is set, the
  data heap is announced and its absence is not, the size is a whole number of pages backed by the
  file, and the data heap named by the header starts right after the header page and the private heap
  and has the size of the rest (none when nothing is left).
\<close>

theorem attached_region_layout:
  assumes "attach_region path opened stat pread calls page_size m = Inr r"
    and "h = region_header_at m (rg_base r)"
    and "pvt = mem_heap_at m (rh_pvt_heap h)" and "d = mem_heap_at m (rh_data_heap h)"
  shows "rh_version h = svm_region_version \<and> rh_virtual_base h = rg_base r \<and> rh_virtual_size h = rg_size r \<and>
    rg_base r \<noteq> 0 \<and> page_size \<le> rg_size r \<and> rg_size r mod page_size = 0 \<and>
    (\<exists>st_size. stat = Inr st_size \<and> rg_size r \<le> nat st_size) \<and>
    rh_flags h AND NOT public_flags = 0 \<and> flags_contain (rh_flags h) data_heap_flag \<and>
    \<not> flags_contain (rh_flags h) nodata_flag \<and>
    rh_data_heap h \<noteq> 0 \<and> mh_base d = rg_base r + page_size + mh_size pvt \<and>
    mh_size d = rg_size r - (page_size + mh_size pvt)"
  using assms(1)
proof (rule attach_region_Inr)
  fix st_size assume "stat = Inr st_size" "rg_size r \<le> nat st_size" "page_size \<le> rg_size r"
    "rg_size r mod page_size = 0" "rg_base r \<noteq> 0" and valid: "validate_region r m page_size = Inr ()"
  with validate_region_Inr [OF valid assms(2)] show ?thesis
    by (auto simp: assms(3,4) data_heap_def Let_def assms(2) [symmetric] split: if_splits)
qed

definition sample_header :: "usize \<Rightarrow> region_header" where
  "sample_header pvt = \<lparr>rh_version = svm_region_version, rh_flags = data_heap_flag, rh_virtual_base = 65536,
     rh_virtual_size = 8192, rh_pvt_heap = pvt, rh_data_heap = 65824, rh_user_ctx = 0\<rparr>"

definition sample_memory :: "usize \<Rightarrow> usize \<Rightarrow> memory" where
  "sample_memory pvt gap =
     store (store (store (\<lambda>_. 0) 65536 (header_image (sample_header pvt)))
       65792 (heap_image \<lparr>mh_base = 69632, mh_mspace = 0, mh_size = gap\<rparr>))
       65824 (heap_image \<lparr>mh_base = 69632 + gap, mh_mspace = 0, mh_size = 4096 - gap\<rparr>)"

definition sample_calls :: map_calls where
  "sample_calls = \<lparr>reserve = (\<lambda>a n. Inr a), map_fixed = (\<lambda>a n. Inr a), unmapped = (\<lambda>a n. True)\<rparr>"

lemma sample_memory_reads:
  assumes "pvt < usize_bound" "gap \<le> 4096"
  shows "region_header_at (sample_memory pvt gap) 65536 = sample_header pvt"
    and "mem_heap_at (sample_memory pvt gap) 65792 = \<lparr>mh_base = 69632, mh_mspace = 0, mh_size = gap\<rparr>"
    and "mem_heap_at (sample_memory pvt gap) 65824 = \<lparr>mh_base = 69632 + gap, mh_mspace = 0, mh_size = 4096 - gap\<rparr>"
  using assms
  by (simp_all add: sample_memory_def region_header_other region_header_image header_in_range_def sample_header_def
      mem_heap_other mem_heap_image usize_bound_def)

lemma sample_attach:
  assumes "pvt < usize_bound" "gap \<le> 4096"
  shows "attach_region [] None (Inr 8192) (Inr (header_image (sample_header pvt))) sample_calls 4096 (sample_memory pvt gap) =
    (case validate_data_heap \<lparr>rg_base = 65536, rg_size = 8192\<rparr> (sample_memory pvt gap) 4096 (sample_header pvt) of
       Inr _ \<Rightarrow> Inr \<lparr>rg_base = 65536, rg_size = 8192\<rparr> | Inl e \<Rightarrow> Inl e)"
proof -
  have image: "region_header_at (store (\<lambda>_. 0) 0 (header_image (sample_header pvt))) 0 = sample_header pvt"
    using assms by (intro region_header_image) (simp add: header_in_range_def sample_header_def usize_bound_def)
  have flags: "flags_contain data_heap_flag data_heap_flag" "\<not> flags_contain data_heap_flag nodata_flag"
      "data_heap_flag AND NOT public_flags = 0"
    by (simp_all add: flags_contain_def data_heap_flag_def nodata_flag_def public_flags_def)
  show ?thesis
    using sample_memory_reads(1) [OF assms] image flags
    by (simp add: attach_region_def probe_backing_def region_header_bytes_def Let_def map_fixed_backing_def
        sample_calls_def validate_region_def unmap_or_abort_def sample_header_def svm_region_version_def
        split: sum.split fault.split)
qed

lemma attached_region_layout_witness:
  "\<exists>r. attach_region [] None (Inr 8192) (Inr (header_image (sample_header 65792))) sample_calls 4096
       (sample_memory 65792 1024) = Inr r \<and>
     mh_base (mem_heap_at (sample_memory 65792 1024) 65824) = 65536 + 4096 + 1024 \<and>
     flags_contain (rh_flags (sample_header 65792)) data_heap_flag"
proof -
  let ?r = "\<lparr>rg_base = 65536, rg_size = 8192\<rparr>"
  let ?m = "sample_memory 65792 1024"
  note reads = sample_memory_reads [of 65792 1024, unfolded usize_bound_def, simplified]
  have attach: "attach_region [] None (Inr 8192) (Inr (header_image (sample_header 65792))) sample_calls 4096 ?m = Inr ?r"
    using sample_attach [of 65792 1024] reads
    by (simp add: usize_bound_def validate_data_heap_def sample_header_def add_usize_def checked_add_def heap_deref_def
        contains_range_iff mem_heap_bytes_def flags_contain_def)
  from attached_region_layout [OF attach refl refl refl] reads show ?thesis
    by (intro exI [of _ ?r] conjI attach) (auto simp: sample_header_def)
qed

text \<open>
  C35. A region without a private heap is never attached: the base check allows for a null
  private heap, but the size check after it dereferences the null pointer.
\<close>

theorem null_pvt_heap_dereferenced:
  assumes "h = region_header_at m (rg_base r)" and "rh_version h = svm_region_version"
    and "rh_virtual_base h = rg_base r" and "rh_virtual_size h = rg_size r"
    and "rh_flags h = data_heap_flag" and "rh_pvt_heap h = 0"
    and "data_heap r m = (Inr d :: region_error fault + mem_heap)" and "mh_base d = rg_base r + page_size"
    and "rg_base r + page_size < usize_bound"
  shows "validate_region r m page_size = Inl (Panic ''null pointer dereferenced'')"
proof -
  have "flags_contain data_heap_flag data_heap_flag" "\<not> flags_contain data_heap_flag nodata_flag"
      "data_heap_flag AND NOT public_flags = 0" "svm_region_version \<noteq> 0"
    by (simp_all add: flags_contain_def data_heap_flag_def nodata_flag_def public_flags_def svm_region_version_def)
  then show ?thesis
    using assms
    by (auto simp: validate_region_def validate_data_heap_def Let_def data_heap_def add_usize_def checked_add_def
        heap_deref_def split: if_splits)
qed

lemma null_pvt_heap_dereferenced_witness:
  "validate_region \<lparr>rg_base = 65536, rg_size = 8192\<rparr> (sample_memory 0 0) 4096 = Inl (Panic ''null pointer dereferenced'')"
proof -
  note reads = sample_memory_reads [of 0 0, unfolded usize_bound_def, simplified]
  have "data_heap \<lparr>rg_base = 65536, rg_size = 8192\<rparr> (sample_memory 0 0) =
      (Inr \<lparr>mh_base = 69632, mh_mspace = 0, mh_size = 4096\<rparr> :: region_error fault + mem_heap)"
    using reads by (simp add: data_heap_def Let_def sample_header_def heap_deref_def contains_range_iff
        mem_heap_bytes_def usize_bound_def)
  then show ?thesis
    using reads by (intro null_pvt_heap_dereferenced [OF refl]) (auto simp: sample_header_def usize_bound_def)
qed

end
