(* ===== verification/Svm_Queue.thy ===== *)
theory Svm_Queue
  imports Net_Prelude
begin

text \<open>
  The fixed-size shared-memory queue of \<^verbatim>\<open>hammer-shmem/src/queue.rs\<close>: its header and
  element bytes as one record, and every operation of \<^verbatim>\<open>SvmQueue\<close> and \<^verbatim>\<open>SvmQueueLock\<close>.
  The POSIX mutex and condition variable, the event descriptors, the clock and what other
  processes do to the queue while the lock is released are an environment (\<open>queue_env\<close>) that
  the operations take as a parameter; a blocking operation that never returns is \<open>None\<close>.
  The element bytes are the list after the header; the lemmas show that every access through
  a raw pointer stays inside it.
\<close>

section \<open>Types\<close>

record svm_queue_config =
  cfg_nels :: u32
  cfg_elsize :: u32
  cfg_consumer_pid :: u32

datatype conditional_wait = Wait | Nowait | TimedWait nat

datatype queue_operation = Add | AddPair | Sub

type_synonym posix_error = int

datatype queue_error =
    ZeroCapacity | ZeroElementSize | LayoutOverflow | QueueFull | Empty | LockBusy | Timeout
  | InvalidHeader
  | ElementSizeMismatch usize usize
  | ElementLengthMismatch usize usize
  | OwnerDied
  | NotRecoverable posix_error
  | LockFailed posix_error
  | WaitFailed posix_error
  | SignalAfterCommit queue_operation posix_error
  | EventSignalAfterCommit queue_operation posix_error

record svm_queue =
  q_head :: u32
  q_tail :: u32
  q_cursize :: u32
  q_maxsize :: u32
  q_elsize :: u32
  q_consumer_pid :: u32
  q_producer_evtfd :: u32
  q_consumer_evtfd :: u32
  q_data :: bytes

record queue_lock =
  lk_guard :: bool
  lk_wait :: conditional_wait

section \<open>The environment\<close>

text \<open>
  \<open>mutex_lock\<close> takes the queue's mutex (or only tries to); an owner that died hands over an
  indeterminate guard whose recovery may fail. \<open>condvar_wait\<close> releases the mutex, lets others
  run and takes it again; the optional number is the timeout. \<open>others\<close> is what other processes
  do between two loads of the spinning wait. A non-negative descriptor is written with
  \<open>event_write\<close>, which gives the number of bytes written
  (negative on failure) and the error number of the call.
\<close>

datatype lock_outcome =
    LockError posix_error | Contended | Standard | Indeterminate "posix_error option"

datatype wait_outcome = Notified | TimedOut

datatype wait_result = Woken wait_outcome | OwnerDead "posix_error option" | WaitError posix_error

record 'w queue_env =
  mutex_lock :: "bool \<Rightarrow> svm_queue \<times> 'w \<Rightarrow> lock_outcome \<times> svm_queue \<times> 'w"
  mutex_unlock :: "svm_queue \<times> 'w \<Rightarrow> svm_queue \<times> 'w"
  condvar_wait :: "nat option \<Rightarrow> svm_queue \<times> 'w \<Rightarrow> wait_result \<times> svm_queue \<times> 'w"
  notify_all :: "svm_queue \<times> 'w \<Rightarrow> posix_error option \<times> svm_queue \<times> 'w"
  event_write :: "u32 \<Rightarrow> bytes \<Rightarrow> svm_queue \<times> 'w \<Rightarrow> (int \<times> posix_error) \<times> svm_queue \<times> 'w"
  others :: "svm_queue \<times> 'w \<Rightarrow> svm_queue \<times> 'w"
  now :: "svm_queue \<times> 'w \<Rightarrow> nat"

text \<open>The outcome of an operation: its result, and the queue and world after it.\<close>

type_synonym ('w, 'a) outcome = "(queue_error fault + 'a) \<times> svm_queue \<times> 'w"

section \<open>Layout\<close>

definition queue_header_size :: nat where
  "queue_header_size = 120"

definition cache_line_bytes :: nat where
  "cache_line_bytes = 64"

definition validate_config :: "svm_queue_config \<Rightarrow> queue_error + unit" where
  "validate_config config =
     (if cfg_nels config = 0 then Inl ZeroCapacity
      else if cfg_elsize config = 0 then Inl ZeroElementSize
      else rbind (ok_or LayoutOverflow (checked_mul (unat (cfg_nels config)) (unat (cfg_elsize config))))
        (\<lambda>_. Inr ()))"

definition size_to_alloc :: "svm_queue_config \<Rightarrow> queue_error + usize" where
  "size_to_alloc config =
     rbind (validate_config config) (\<lambda>_.
       rbind (ok_or LayoutOverflow (checked_mul (unat (cfg_nels config)) (unat (cfg_elsize config))))
         (\<lambda>n. ok_or LayoutOverflow (checked_add queue_header_size n)))"

text \<open>\<open>mem\<close> is the allocation's bytes after the header; the queue keeps what was there.\<close>

definition queue_init :: "nat \<Rightarrow> svm_queue_config \<Rightarrow> bytes \<Rightarrow> queue_error fault + svm_queue" where
  "queue_init base config mem =
     (if base mod cache_line_bytes \<noteq> 0 then Inl (Panic ''queue base is cache-line aligned'')
      else rbind (map_err Err (size_to_alloc config)) (\<lambda>_. Inr
        \<lparr>q_head = 0, q_tail = 0, q_cursize = 0, q_maxsize = cfg_nels config,
         q_elsize = cfg_elsize config, q_consumer_pid = cfg_consumer_pid config,
         q_producer_evtfd = - 1, q_consumer_evtfd = - 1,
         q_data = take (unat (cfg_nels config) * unat (cfg_elsize config)) mem\<rparr>))"

definition queue_attach :: "nat \<Rightarrow> usize \<Rightarrow> svm_queue \<Rightarrow> queue_error fault + unit" where
  "queue_attach base allocation_bytes stored =
     (if base mod cache_line_bytes \<noteq> 0 then Inl (Panic ''queue base is cache-line aligned'')
      else if allocation_bytes < queue_header_size then Inl (Err InvalidHeader)
      else if q_maxsize stored = 0 \<or> q_elsize stored = 0 \<or> q_maxsize stored \<le> q_head stored
        \<or> q_maxsize stored \<le> q_tail stored \<or> q_maxsize stored < q_cursize stored
      then Inl (Err InvalidHeader)
      else map_err Err
        (rbind (ok_or LayoutOverflow (checked_mul (unat (q_maxsize stored)) (unat (q_elsize stored)))) (\<lambda>n.
          rbind (ok_or LayoutOverflow (checked_add queue_header_size n)) (\<lambda>bs.
            if allocation_bytes < bs then Inl InvalidHeader else Inr ()))))"

definition validate_element_length :: "usize \<Rightarrow> usize \<Rightarrow> queue_error fault + unit" where
  "validate_element_length expected actual =
     (if actual \<noteq> expected then Inl (Err (ElementLengthMismatch expected actual)) else Inr ())"

definition validate_element :: "usize \<Rightarrow> bytes \<Rightarrow> queue_error fault + unit" where
  "validate_element expected element = validate_element_length expected (length element)"

definition capacity :: "svm_queue \<Rightarrow> usize" where
  "capacity q = unat (q_maxsize q)"

definition element_size :: "svm_queue \<Rightarrow> usize" where
  "element_size q = unat (q_elsize q)"

definition set_consumer_pid :: "u32 \<Rightarrow> svm_queue \<Rightarrow> svm_queue" where
  "set_consumer_pid pid q = q\<lparr>q_consumer_pid := pid\<rparr>"

definition set_producer_event_fd :: "u32 \<Rightarrow> svm_queue \<Rightarrow> svm_queue" where
  "set_producer_event_fd fd q = q\<lparr>q_producer_evtfd := fd\<rparr>"

definition set_consumer_event_fd :: "u32 \<Rightarrow> svm_queue \<Rightarrow> svm_queue" where
  "set_consumer_event_fd fd q = q\<lparr>q_consumer_evtfd := fd\<rparr>"

definition can_send :: "svm_queue \<Rightarrow> bool" where
  "can_send q \<longleftrightarrow> q_cursize q < q_maxsize q"

text \<open>The bytes of one slot: \<^verbatim>\<open>data().add(slot * element_size)\<close>, \<^verbatim>\<open>element_size\<close> of them.\<close>

definition slot_bytes :: "svm_queue \<Rightarrow> nat \<Rightarrow> bytes" where
  "slot_bytes q slot = take (element_size q) (drop (slot * element_size q) (q_data q))"

definition ring_head_slot :: "svm_queue \<Rightarrow> nat" where
  "ring_head_slot q = unat (q_head q) * element_size q"

definition next_slot :: "svm_queue \<Rightarrow> u32 \<Rightarrow> u32" where
  "next_slot q slot = (let next = slot + 1 in if next = q_maxsize q then 0 else next)"

definition advance_ring_head :: "svm_queue \<Rightarrow> svm_queue" where
  "advance_ring_head q = q\<lparr>q_head := next_slot q (q_head q)\<rparr>"

section \<open>Locking and signalling\<close>

definition acquire :: "'w queue_env \<Rightarrow> bool \<Rightarrow> svm_queue \<times> 'w \<Rightarrow> ('w, unit) outcome" where
  "acquire env try_only st =
     (case mutex_lock env try_only st of
        (LockError e, st') \<Rightarrow> (Inl (Err (LockFailed e)), st')
      | (Contended, st') \<Rightarrow> (Inl (Err LockBusy), st')
      | (Standard, st') \<Rightarrow> (Inr (), st')
      | (Indeterminate (Some e), st') \<Rightarrow> (Inl (Err (NotRecoverable e)), st')
      | (Indeterminate None, st') \<Rightarrow> (Inl (Err OwnerDied), mutex_unlock env st'))"

definition lock :: "'w queue_env \<Rightarrow> svm_queue \<times> 'w \<Rightarrow> ('w, queue_lock) outcome" where
  "lock env st =
     (case acquire env False st of
        (Inl e, st') \<Rightarrow> (Inl e, st')
      | (Inr _, st') \<Rightarrow> (Inr \<lparr>lk_guard = True, lk_wait = Wait\<rparr>, st'))"

definition try_lock :: "'w queue_env \<Rightarrow> svm_queue \<times> 'w \<Rightarrow> ('w, queue_lock) outcome" where
  "try_lock env st =
     (case acquire env True st of
        (Inl e, st') \<Rightarrow> (Inl e, st')
      | (Inr _, st') \<Rightarrow> (Inr \<lparr>lk_guard = True, lk_wait = Nowait\<rparr>, st'))"

definition signal :: "'w queue_env \<Rightarrow> bool \<Rightarrow> queue_operation \<Rightarrow> svm_queue \<times> 'w \<Rightarrow> ('w, unit) outcome" where
  "signal env is_producer operation st =
     (let fd = (if is_producer then q_producer_evtfd (fst st) else q_consumer_evtfd (fst st)) in
      if 0 \<le> sint fd then
        (case event_write env fd (to_ne_bytes 8 (1 :: u64)) st of
           ((written, errno), st') \<Rightarrow>
             if written \<noteq> 8 then (Inl (Err (EventSignalAfterCommit operation errno)), st') else (Inr (), st'))
      else
        (case notify_all env st of
           (Some e, st') \<Rightarrow> (Inl (Err (SignalAfterCommit operation e)), st')
         | (None, st') \<Rightarrow> (Inr (), st')))"

text \<open>The spinning wait of event mode: the guard is dropped, then taken again.\<close>

partial_function (option) spin_while ::
  "'w queue_env \<Rightarrow> u32 \<Rightarrow> nat option \<Rightarrow> svm_queue \<times> 'w \<Rightarrow> (wait_outcome \<times> svm_queue \<times> 'w) option" where
  "spin_while env occupancy deadline st =
     (if q_cursize (fst (others env st)) = occupancy then
        if (case deadline of None \<Rightarrow> False | Some until \<Rightarrow> until \<le> now env (others env st))
        then Some (TimedOut, others env st)
        else spin_while env occupancy deadline (others env st)
      else Some (Notified, others env st))"

definition wait_on_event ::
  "'w queue_env \<Rightarrow> nat option \<Rightarrow> queue_lock \<Rightarrow> svm_queue \<times> 'w \<Rightarrow>
     (queue_lock \<times> ('w, wait_outcome) outcome) option" where
  "wait_on_event env deadline lk st =
     (case spin_while env (q_cursize (fst st)) deadline (mutex_unlock env st) of
        None \<Rightarrow> None
      | Some (out, st') \<Rightarrow> Some
          (case acquire env False st' of
             (Inl e, st'') \<Rightarrow> (lk\<lparr>lk_guard := False\<rparr>, Inl e, st'')
           | (Inr _, st'') \<Rightarrow> (lk\<lparr>lk_guard := True\<rparr>, Inr out, st'')))"

text \<open>A wait that comes back with a dead owner makes the mutex consistent again and reports it.\<close>

definition owner_died :: "posix_error option \<Rightarrow> queue_lock \<Rightarrow> queue_error fault + wait_outcome" where
  "owner_died recovery lk =
     (if \<not> lk_guard lk then Inl (Panic ''queue lock held after owner death'')
      else case recovery of
        Some e \<Rightarrow> Inl (Err (NotRecoverable e))
      | None \<Rightarrow> Inl (Err OwnerDied))"

definition condvar_wait_held ::
  "'w queue_env \<Rightarrow> nat option \<Rightarrow> string \<Rightarrow> queue_lock \<Rightarrow> svm_queue \<times> 'w \<Rightarrow> queue_lock \<times> ('w, wait_outcome) outcome" where
  "condvar_wait_held env timeout expectation lk st =
     (if \<not> lk_guard lk then (lk, Inl (Panic expectation), st)
      else case condvar_wait env timeout st of
        (Woken out, st') \<Rightarrow> (lk, Inr out, st')
      | (OwnerDead recovery, st') \<Rightarrow> (lk, owner_died recovery lk, st')
      | (WaitError e, st') \<Rightarrow> (lk, Inl (Err (WaitFailed e)), st'))"

text \<open>\<^verbatim>\<open>wait\<close> and \<^verbatim>\<open>timed_wait\<close> spin when the producer's descriptor is set and sleep on the condition variable otherwise.\<close>

definition event_mode :: "svm_queue \<Rightarrow> bool" where
  "event_mode q \<longleftrightarrow> 0 \<le> sint (q_producer_evtfd q)"

definition lock_wait ::
  "'w queue_env \<Rightarrow> queue_lock \<Rightarrow> svm_queue \<times> 'w \<Rightarrow> (queue_lock \<times> ('w, wait_outcome) outcome) option" where
  "lock_wait env lk st =
     (if event_mode (fst st) then wait_on_event env None lk st
      else Some (condvar_wait_held env None ''queue lock held during wait'' lk st))"

definition lock_timed_wait ::
  "'w queue_env \<Rightarrow> nat \<Rightarrow> queue_lock \<Rightarrow> svm_queue \<times> 'w \<Rightarrow> (queue_lock \<times> ('w, wait_outcome) outcome) option" where
  "lock_timed_wait env timeout lk st =
     (if event_mode (fst st) then wait_on_event env (Some (now env st + timeout)) lk st
      else Some (condvar_wait_held env (Some timeout) ''queue lock held during timed wait'' lk st))"

text \<open>
  One pass through the \<^verbatim>\<open>match conditional_wait\<close> of the waiting loops: \<open>Inr ()\<close> means go around
  again, an error ends the operation. \<open>unavailable\<close> is the error of \<^verbatim>\<open>Nowait\<close>.
\<close>

definition await_change ::
  "'w queue_env \<Rightarrow> queue_error \<Rightarrow> queue_lock \<Rightarrow> svm_queue \<times> 'w \<Rightarrow> (queue_lock \<times> ('w, unit) outcome) option" where
  "await_change env unavailable lk st =
     (case lk_wait lk of
        Nowait \<Rightarrow> Some (lk, Inl (Err unavailable), st)
      | Wait \<Rightarrow> (case lock_wait env lk st of
          None \<Rightarrow> None
        | Some (lk', Inl e, st') \<Rightarrow> Some (lk', Inl e, st')
        | Some (lk', Inr _, st') \<Rightarrow> Some (lk', Inr (), st'))
      | TimedWait timeout \<Rightarrow> (case lock_timed_wait env timeout lk st of
          None \<Rightarrow> None
        | Some (lk', Inl e, st') \<Rightarrow> Some (lk', Inl e, st')
        | Some (lk', Inr TimedOut, st') \<Rightarrow> Some (lk', Inl (Err Timeout), st')
        | Some (lk', Inr Notified, st') \<Rightarrow> Some (lk', Inr (), st')))"

partial_function (option) wait_until ::
  "'w queue_env \<Rightarrow> (svm_queue \<Rightarrow> bool) \<Rightarrow> queue_error \<Rightarrow> queue_lock \<Rightarrow> svm_queue \<times> 'w \<Rightarrow>
     (queue_lock \<times> ('w, unit) outcome) option" where
  "wait_until env ready unavailable lk st =
     (if ready (fst st) then Some (lk, Inr (), st)
      else case await_change env unavailable lk st of
        None \<Rightarrow> None
      | Some (lk', Inl e, st') \<Rightarrow> Some (lk', Inl e, st')
      | Some (lk', Inr _, st') \<Rightarrow> wait_until env ready unavailable lk' st')"

section \<open>Moving elements\<close>

definition write_one :: "bytes \<Rightarrow> svm_queue \<Rightarrow> svm_queue" where
  "write_one element q =
     (let slot = unat (q_tail q) in
      q\<lparr>q_data := splice (q_data q) (slot * element_size q) element,
        q_tail := next_slot q (q_tail q),
        q_cursize := q_cursize q + 1\<rparr>)"

definition read_one :: "svm_queue \<Rightarrow> bytes \<times> svm_queue" where
  "read_one q =
     (slot_bytes q (unat (q_head q)),
      q\<lparr>q_head := next_slot q (q_head q), q_cursize := q_cursize q - 1\<rparr>)"

definition sub_nolock :: "'w queue_env \<Rightarrow> svm_queue \<times> 'w \<Rightarrow> ('w, unit) outcome \<times> bytes option" where
  "sub_nolock env st =
     (let q = fst st in
      if q_cursize q = 0 then ((Inl (Err Empty), st), None)
      else let was_full = (q_cursize q = q_maxsize q); (element, q') = read_one q in
        (if was_full then signal env False Sub (q', snd st) else (Inr (), q', snd st), Some element))"

definition add_nolock ::
  "'w queue_env \<Rightarrow> bytes \<Rightarrow> queue_lock \<Rightarrow> svm_queue \<times> 'w \<Rightarrow> (queue_lock \<times> ('w, unit) outcome) option" where
  "add_nolock env element lk st =
     (case validate_element (element_size (fst st)) element of
        Inl e \<Rightarrow> Some (lk, Inl e, st)
      | Inr _ \<Rightarrow>
          (case wait_until env (\<lambda>q. q_cursize q \<noteq> q_maxsize q) QueueFull lk st of
             None \<Rightarrow> None
           | Some (lk', Inl e, st') \<Rightarrow> Some (lk', Inl e, st')
           | Some (lk', Inr _, (q, w)) \<Rightarrow> Some
               (lk', if q_cursize q = 0 then signal env True Add (write_one element q, w)
                else (Inr (), write_one element q, w))))"

definition add2_nolock ::
  "'w queue_env \<Rightarrow> bytes \<Rightarrow> bytes \<Rightarrow> queue_lock \<Rightarrow> svm_queue \<times> 'w \<Rightarrow>
     (queue_lock \<times> ('w, unit) outcome) option" where
  "add2_nolock env first' second lk st =
     (case rbind (validate_element (element_size (fst st)) first')
             (\<lambda>_. validate_element (element_size (fst st)) second) of
        Inl e \<Rightarrow> Some (lk, Inl e, st)
      | Inr _ \<Rightarrow>
          if q_maxsize (fst st) < 2 then Some (lk, Inl (Err QueueFull), st)
          else
            (case wait_until env (\<lambda>q. \<not> q_maxsize q - q_cursize q < 2) QueueFull lk st of
               None \<Rightarrow> None
             | Some (lk', Inl e, st') \<Rightarrow> Some (lk', Inl e, st')
             | Some (lk', Inr _, (q, w)) \<Rightarrow> Some
                 (lk', let q' = write_one second (write_one first' q) in
                  if q_cursize q = 0 then signal env True AddPair (q', w) else (Inr (), q', w))))"

section \<open>Queue operations\<close>

text \<open>
  \<^verbatim>\<open>Nowait\<close> only tries the mutex. A guard that is still held when the operation returns is
  released then.
\<close>

definition lock_for :: "'w queue_env \<Rightarrow> conditional_wait \<Rightarrow> svm_queue \<times> 'w \<Rightarrow> ('w, queue_lock) outcome" where
  "lock_for env mode st = (case mode of Nowait \<Rightarrow> try_lock env st | _ \<Rightarrow> lock env st)"

definition release :: "'w queue_env \<Rightarrow> queue_lock \<times> ('w, 'a) outcome \<Rightarrow> ('w, 'a) outcome" where
  "release env held =
     (case held of (lk, res, st) \<Rightarrow> (res, if lk_guard lk then mutex_unlock env st else st))"

definition queue_add ::
  "'w queue_env \<Rightarrow> bytes \<Rightarrow> conditional_wait \<Rightarrow> svm_queue \<times> 'w \<Rightarrow> ('w, unit) outcome option" where
  "queue_add env element mode st =
     (case validate_element (element_size (fst st)) element of
        Inl e \<Rightarrow> Some (Inl e, st)
      | Inr _ \<Rightarrow>
          (case lock_for env mode st of
             (Inl e, st') \<Rightarrow> Some (Inl e, st')
           | (Inr lk, st') \<Rightarrow> map_option (release env) (add_nolock env element (lk\<lparr>lk_wait := mode\<rparr>) st')))"

definition queue_add2 ::
  "'w queue_env \<Rightarrow> bytes \<Rightarrow> bytes \<Rightarrow> conditional_wait \<Rightarrow> svm_queue \<times> 'w \<Rightarrow> ('w, unit) outcome option" where
  "queue_add2 env first' second mode st =
     (case rbind (validate_element (element_size (fst st)) first')
             (\<lambda>_. validate_element (element_size (fst st)) second) of
        Inl e \<Rightarrow> Some (Inl e, st)
      | Inr _ \<Rightarrow>
          (case lock_for env mode st of
             (Inl e, st') \<Rightarrow> Some (Inl e, st')
           | (Inr lk, st') \<Rightarrow>
               map_option (release env) (add2_nolock env first' second (lk\<lparr>lk_wait := mode\<rparr>) st')))"

text \<open>
  \<^verbatim>\<open>sub_into\<close>; the caller's buffer only contributes its length, what was copied into it is the
  second component.
\<close>

definition queue_sub ::
  "'w queue_env \<Rightarrow> usize \<Rightarrow> conditional_wait \<Rightarrow> svm_queue \<times> 'w \<Rightarrow> (('w, unit) outcome \<times> bytes option) option" where
  "queue_sub env len mode st =
     (case validate_element_length (element_size (fst st)) len of
        Inl e \<Rightarrow> Some ((Inl e, st), None)
      | Inr _ \<Rightarrow>
          (case lock_for env mode st of
             (Inl e, st') \<Rightarrow> Some ((Inl e, st'), None)
           | (Inr lk, st') \<Rightarrow>
               (case wait_until env (\<lambda>q. q_cursize q \<noteq> 0) Empty (lk\<lparr>lk_wait := mode\<rparr>) st' of
                  None \<Rightarrow> None
                | Some (lk', Inl e, st'') \<Rightarrow> Some (release env (lk', Inl e, st''), None)
                | Some (lk', Inr _, st'') \<Rightarrow>
                    Some (map_prod (\<lambda>out. release env (lk', out)) id (sub_nolock env st'')))))"

definition queue_sub2 :: "'w queue_env \<Rightarrow> usize \<Rightarrow> svm_queue \<times> 'w \<Rightarrow> ('w, unit) outcome \<times> bytes option" where
  "queue_sub2 env len st =
     (case validate_element_length (element_size (fst st)) len of
        Inl e \<Rightarrow> ((Inl e, st), None)
      | Inr _ \<Rightarrow>
          (case lock env st of
             (Inl e, st') \<Rightarrow> ((Inl e, st'), None)
           | (Inr lk, st') \<Rightarrow>
               if q_cursize (fst st') = 0 then (release env (lk, Inl (Err Empty), st'), None)
               else map_prod (\<lambda>out. release env (lk, out)) id (sub_nolock env st')))"

definition queue_len :: "'w queue_env \<Rightarrow> svm_queue \<times> 'w \<Rightarrow> ('w, usize) outcome" where
  "queue_len env st =
     (case lock env st of
        (Inl e, st') \<Rightarrow> (Inl e, st')
      | (Inr lk, st') \<Rightarrow> release env (lk, Inr (unat (q_cursize (fst st'))), st'))"

definition queue_is_empty :: "'w queue_env \<Rightarrow> svm_queue \<times> 'w \<Rightarrow> ('w, bool) outcome" where
  "queue_is_empty env st =
     (case queue_len env st of (Inl e, st') \<Rightarrow> (Inl e, st') | (Inr n, st') \<Rightarrow> (Inr (n = 0), st'))"

definition queue_is_full :: "'w queue_env \<Rightarrow> svm_queue \<times> 'w \<Rightarrow> ('w, bool) outcome" where
  "queue_is_full env st =
     (case lock env st of
        (Inl e, st') \<Rightarrow> (Inl e, st')
      | (Inr lk, st') \<Rightarrow> release env (lk, Inr (q_cursize (fst st') = q_maxsize (fst st')), st'))"

definition sub_raw :: "'w queue_env \<Rightarrow> usize \<Rightarrow> svm_queue \<times> 'w \<Rightarrow> ('w, unit) outcome \<times> bytes option" where
  "sub_raw env len st =
     (case validate_element_length (element_size (fst st)) len of
        Inl e \<Rightarrow> ((Inl e, st), None)
      | Inr _ \<Rightarrow> sub_nolock env st)"

definition send_signal :: "'w queue_env \<Rightarrow> bool \<Rightarrow> svm_queue \<times> 'w \<Rightarrow> ('w, unit) outcome" where
  "send_signal env is_producer st = signal env is_producer Add st"

section \<open>Invariant and abstraction\<close>

text \<open>
  The queue a mapping holds: the geometry is positive, the element bytes fill it exactly, and
  the producer's position is the consumer's position plus the occupancy, around the ring. The
  abstract queue is the list of stored elements from the consumer's position on.
\<close>

definition queue_inv :: "svm_queue \<Rightarrow> bool" where
  "queue_inv q \<longleftrightarrow>
     0 < capacity q \<and> 0 < element_size q \<and> length (q_data q) = capacity q * element_size q \<and>
     unat (q_head q) < capacity q \<and> unat (q_cursize q) \<le> capacity q \<and>
     unat (q_tail q) = (unat (q_head q) + unat (q_cursize q)) mod capacity q"

definition contents :: "svm_queue \<Rightarrow> bytes list" where
  "contents q = map (\<lambda>i. slot_bytes q ((unat (q_head q) + i) mod capacity q)) [0..<unat (q_cursize q)]"

lemma length_contents [simp]: "length (contents q) = unat (q_cursize q)"
  by (simp add: contents_def)

lemma queue_invD:
  assumes "queue_inv q"
  shows "0 < capacity q" "0 < element_size q" "length (q_data q) = capacity q * element_size q"
    "unat (q_head q) < capacity q" "unat (q_tail q) < capacity q" "unat (q_cursize q) \<le> capacity q"
    "unat (q_tail q) = (unat (q_head q) + unat (q_cursize q)) mod capacity q"
  using assms by (auto simp: queue_inv_def)

text \<open>Every slot below the capacity lies inside the element bytes.\<close>

lemma slot_in_bounds:
  assumes "queue_inv q" and "slot < capacity q"
  shows "slot * element_size q + element_size q \<le> length (q_data q)"
proof -
  have "Suc slot * element_size q \<le> capacity q * element_size q"
    using assms(2) by (intro mult_right_mono) auto
  then show ?thesis
    using queue_invD(3) [OF assms(1)] by simp
qed

lemma length_slot_bytes:
  "queue_inv q \<Longrightarrow> slot < capacity q \<Longrightarrow> length (slot_bytes q slot) = element_size q"
  using slot_in_bounds [of q slot] by (simp add: slot_bytes_def)

lemma contents_elements: "queue_inv q \<Longrightarrow> e \<in> set (contents q) \<Longrightarrow> length e = element_size q"
  using queue_invD(1) [of q] by (auto simp: contents_def intro!: length_slot_bytes)

lemma next_slot_mod:
  assumes "unat slot < capacity q"
  shows "unat (next_slot q slot) = (unat slot + 1) mod capacity q"
proof -
  have "unat slot + 1 \<le> unat (q_maxsize q)"
    using assms by (simp add: capacity_def)
  moreover have "unat (q_maxsize q) < 2 ^ LENGTH(32)"
    by (rule unsigned_less)
  ultimately have inc: "unat (slot + 1) = unat slot + 1"
    by (simp add: unat_word_ariths)
  show ?thesis
  proof (cases "unat slot + 1 = capacity q")
    case True
    with inc have "slot + 1 = q_maxsize q"
      by (simp add: word_unat_eq_iff capacity_def)
    with True show ?thesis
      by (simp add: next_slot_def)
  next
    case False
    with inc have "slot + 1 \<noteq> q_maxsize q"
      by (auto simp: capacity_def)
    with False assms inc show ?thesis
      by (simp add: next_slot_def Let_def)
  qed
qed

lemma ring_distinct:
  fixes h i j n :: nat
  assumes "i < j" and "j < n"
  shows "(h + i) mod n \<noteq> (h + j) mod n"
proof
  assume "(h + i) mod n = (h + j) mod n"
  then have "n dvd (h + j) - (h + i)"
    using assms by (metis mod_eq_dvd_iff_nat add_le_cancel_left less_imp_le)
  with assms show False
    by (auto dest: dvd_imp_le)
qed

lemma write_one_geometry [simp]:
  "capacity (write_one e q) = capacity q" "element_size (write_one e q) = element_size q"
  "q_maxsize (write_one e q) = q_maxsize q" "q_elsize (write_one e q) = q_elsize q"
  "q_head (write_one e q) = q_head q" "q_cursize (write_one e q) = q_cursize q + 1"
  by (simp_all add: write_one_def Let_def capacity_def element_size_def)

lemma read_one_geometry [simp]:
  "capacity (snd (read_one q)) = capacity q" "element_size (snd (read_one q)) = element_size q"
  "q_maxsize (snd (read_one q)) = q_maxsize q" "q_cursize (snd (read_one q)) = q_cursize q - 1"
  "q_data (snd (read_one q)) = q_data q"
  by (simp_all add: read_one_def capacity_def element_size_def)

lemma cursize_inc:
  assumes "queue_inv q" and "unat (q_cursize q) < capacity q"
  shows "unat (q_cursize q + 1) = unat (q_cursize q) + 1"
proof -
  have "unat (q_maxsize q) < 2 ^ LENGTH(32)"
    by (rule unsigned_less)
  with assms(2) show ?thesis
    by (simp add: unat_word_ariths capacity_def)
qed

lemma cursize_dec: "q_cursize q \<noteq> 0 \<Longrightarrow> unat (q_cursize q - 1) = unat (q_cursize q) - 1"
  by (simp add: unat_sub word_le_nat_alt unat_gt_0 Suc_leI)

lemma slot_write_other:
  assumes "queue_inv q" and "length e = element_size q" and "slot < capacity q" and "slot \<noteq> unat (q_tail q)"
  shows "slot_bytes (write_one e q) slot = slot_bytes q slot"
proof -
  let ?n = "element_size q" and ?t = "unat (q_tail q)"
  have room: "?t * ?n + length e \<le> length (q_data q)"
    using slot_in_bounds [OF assms(1) queue_invD(5) [OF assms(1)]] assms(2) by simp
  show ?thesis
  proof (cases "slot < ?t")
    case True
    then have "Suc slot * ?n \<le> ?t * ?n"
      by (intro mult_right_mono) auto
    then show ?thesis
      using splice_disjoint_before [OF room, of "slot * ?n" ?n]
      by (simp add: slot_bytes_def) (simp add: write_one_def Let_def)
  next
    case False
    with assms(4) have "Suc ?t * ?n \<le> slot * ?n"
      by (intro mult_right_mono) auto
    then show ?thesis
      using splice_disjoint_after [OF room, of "slot * ?n" ?n] assms(2)
      by (simp add: slot_bytes_def) (simp add: write_one_def Let_def)
  qed
qed

lemma slot_write_same:
  assumes "queue_inv q" and "length e = element_size q"
  shows "slot_bytes (write_one e q) (unat (q_tail q)) = e"
  using splice_same [of "unat (q_tail q) * element_size q" e "q_data q"]
    slot_in_bounds [OF assms(1) queue_invD(5) [OF assms(1)]] assms(2)
  by (simp add: slot_bytes_def) (simp add: write_one_def Let_def)

lemma write_one_inv:
  assumes "queue_inv q" and "length e = element_size q" and "unat (q_cursize q) < capacity q"
  shows "queue_inv (write_one e q)"
proof -
  have "unat (q_tail (write_one e q)) = (unat (q_tail q) + 1) mod capacity q"
    using next_slot_mod [OF queue_invD(5) [OF assms(1)]] by (simp add: write_one_def Let_def)
  also have "\<dots> = (unat (q_head q) + (unat (q_cursize q) + 1)) mod capacity q"
    using queue_invD(7) [OF assms(1)] by (simp add: mod_simps add.assoc)
  finally have "unat (q_tail (write_one e q)) = (unat (q_head q) + unat (q_cursize q + 1)) mod capacity q"
    by (simp add: cursize_inc [OF assms(1,3)])
  moreover have "length (q_data (write_one e q)) = capacity q * element_size q"
    using slot_in_bounds [OF assms(1) queue_invD(5) [OF assms(1)]] assms(2) queue_invD(3) [OF assms(1)]
    by (simp add: write_one_def Let_def length_splice)
  ultimately show ?thesis
    using queue_invD [OF assms(1)] assms(3) cursize_inc [OF assms(1,3)] by (simp add: queue_inv_def)
qed

lemma write_one_contents:
  assumes "queue_inv q" and "length e = element_size q" and "unat (q_cursize q) < capacity q"
  shows "contents (write_one e q) = contents q @ [e]"
proof -
  let ?pos = "\<lambda>i. (unat (q_head q) + i) mod capacity q"
  have tail: "unat (q_tail q) = ?pos (unat (q_cursize q))"
    by (rule queue_invD(7) [OF assms(1)])
  have "slot_bytes (write_one e q) (?pos i) = slot_bytes q (?pos i)" if "i < unat (q_cursize q)" for i
    using that assms ring_distinct [of i "unat (q_cursize q)" "capacity q"] queue_invD(1) [OF assms(1)] tail
    by (intro slot_write_other) auto
  moreover have "slot_bytes (write_one e q) (?pos (unat (q_cursize q))) = e"
    using slot_write_same [OF assms(1,2)] tail by simp
  ultimately show ?thesis
    using cursize_inc [OF assms(1,3)] by (simp add: contents_def)
qed

lemma read_one_inv:
  assumes "queue_inv q" and "q_cursize q \<noteq> 0"
  shows "queue_inv (snd (read_one q))"
proof -
  have head: "unat (q_head (snd (read_one q))) = (unat (q_head q) + 1) mod capacity q"
    using next_slot_mod [OF queue_invD(4) [OF assms(1)]] by (simp add: read_one_def)
  have pos: "0 < unat (q_cursize q)"
    using assms(2) by (simp add: unat_gt_0)
  then have "unat (q_head q) + unat (q_cursize q) = (unat (q_head q) + 1) + (unat (q_cursize q) - 1)"
    by simp
  then have "unat (q_tail q) = ((unat (q_head q) + 1) mod capacity q + (unat (q_cursize q) - 1)) mod capacity q"
    using queue_invD(7) [OF assms(1)] by (simp only: mod_add_left_eq)
  moreover have "q_tail (snd (read_one q)) = q_tail q"
    by (simp add: read_one_def)
  ultimately show ?thesis
    using queue_invD [OF assms(1)] head cursize_dec [OF assms(2)] by (simp add: queue_inv_def)
qed

lemma read_one_contents:
  assumes "queue_inv q" and "q_cursize q \<noteq> 0"
  shows "contents q = fst (read_one q) # contents (snd (read_one q))"
proof -
  have "slot_bytes (snd (read_one q)) = slot_bytes q"
    by (rule ext) (simp add: slot_bytes_def)
  moreover have "unat (q_head (snd (read_one q))) = (unat (q_head q) + 1) mod capacity q"
    using next_slot_mod [OF queue_invD(4) [OF assms(1)]] by (simp add: read_one_def)
  moreover have "[0..<unat (q_cursize q)] = 0 # map Suc [0..<unat (q_cursize q) - 1]"
    using assms(2) by (cases "unat (q_cursize q)") (auto simp: unat_eq_0 map_Suc_upt upt_conv_Cons simp del: upt_Suc)
  moreover have "fst (read_one q) = slot_bytes q (unat (q_head q))"
    by (simp add: read_one_def)
  ultimately show ?thesis
    using queue_invD(4) [OF assms(1)] cursize_dec [OF assms(2)]
    by (simp add: contents_def comp_def mod_add_left_eq [of "Suc _", simplified] add.assoc mod_simps)
qed

section \<open>A bounded first-in first-out queue\<close>

text \<open>The contract the storage part of the queue fulfils towards its operations.\<close>

locale bounded_fifo =
  fixes inv :: "'q \<Rightarrow> bool"
    and elements :: "'q \<Rightarrow> 'e list"
    and limit :: "'q \<Rightarrow> nat"
    and fits_in :: "'q \<Rightarrow> 'e \<Rightarrow> bool"
    and put :: "'e \<Rightarrow> 'q \<Rightarrow> 'q"
    and get :: "'q \<Rightarrow> 'e \<times> 'q"
  assumes put_inv: "inv q \<Longrightarrow> fits_in q e \<Longrightarrow> length (elements q) < limit q \<Longrightarrow> inv (put e q)"
    and put_elements:
      "inv q \<Longrightarrow> fits_in q e \<Longrightarrow> length (elements q) < limit q \<Longrightarrow> elements (put e q) = elements q @ [e]"
    and put_limit: "limit (put e q) = limit q"
    and put_fits: "fits_in (put e q) d = fits_in q d"
    and get_inv: "inv q \<Longrightarrow> elements q \<noteq> [] \<Longrightarrow> inv (snd (get q))"
    and get_elements: "inv q \<Longrightarrow> elements q \<noteq> [] \<Longrightarrow> elements q = fst (get q) # elements (snd (get q))"
    and get_limit: "limit (snd (get q)) = limit q"
    and elements_bound: "inv q \<Longrightarrow> length (elements q) \<le> limit q"
begin

primrec put_all :: "'e list \<Rightarrow> 'q \<Rightarrow> 'q" where
  "put_all [] q = q"
| "put_all (e # es) q = put_all es (put e q)"

primrec get_all :: "nat \<Rightarrow> 'q \<Rightarrow> 'e list \<times> 'q" where
  "get_all 0 q = ([], q)"
| "get_all (Suc n) q = (case get q of (e, q') \<Rightarrow> case get_all n q' of (es, q'') \<Rightarrow> (e # es, q''))"

lemma put_all_elements:
  "inv q \<Longrightarrow> list_all (fits_in q) es \<Longrightarrow> length (elements q) + length es \<le> limit q \<Longrightarrow>
     inv (put_all es q) \<and> elements (put_all es q) = elements q @ es"
proof (induction es arbitrary: q)
  case (Cons e es)
  then show ?case
    using put_inv [of q e] put_elements [of q e] by (simp add: put_limit put_fits)
qed simp

lemma get_all_elements:
  "inv q \<Longrightarrow> n \<le> length (elements q) \<Longrightarrow>
     inv (snd (get_all n q)) \<and> fst (get_all n q) = take n (elements q) \<and>
     elements (snd (get_all n q)) = drop n (elements q)"
proof (induction n arbitrary: q)
  case (Suc n)
  then have ne: "elements q \<noteq> []"
    by auto
  obtain e q' where get: "get q = (e, q')"
    by (cases "get q")
  with ne Suc.prems have "inv q'" and elements: "elements q = e # elements q'"
    using get_inv [of q] get_elements [of q] by simp_all
  with Suc.IH [of q'] Suc.prems show ?case
    by (cases "get_all n q'") (simp add: get)
qed simp

text \<open>What goes in comes out, in order, behind what was there.\<close>

lemma first_in_first_out:
  assumes "inv q" and "list_all (fits_in q) es" and "length (elements q) + length es \<le> limit q"
  shows "fst (get_all (length (elements q) + length es) (put_all es q)) = elements q @ es"
  using put_all_elements [OF assms] get_all_elements [of "put_all es q"] by simp

end

interpretation svm: bounded_fifo queue_inv contents capacity "\<lambda>q e. length e = element_size q"
  write_one read_one
proof unfold_locales
  fix q e and d :: bytes
  show "queue_inv q \<Longrightarrow> contents q \<noteq> [] \<Longrightarrow> queue_inv (snd (read_one q))"
    by (rule read_one_inv) (auto simp: contents_def)
  show "queue_inv q \<Longrightarrow> contents q \<noteq> [] \<Longrightarrow> contents q = fst (read_one q) # contents (snd (read_one q))"
    by (rule read_one_contents) (auto simp: contents_def)
qed (auto simp: write_one_inv write_one_contents dest: queue_invD)

section \<open>Operations in a well-behaved environment\<close>

text \<open>
  What a caller's environment does while an operation runs: the mutex is taken or released, a wait ends, other
  processes act. Every state reached this way has the queue that the others left; nothing in it is the operation's
  own doing.
\<close>

inductive env_run :: "'w queue_env \<Rightarrow> svm_queue \<times> 'w \<Rightarrow> svm_queue \<times> 'w \<Rightarrow> bool" for env st where
  start: "env_run env st st"
| lock: "env_run env st st1 \<Longrightarrow> mutex_lock env b st1 = (lo, st2) \<Longrightarrow> env_run env st st2"
| unlock: "env_run env st st1 \<Longrightarrow> env_run env st (mutex_unlock env st1)"
| wait: "env_run env st st1 \<Longrightarrow> condvar_wait env t st1 = (wr, st2) \<Longrightarrow> env_run env st st2"
| other: "env_run env st st1 \<Longrightarrow> env_run env st (others env st1)"

lemma env_run_trans: "env_run env st1 st2 \<Longrightarrow> env_run env st st1 \<Longrightarrow> env_run env st st2"
  by (induction rule: env_run.induct) (auto intro: env_run.intros)

text \<open>The two errors that are reported after the operation has taken effect.\<close>

definition signal_error :: "queue_operation \<Rightarrow> queue_error fault \<Rightarrow> bool" where
  "signal_error op e \<longleftrightarrow>
     (case e of Err (SignalAfterCommit op' _) \<Rightarrow> op' = op | Err (EventSignalAfterCommit op' _) \<Rightarrow> op' = op | _ \<Rightarrow> False)"

definition took_effect :: "queue_operation \<Rightarrow> queue_error fault + 'a \<Rightarrow> bool" where
  "took_effect op res \<longleftrightarrow> (case res of Inr _ \<Rightarrow> True | Inl e \<Rightarrow> signal_error op e)"

lemma took_effect_simps [simp]: "took_effect op (Inr x)" "took_effect op (Inl e) \<longleftrightarrow> signal_error op e"
  by (simp_all add: took_effect_def)

lemma signal_took_effect: "took_effect op (fst (signal env p op st))"
  by (auto simp: signal_def Let_def signal_error_def split: prod.splits option.splits)

lemma acquire_run:
  assumes "acquire env b st = (res, st')"
  shows "env_run env st st' \<and> (\<forall>e. res = Inl e \<longrightarrow> \<not> signal_error op e)"
proof -
  obtain lo st1 where lk: "mutex_lock env b st = (lo, st1)" by (cases "mutex_lock env b st")
  then have "env_run env st st1" by (rule env_run.lock [OF env_run.start])
  with assms lk show ?thesis
    by (auto simp: acquire_def signal_error_def intro: env_run.unlock split: lock_outcome.splits option.splits)
qed

lemma lock_for_run:
  assumes "lock_for env mode st = (res, st')"
  shows "env_run env st st' \<and> (\<forall>e. res = Inl e \<longrightarrow> \<not> signal_error op e)"
  using assms acquire_run [of env True st _ _ op] acquire_run [of env False st _ _ op]
  by (auto simp: lock_for_def lock_def try_lock_def split: conditional_wait.splits prod.splits sum.splits)

lemma spin_while_run:
  assumes "spin_while env occ dl st = Some r"
  shows "env_run env st (snd r)"
proof (rule spin_while.raw_induct [where P = "\<lambda>env occ dl st r. env_run env st (snd r)", OF _ assms])
  fix f env occ dl st and r :: "wait_outcome \<times> svm_queue \<times> 'a"
  assume IH: "\<And>env occ dl st r. f env occ dl st = Some r \<Longrightarrow> env_run env st (snd r)"
    and eq: "(if q_cursize (fst (others env st)) = occ then
        if (case dl of None \<Rightarrow> False | Some until \<Rightarrow> until \<le> now env (others env st))
        then Some (TimedOut, others env st) else f env occ dl (others env st)
      else Some (Notified, others env st)) = Some r"
  show "env_run env st (snd r)"
    using eq env_run.other [OF env_run.start, of env st] IH [of env occ dl "others env st" r]
    by (auto split: if_splits intro: env_run_trans)
qed

lemma wait_on_event_run:
  assumes "wait_on_event env dl lk st = Some (lk', res, st')"
  shows "env_run env st st' \<and> (\<forall>e. res = Inl e \<longrightarrow> \<not> signal_error op e)"
proof -
  obtain out st1 where spin: "spin_while env (q_cursize (fst st)) dl (mutex_unlock env st) = Some (out, st1)"
    using assms by (auto simp: wait_on_event_def split: option.splits)
  then have run: "env_run env st st1"
    using spin_while_run [OF spin] env_run_trans [OF _ env_run.unlock [OF env_run.start]] by simp
  obtain ares st2 where acq: "acquire env False st1 = (ares, st2)"
    by (cases "acquire env False st1")
  then have "st' = st2" "\<forall>e. res = Inl e \<longrightarrow> ares = Inl e"
    using assms spin by (auto simp: wait_on_event_def split: sum.splits)
  then show ?thesis
    using acquire_run [OF acq, of op] env_run_trans [OF _ run] by auto
qed

lemma condvar_wait_held_run:
  assumes "condvar_wait_held env t msg lk st = (lk', res, st')"
  shows "env_run env st st' \<and> (\<forall>e. res = Inl e \<longrightarrow> \<not> signal_error op e)"
proof -
  obtain wr st1 where wait: "condvar_wait env t st = (wr, st1)" by (cases "condvar_wait env t st")
  then have "env_run env st st1" by (rule env_run.wait [OF env_run.start])
  with assms wait show ?thesis
    by (auto simp: condvar_wait_held_def owner_died_def signal_error_def intro: env_run.start
        split: if_splits wait_result.splits option.splits)
qed

lemma lock_wait_run:
  shows "lock_wait env lk st = Some (lk', res, st') \<Longrightarrow> env_run env st st' \<and> (\<forall>e. res = Inl e \<longrightarrow> \<not> signal_error op e)"
    and "lock_timed_wait env t lk st = Some (lk', res, st') \<Longrightarrow>
      env_run env st st' \<and> (\<forall>e. res = Inl e \<longrightarrow> \<not> signal_error op e)"
  using wait_on_event_run [of env _ lk st lk' res st' op] condvar_wait_held_run [of env _ _ lk st lk' res st' op]
  by (auto simp: lock_wait_def lock_timed_wait_def split: if_splits)

lemma await_change_run:
  assumes "await_change env err lk st = Some (lk', res, st')" and "\<not> signal_error op (Err err)"
  shows "env_run env st st' \<and> (\<forall>e. res = Inl e \<longrightarrow> \<not> signal_error op e)"
proof (cases "lk_wait lk")
  case Wait
  with assms obtain res1 where "lock_wait env lk st = Some (lk', res1, st')" "\<forall>e. res = Inl e \<longrightarrow> res1 = Inl e"
    by (auto simp: await_change_def split: option.splits sum.splits)
  then show ?thesis using lock_wait_run(1) [of env lk st lk' res1 st' op] by auto
next
  case Nowait
  with assms show ?thesis by (auto simp: await_change_def intro: env_run.start)
next
  case (TimedWait t)
  with assms obtain res1 where "lock_timed_wait env t lk st = Some (lk', res1, st')"
    "\<forall>e. res = Inl e \<longrightarrow> res1 = Inl e \<or> e = Err Timeout"
    by (auto simp: await_change_def split: option.splits sum.splits wait_outcome.splits)
  then show ?thesis using lock_wait_run(2) [of env t lk st lk' res1 st' op] by (auto simp: signal_error_def)
qed

text \<open>A waiting loop ends with the condition it waits for, or with an error from before the commit.\<close>

lemma wait_until_run:
  assumes "wait_until env ready err lk st = Some (lk', res, st')" and "\<not> signal_error op (Err err)"
  shows "env_run env st st' \<and> (case res of Inr _ \<Rightarrow> ready (fst st') | Inl e \<Rightarrow> \<not> signal_error op e)"
proof -
  let ?ok = "\<lambda>env ready st r. env_run env st (snd (snd r)) \<and>
      (case fst (snd r) of Inr _ \<Rightarrow> ready (fst (snd (snd r))) | Inl e \<Rightarrow> \<not> signal_error op e)"
  have "?ok env ready st (lk', res, st')"
  proof (rule wait_until.raw_induct
      [where P = "\<lambda>env ready err lk st r. \<not> signal_error op (Err err) \<longrightarrow> ?ok env ready st r", OF _ assms(1), rule_format])
    fix f env ready err lk st and r :: "queue_lock \<times> ('a, unit) outcome"
    assume IH: "\<And>env ready err lk st r. f env ready err lk st = Some r \<Longrightarrow> \<not> signal_error op (Err err) \<Longrightarrow> ?ok env ready st r"
      and eq: "(if ready (fst st) then Some (lk, Inr (), st)
        else case await_change env err lk st of
          None \<Rightarrow> None
        | Some (lk', Inl e, st') \<Rightarrow> Some (lk', Inl e, st')
        | Some (lk', Inr _, st') \<Rightarrow> f env ready err lk' st') = Some r" and err: "\<not> signal_error op (Err err)"
    show "?ok env ready st r"
    proof (cases "ready (fst st)")
      case True
      with eq show ?thesis by (auto intro: env_run.start)
    next
      case False
      with eq obtain lk' res st' where change: "await_change env err lk st = Some (lk', res, st')"
        by (auto split: option.splits)
      note one = await_change_run [OF change err]
      show ?thesis
      proof (cases res)
        case (Inl e)
        with False eq change one show ?thesis by auto
      next
        case (Inr u)
        with False eq change have "f env ready err lk' st' = Some r" by simp
        from IH [OF this err] one show ?thesis by (auto intro: env_run_trans)
      qed
    qed
  qed (rule assms(2))
  then show ?thesis by (cases res) simp_all
qed

text \<open>
  The other users of the mapping keep the queue well formed and never change its geometry;
  unlocking, notifying and writing a descriptor do not touch the queue.
\<close>

definition keeps :: "svm_queue \<Rightarrow> svm_queue \<Rightarrow> bool" where
  "keeps q q' \<longleftrightarrow> q_maxsize q' = q_maxsize q \<and> q_elsize q' = q_elsize q \<and> (queue_inv q \<longrightarrow> queue_inv q')"

definition env_ok :: "'w queue_env \<Rightarrow> bool" where
  "env_ok env \<longleftrightarrow>
     (\<forall>st b. keeps (fst st) (fst (snd (mutex_lock env b st)))) \<and>
     (\<forall>st t. keeps (fst st) (fst (snd (condvar_wait env t st)))) \<and>
     (\<forall>st. keeps (fst st) (fst (others env st))) \<and>
     (\<forall>st. fst (mutex_unlock env st) = fst st) \<and>
     (\<forall>st. fst (snd (notify_all env st)) = fst st) \<and>
     (\<forall>st fd bs. fst (snd (event_write env fd bs st)) = fst st)"

lemma env_okD:
  assumes "env_ok env"
  shows "mutex_lock env b st = (lo, st') \<Longrightarrow> keeps (fst st) (fst st')"
    and "condvar_wait env t st = (wr, st') \<Longrightarrow> keeps (fst st) (fst st')"
    and "keeps (fst st) (fst (others env st))"
    and "fst (mutex_unlock env st) = fst st"
    and "notify_all env st = (err, st') \<Longrightarrow> fst st' = fst st"
    and "event_write env fd bs st = (wn, st') \<Longrightarrow> fst st' = fst st"
  using assms unfolding env_ok_def by (metis fst_conv snd_conv)+

lemma keeps_refl [simp]: "keeps q q"
  by (simp add: keeps_def)

lemma keeps_trans: "keeps p q \<Longrightarrow> keeps q r \<Longrightarrow> keeps p r"
  by (simp add: keeps_def)

lemma keeps_geometry: "keeps q q' \<Longrightarrow> element_size q' = element_size q \<and> capacity q' = capacity q"
  by (simp add: keeps_def element_size_def capacity_def)

text \<open>So it does over a whole run.\<close>

lemma env_run_keeps: "env_run env st st' \<Longrightarrow> env_ok env \<Longrightarrow> keeps (fst st) (fst st')"
  by (induction rule: env_run.induct) (auto simp: env_okD(4) intro: keeps_trans dest: env_okD(1,2) env_okD(3))

lemma signal_queue:
  assumes ok: "env_ok env" and "signal env p op st = (res, st')"
  shows "fst st' = fst st"
  using assms(2) env_okD(5) [OF ok, of st] env_okD(6) [OF ok, of _ _ st]
  by (auto simp: signal_def Let_def split: if_splits prod.splits option.splits)

lemma signal_if_commits:
  assumes "env_ok env" and "(res, st') = (if c then signal env p op (q, w) else (Inr (), q, w))"
  shows "fst st' = q \<and> took_effect op res"
proof (cases c)
  case True
  with assms(2) have "signal env p op (q, w) = (res, st')" by simp
  with signal_queue [OF assms(1) this] signal_took_effect [of op env p "(q, w)"] show ?thesis by simp
qed (use assms in simp)

text \<open>Only the two signalling errors come out of \<open>signal\<close>, and they name the committed operation.\<close>

lemma signal_result:
  "fst (signal env p op st) = Inr () \<or>
   (\<exists>e. fst (signal env p op st) = Inl (Err (SignalAfterCommit op e))) \<or>
   (\<exists>e. fst (signal env p op st) = Inl (Err (EventSignalAfterCommit op e)))"
  by (auto simp: signal_def Let_def split: prod.splits option.splits)

lemma release_queue:
  assumes ok: "env_ok env" and "release env (lk, res, st) = (res', st')"
  shows "res' = res \<and> fst st' = fst st"
  using assms(2) env_okD(4) [OF ok, of st] by (auto simp: release_def split: if_splits)

lemma not_full: "queue_inv q \<Longrightarrow> q_cursize q \<noteq> q_maxsize q \<Longrightarrow> unat (q_cursize q) < capacity q"
  using queue_invD(6) [of q] by (auto simp: capacity_def le_less word_unat_eq_iff)

lemma release_run: "release env (lk, res, st) = (res', st') \<Longrightarrow> res' = res \<and> env_run env st st'"
  by (auto simp: release_def intro: env_run.intros split: if_splits)

text \<open>
  Under the lock: the operation either took effect on a queue the others left, or it left everything to the others.
\<close>

lemma add_nolock_commits:
  assumes ok: "env_ok env" and "queue_inv (fst st)" and ret: "add_nolock env e lk st = Some (lk', res, st')"
  shows "queue_inv (fst st') \<and> (if took_effect Add res
     then \<exists>q1 w1. env_run env st (q1, w1) \<and> unat (q_cursize q1) < capacity q1 \<and> contents (fst st') = contents q1 @ [e]
     else env_run env st st')"
proof (cases "validate_element (element_size (fst st)) e")
  case (Inl err)
  with assms show ?thesis
    by (auto simp: add_nolock_def validate_element_def validate_element_length_def signal_error_def
        intro: env_run.start split: if_splits)
next
  case valid: (Inr u)
  from ret valid obtain lk1 res1 q w where
    wait: "wait_until env (\<lambda>q. q_cursize q \<noteq> q_maxsize q) QueueFull lk st = Some (lk1, res1, q, w)"
    by (auto simp: add_nolock_def split: option.splits)
  have run: "env_run env st (q, w)" and out: "case res1 of Inr _ \<Rightarrow> q_cursize q \<noteq> q_maxsize q | Inl e \<Rightarrow> \<not> signal_error Add e"
    using wait_until_run [OF wait, of Add] by (cases res1; simp add: signal_error_def)+
  have keep: "keeps (fst st) q"
    using env_run_keeps [OF run ok] by simp
  then have inv: "queue_inv q" and len: "length e = element_size q"
    using assms(2) valid keeps_geometry [OF keep]
    by (auto simp: keeps_def validate_element_def validate_element_length_def split: if_splits)
  show ?thesis
  proof (cases res1)
    case (Inl err)
    with ret valid wait inv run out show ?thesis by (auto simp: add_nolock_def)
  next
    case (Inr v)
    then have room: "unat (q_cursize q) < capacity q"
      using out not_full [OF inv] by simp
    have "(res, st') = (if q_cursize q = 0 then signal env True Add (write_one e q, w) else (Inr (), write_one e q, w))"
      using ret valid wait Inr by (auto simp: add_nolock_def split: if_splits)
    then have "fst st' = write_one e q" "took_effect Add res"
      using signal_if_commits [OF ok] by blast+
    then show ?thesis
      using run write_one_inv [OF inv len room] write_one_contents [OF inv len room] room by auto
  qed
qed

lemma room_for_two:
  assumes "queue_inv q" and "\<not> q_maxsize q - q_cursize q < 2"
  shows "unat (q_cursize q) + 2 \<le> capacity q"
proof -
  have "unat (q_maxsize q - q_cursize q) = capacity q - unat (q_cursize q)"
    using queue_invD(6) [OF assms(1)] by (simp add: unat_sub word_le_nat_alt capacity_def)
  with assms(2) show ?thesis
    by (simp add: word_less_nat_alt)
qed

lemma write_two:
  assumes "queue_inv q" and "length a = element_size q" and "length b = element_size q"
    and "unat (q_cursize q) + 2 \<le> capacity q"
  shows "queue_inv (write_one b (write_one a q)) \<and> contents (write_one b (write_one a q)) = contents q @ [a, b]"
proof -
  have one: "unat (q_cursize q) < capacity q"
    using assms(4) by simp
  note first = write_one_inv [OF assms(1,2) one] write_one_contents [OF assms(1,2) one]
  have "unat (q_cursize (write_one a q)) < capacity (write_one a q)"
    using cursize_inc [OF assms(1) one] assms(4) by simp
  with first assms(3) show ?thesis
    using write_one_inv [OF first(1)] write_one_contents [OF first(1)] by simp
qed

lemma add2_nolock_commits:
  assumes ok: "env_ok env" and "queue_inv (fst st)" and ret: "add2_nolock env a b lk st = Some (lk', res, st')"
  shows "queue_inv (fst st') \<and> (if took_effect AddPair res
     then \<exists>q1 w1. env_run env st (q1, w1) \<and> unat (q_cursize q1) + 2 \<le> capacity q1 \<and>
       contents (fst st') = contents q1 @ [a, b]
     else env_run env st st')"
proof (cases "rbind (validate_element (element_size (fst st)) a) (\<lambda>_. validate_element (element_size (fst st)) b)")
  case (Inl err)
  with assms show ?thesis
    by (auto simp: add2_nolock_def validate_element_def validate_element_length_def signal_error_def
        intro: env_run.start split: if_splits)
next
  case valid: (Inr u)
  show ?thesis
  proof (cases "q_maxsize (fst st) < 2")
    case True
    with assms valid show ?thesis by (auto simp: add2_nolock_def signal_error_def intro: env_run.start)
  next
    case False
    with ret valid obtain lk1 res1 q w where
      wait: "wait_until env (\<lambda>q. \<not> q_maxsize q - q_cursize q < 2) QueueFull lk st = Some (lk1, res1, q, w)"
      by (auto simp: add2_nolock_def split: option.splits)
    have run: "env_run env st (q, w)"
      and out: "case res1 of Inr _ \<Rightarrow> \<not> q_maxsize q - q_cursize q < 2 | Inl e \<Rightarrow> \<not> signal_error AddPair e"
      using wait_until_run [OF wait, of AddPair] by (cases res1; simp add: signal_error_def)+
    have keep: "keeps (fst st) q"
      using env_run_keeps [OF run ok] by simp
    then have inv: "queue_inv q" and len: "length a = element_size q" "length b = element_size q"
      using assms(2) valid keeps_geometry [OF keep]
      by (auto simp: keeps_def validate_element_def validate_element_length_def rbind_Inr split: if_splits)
    show ?thesis
    proof (cases res1)
      case (Inl err)
      with ret False valid wait inv run out show ?thesis by (auto simp: add2_nolock_def)
    next
      case (Inr v)
      then have two: "unat (q_cursize q) + 2 \<le> capacity q"
        using out room_for_two [OF inv] by simp
      let ?q2 = "write_one b (write_one a q)"
      have "(res, st') = (if q_cursize q = 0 then signal env True AddPair (?q2, w) else (Inr (), ?q2, w))"
        using ret valid False wait Inr by (auto simp: add2_nolock_def Let_def split: if_splits)
      then have "fst st' = ?q2" "took_effect AddPair res"
        using signal_if_commits [OF ok] by blast+
      then show ?thesis
        using run two write_two [OF inv len two] by auto
    qed
  qed
qed

lemma sub_nolock_takes:
  assumes ok: "env_ok env" and "queue_inv (fst st)" and ret: "sub_nolock env st = ((res, st'), taken)"
  shows "queue_inv (fst st') \<and>
     (case taken of
        None \<Rightarrow> contents (fst st) = [] \<and> res = Inl (Err Empty) \<and> st' = st
      | Some x \<Rightarrow> contents (fst st) = x # contents (fst st') \<and>
          (unat (q_cursize (fst st)) < capacity (fst st) \<longrightarrow> res = Inr () \<and> snd st' = snd st))"
proof (cases "q_cursize (fst st) = 0")
  case True
  with assms show ?thesis by (auto simp: sub_nolock_def contents_def)
next
  case False
  note moved = read_one_inv [OF assms(2) False] read_one_contents [OF assms(2) False]
  have "fst st' = snd (read_one (fst st)) \<and> taken = Some (fst (read_one (fst st))) \<and>
      (q_cursize (fst st) \<noteq> q_maxsize (fst st) \<longrightarrow> res = Inr () \<and> snd st' = snd st)"
    using ret False signal_queue [OF ok, of False Sub "(snd (read_one (fst st)), snd st)"]
    by (auto simp: sub_nolock_def Let_def split: if_splits prod.splits)
  with moved show ?thesis
    by (auto simp: capacity_def)
qed

lemma sub_nolock_took_effect: "q_cursize q \<noteq> 0 \<Longrightarrow> took_effect Sub (fst (fst (sub_nolock env (q, w))))"
  using signal_took_effect [of Sub env False "(snd (read_one q), w)"]
  by (auto simp: sub_nolock_def Let_def split: prod.splits)

lemma sub_held_takes:
  assumes ok: "env_ok env" and inv: "queue_inv q" and nonempty: "q_cursize q \<noteq> 0"
    and sub: "sub_nolock env (q, w) = (out, taken)" and rel: "release env (lk, out) = (res, q', w')"
  shows "queue_inv q' \<and> took_effect Sub res \<and> (\<exists>x. taken = Some x \<and> contents q = x # contents q')"
proof -
  obtain res3 st3 where out: "out = (res3, st3)"
    by (cases out)
  have "q' = fst st3" "res = res3"
    using release_queue [OF ok rel [unfolded out]] by simp_all
  moreover have "contents q \<noteq> []"
    using nonempty by (simp add: contents_def unat_eq_0)
  ultimately show ?thesis
    using sub_nolock_takes [OF ok _ sub [unfolded out]] inv sub_nolock_took_effect [OF nonempty, of env w] sub out
    by (auto split: option.splits)
qed

text \<open>An environment of one: the mutex is free, waits wake at once and nothing else happens.\<close>

definition solo_env :: "unit queue_env" where
  "solo_env =
     \<lparr>mutex_lock = (\<lambda>_ st. (Standard, st)), mutex_unlock = (\<lambda>st. st),
      condvar_wait = (\<lambda>_ st. (Woken Notified, st)), notify_all = (\<lambda>st. (None, st)),
      event_write = (\<lambda>_ _ st. ((8, 0), st)), others = (\<lambda>st. st), now = (\<lambda>_. 0)\<rparr>"

lemma solo_env_ok: "env_ok solo_env"
  by (simp add: env_ok_def solo_env_def)

lemmas queue_eval = queue_add_def queue_add2_def queue_sub_def add_nolock_def add2_nolock_def sub_nolock_def
  lock_for_def try_lock_def lock_def acquire_def release_def signal_def validate_element_def
  validate_element_length_def element_size_def write_one_def read_one_def slot_bytes_def next_slot_def
  splice_def wait_until.simps await_change_def solo_env_def Let_def

definition sample_queue :: "u32 \<Rightarrow> bytes \<Rightarrow> svm_queue" where
  "sample_queue n bs =
     \<lparr>q_head = 0, q_tail = n, q_cursize = n, q_maxsize = 3, q_elsize = 1, q_consumer_pid = 1,
      q_producer_evtfd = - 1, q_consumer_evtfd = - 1, q_data = bs\<rparr>"

lemma sample_queue_inv: "queue_inv (sample_queue 0 [0, 0, 0])" "queue_inv (sample_queue 2 [4, 5, 0])"
  by (simp_all add: sample_queue_def queue_inv_def capacity_def element_size_def)

section \<open>Properties of the queue\<close>

lemma size_to_alloc_eq:
  "size_to_alloc config =
     (if cfg_nels config = 0 then Inl ZeroCapacity
      else if cfg_elsize config = 0 then Inl ZeroElementSize
      else Inr (120 + unat (cfg_nels config) * unat (cfg_elsize config)))"
proof -
  have "unat (cfg_nels config) < 2 ^ LENGTH(32)" "unat (cfg_elsize config) < 2 ^ LENGTH(32)"
    by (rule unsigned_less)+
  then have "unat (cfg_nels config) * unat (cfg_elsize config) \<le> (2 ^ 32 - 1) * (2 ^ 32 - 1)"
    by (intro mult_mono) auto
  then show ?thesis
    by (auto simp: size_to_alloc_def validate_config_def queue_header_size_def checked_mul_def checked_add_def
        usize_bound_def)
qed

text \<open>
  The allocation size is exact: for a positive geometry it is the header and all slots, and
  the 32-bit counts cannot overflow it.
\<close>

theorem size_to_alloc_exact:
  "size_to_alloc config =
     (if cfg_nels config = 0 then Inl ZeroCapacity
      else if cfg_elsize config = 0 then Inl ZeroElementSize
      else Inr (120 + unat (cfg_nels config) * unat (cfg_elsize config)))"
  by (rule size_to_alloc_eq)

text \<open>In an environment of one nothing happens to the queue but what the operation does.\<close>

lemma solo_env_run: "env_run solo_env st st' \<Longrightarrow> st' = st"
  by (induction rule: env_run.induct) (simp_all add: solo_env_def)

text \<open>
  C5. An add that took effect, whether it returned normally or reports a failed wakeup, has appended its element behind
  exactly what the other processes had left in the queue, which had room; any other outcome leaves the queue as the
  others left it. The queue stays well formed on every path.
\<close>

theorem queue_add_appends:
  assumes ok: "env_ok env" and "queue_inv q" and ret: "queue_add env e mode (q, w) = Some (res, q', w')"
  shows "queue_inv q' \<and> (if took_effect Add res
     then \<exists>q1 w1. env_run env (q, w) (q1, w1) \<and> unat (q_cursize q1) < capacity q1 \<and> contents q' = contents q1 @ [e]
     else env_run env (q, w) (q', w'))"
proof (cases "validate_element (element_size q) e")
  case (Inl err)
  with assms show ?thesis
    by (auto simp: queue_add_def validate_element_def validate_element_length_def signal_error_def
        intro: env_run.start split: if_splits)
next
  case valid: (Inr u)
  obtain lres q1 w1 where lock: "lock_for env mode (q, w) = (lres, q1, w1)"
    by (cases "lock_for env mode (q, w)")
  note locked = lock_for_run [OF lock, of Add]
  then have inv: "queue_inv q1"
    using env_run_keeps [OF _ ok, of "(q, w)" "(q1, w1)"] assms(2) by (simp add: keeps_def)
  show ?thesis
  proof (cases lres)
    case (Inl err)
    with ret valid lock inv locked show ?thesis by (auto simp: queue_add_def)
  next
    case (Inr lk)
    with ret valid lock obtain lk' res' st' where
      add: "add_nolock env e (lk\<lparr>lk_wait := mode\<rparr>) (q1, w1) = Some (lk', res', st')"
      and rel: "release env (lk', res', st') = (res, q', w')"
      by (auto simp: queue_add_def)
    have "res = res'" "q' = fst st'" "env_run env st' (q', w')"
      using release_queue [OF ok rel] release_run [OF rel] by simp_all
    with add_nolock_commits [OF ok _ add] inv locked show ?thesis
      by (auto intro: env_run_trans split: if_splits)
  qed
qed

lemma queue_add_appends_witness:
  "contents (write_one [9] (sample_queue 2 [4, 5, 0])) = contents (sample_queue 2 [4, 5, 0]) @ [[9]]"
proof -
  have "queue_add solo_env [9] Nowait (sample_queue 2 [4, 5, 0], ()) = Some (Inr (), write_one [9] (sample_queue 2 [4, 5, 0]), ())"
    by (simp add: queue_eval sample_queue_def)
  from queue_add_appends [OF solo_env_ok sample_queue_inv(2) this] show ?thesis
    by (auto dest: solo_env_run)
qed

text \<open>
  A producer of a pair has appended both elements next to each other, or nothing.
\<close>

theorem queue_add2_appends_pair:
  assumes ok: "env_ok env" and "queue_inv q" and ret: "queue_add2 env a b mode (q, w) = Some (res, q', w')"
  shows "queue_inv q' \<and> (if took_effect AddPair res
     then \<exists>q1 w1. env_run env (q, w) (q1, w1) \<and> unat (q_cursize q1) + 2 \<le> capacity q1 \<and>
       contents q' = contents q1 @ [a, b]
     else env_run env (q, w) (q', w'))"
proof (cases "rbind (validate_element (element_size q) a) (\<lambda>_. validate_element (element_size q) b)")
  case (Inl err)
  with assms show ?thesis
    by (auto simp: queue_add2_def validate_element_def validate_element_length_def signal_error_def
        intro: env_run.start split: if_splits)
next
  case valid: (Inr u)
  obtain lres q1 w1 where lock: "lock_for env mode (q, w) = (lres, q1, w1)"
    by (cases "lock_for env mode (q, w)")
  note locked = lock_for_run [OF lock, of AddPair]
  then have inv: "queue_inv q1"
    using env_run_keeps [OF _ ok, of "(q, w)" "(q1, w1)"] assms(2) by (simp add: keeps_def)
  show ?thesis
  proof (cases lres)
    case (Inl err)
    with ret valid lock inv locked show ?thesis by (auto simp: queue_add2_def)
  next
    case (Inr lk)
    with ret valid lock obtain lk' res' st' where
      add: "add2_nolock env a b (lk\<lparr>lk_wait := mode\<rparr>) (q1, w1) = Some (lk', res', st')"
      and rel: "release env (lk', res', st') = (res, q', w')"
      by (auto simp: queue_add2_def)
    have "res = res'" "q' = fst st'" "env_run env st' (q', w')"
      using release_queue [OF ok rel] release_run [OF rel] by simp_all
    with add2_nolock_commits [OF ok _ add] inv locked show ?thesis
      by (auto intro: env_run_trans split: if_splits)
  qed
qed

lemma queue_add2_appends_pair_witness:
  "contents (write_one [2] (write_one [1] (sample_queue 0 [0, 0, 0]))) = contents (sample_queue 0 [0, 0, 0]) @ [[1], [2]]"
proof -
  have "queue_add2 solo_env [1] [2] Nowait (sample_queue 0 [0, 0, 0], ()) =
      Some (Inr (), write_one [2] (write_one [1] (sample_queue 0 [0, 0, 0])), ())"
    by (simp add: queue_eval sample_queue_def)
  from queue_add2_appends_pair [OF solo_env_ok sample_queue_inv(1) this] show ?thesis
    by (auto dest: solo_env_run)
qed

text \<open>
  C3. A consumer that gets an element gets the oldest of those the other processes had left in the queue, and exactly
  that one is removed, even when the wakeup that follows fails; a consumer that gets none leaves the queue to the others.
\<close>

theorem queue_sub_takes_oldest:
  assumes ok: "env_ok env" and "queue_inv q" and ret: "queue_sub env len mode (q, w) = Some ((res, q', w'), taken)"
  shows "queue_inv q' \<and> (case taken of
       Some x \<Rightarrow> took_effect Sub res \<and> (\<exists>q1 w1. env_run env (q, w) (q1, w1) \<and> contents q1 = x # contents q')
     | None \<Rightarrow> \<not> took_effect Sub res \<and> env_run env (q, w) (q', w'))"
proof (cases "validate_element_length (element_size q) len")
  case (Inl err)
  with assms show ?thesis
    by (auto simp: queue_sub_def validate_element_length_def signal_error_def intro: env_run.start split: if_splits)
next
  case valid: (Inr u)
  obtain lres q1 w1 where lock: "lock_for env mode (q, w) = (lres, q1, w1)"
    by (cases "lock_for env mode (q, w)")
  note locked = lock_for_run [OF lock, of Sub]
  show ?thesis
  proof (cases lres)
    case (Inl err)
    with ret valid lock locked show ?thesis
      using env_run_keeps [OF _ ok, of "(q, w)" "(q1, w1)"] assms(2) by (auto simp: queue_sub_def keeps_def)
  next
    case (Inr lk)
    with ret valid lock obtain lk2 res2 q2 w2 where
      wait: "wait_until env (\<lambda>q. q_cursize q \<noteq> 0) Empty (lk\<lparr>lk_wait := mode\<rparr>) (q1, w1) = Some (lk2, res2, q2, w2)"
      by (auto simp: queue_sub_def split: option.splits)
    have run: "env_run env (q, w) (q2, w2)" and out: "case res2 of Inr _ \<Rightarrow> q_cursize q2 \<noteq> 0 | Inl e \<Rightarrow> \<not> signal_error Sub e"
      using wait_until_run [OF wait, of Sub] locked by (cases res2; auto simp: signal_error_def intro: env_run_trans)+
    then have inv2: "queue_inv q2"
      using env_run_keeps [OF run ok] assms(2) by (simp add: keeps_def)
    show ?thesis
    proof (cases res2)
      case (Inl err)
      with ret valid lock Inr wait have rel: "release env (lk2, Inl err, q2, w2) = (res, q', w')" and "taken = None"
        by (auto simp: queue_sub_def)
      then show ?thesis
        using release_queue [OF ok rel] release_run [OF rel] inv2 run out Inl by (auto intro: env_run_trans)
    next
      case unit: (Inr v)
      obtain held where sub: "sub_nolock env (q2, w2) = (held, taken)" and rel: "release env (lk2, held) = (res, q', w')"
        using ret valid lock Inr wait unit by (cases "sub_nolock env (q2, w2)") (auto simp: queue_sub_def)
      have "q_cursize q2 \<noteq> 0" using out unit by simp
      from sub_held_takes [OF ok inv2 this sub rel] obtain x where
        "queue_inv q'" "took_effect Sub res" "taken = Some x" "contents q2 = x # contents q'" by blast
      with run show ?thesis by (auto intro!: exI [of _ q2])
    qed
  qed
qed

lemma queue_sub_takes_oldest_witness:
  "contents (sample_queue 2 [4, 5, 0]) = [4] # contents (snd (read_one (sample_queue 2 [4, 5, 0])))"
proof -
  have "queue_sub solo_env 1 Nowait (sample_queue 2 [4, 5, 0], ()) =
      Some ((Inr (), snd (read_one (sample_queue 2 [4, 5, 0])), ()), Some [4])"
    by (simp add: queue_eval sample_queue_def)
  from queue_sub_takes_oldest [OF solo_env_ok sample_queue_inv(2) this] show ?thesis
    by (auto dest: solo_env_run)
qed

text \<open>
  Without waiting, once the mutex is taken the outcome is decided at once: a full queue is
  refused unchanged, otherwise the element is written, and only a failed wakeup can be reported
  after that.
\<close>

theorem queue_add_nowait:
  assumes ok: "env_ok env" and "queue_inv q" and len: "length e = element_size q"
    and free: "mutex_lock env True (q, w) = (Standard, q1, w1)"
  shows "\<exists>res w'. queue_add env e Nowait (q, w) =
       Some (res, if q_cursize q1 = q_maxsize q1 then q1 else write_one e q1, w') \<and>
     (if q_cursize q1 = q_maxsize q1 then res = Inl (Err QueueFull)
      else res = Inr () \<or> (\<exists>err. res = Inl (Err (SignalAfterCommit Add err))) \<or>
        (\<exists>err. res = Inl (Err (EventSignalAfterCommit Add err))))"
proof -
  have geo: "element_size q1 = element_size q"
    using keeps_geometry [OF env_okD(1) [OF ok free]] by simp
  have unlock: "mutex_unlock env (q2, w2) = (q2, snd (mutex_unlock env (q2, w2)))" for q2 w2
    using env_okD(4) [OF ok, of "(q2, w2)"] by (metis fst_conv prod.collapse)
  obtain res2 q2 w2 where sig: "signal env True Add (write_one e q1, w1) = (res2, q2, w2)"
    by (cases "signal env True Add (write_one e q1, w1)")
  then have "q2 = write_one e q1"
    using signal_queue [OF ok sig] by simp
  with sig signal_result [of env True Add "(write_one e q1, w1)"] show ?thesis
    using unlock geo len free
    by (auto simp: queue_add_def add_nolock_def lock_for_def try_lock_def acquire_def validate_element_def
        validate_element_length_def wait_until.simps await_change_def release_def)
qed

lemma queue_add_nowait_witness:
  "\<exists>res w'. queue_add solo_env [9] Nowait (sample_queue 2 [4, 5, 0], ()) =
       Some (res, if q_cursize (sample_queue 2 [4, 5, 0]) = q_maxsize (sample_queue 2 [4, 5, 0])
         then sample_queue 2 [4, 5, 0] else write_one [9] (sample_queue 2 [4, 5, 0]), w') \<and>
     (if q_cursize (sample_queue 2 [4, 5, 0]) = q_maxsize (sample_queue 2 [4, 5, 0]) then res = Inl (Err QueueFull)
      else res = Inr () \<or> (\<exists>err. res = Inl (Err (SignalAfterCommit Add err))) \<or>
        (\<exists>err. res = Inl (Err (EventSignalAfterCommit Add err))))"
  by (rule queue_add_nowait [OF solo_env_ok sample_queue_inv(2)])
    (simp_all add: sample_queue_def element_size_def solo_env_def)

lemma layout_fits: "unat (m :: u32) * unat (n :: u32) + 120 < usize_bound"
proof -
  have "unat m < 2 ^ LENGTH(32)" "unat n < 2 ^ LENGTH(32)"
    by (rule unsigned_less)+
  then have "unat m * unat n \<le> (2 ^ 32 - 1) * (2 ^ 32 - 1)"
    by (intro mult_mono) auto
  then show ?thesis
    by (simp add: usize_bound_def)
qed

lemma queue_attach_iff:
  "queue_attach base n q = Inr () \<longleftrightarrow>
     base mod 64 = 0 \<and> 0 < capacity q \<and> 0 < element_size q \<and> unat (q_head q) < capacity q \<and>
     unat (q_tail q) < capacity q \<and> unat (q_cursize q) \<le> capacity q \<and> 120 + capacity q * element_size q \<le> n"
  using layout_fits [of "q_maxsize q" "q_elsize q"]
  by (auto simp: queue_attach_def cache_line_bytes_def queue_header_size_def checked_mul_def checked_add_def
      capacity_def element_size_def word_le_nat_alt word_less_nat_alt unat_gt_0 rbind_Inr not_le)

lemma queue_init_inv:
  assumes "queue_init base config mem = Inr q"
    and "unat (cfg_nels config) * unat (cfg_elsize config) \<le> length mem"
  shows "queue_inv q \<and> contents q = [] \<and> capacity q = unat (cfg_nels config) \<and>
     element_size q = unat (cfg_elsize config) \<and> base mod 64 = 0"
  using assms
  by (auto simp: queue_init_def size_to_alloc_def validate_config_def queue_inv_def contents_def capacity_def
      element_size_def cache_line_bytes_def unat_gt_0 rbind_Inr split: if_splits)

lemma queue_init_attaches:
  assumes "queue_init base config mem = Inr q"
    and "unat (cfg_nels config) * unat (cfg_elsize config) \<le> length mem"
  shows "queue_inv q \<and> contents q = [] \<and> queue_attach base (120 + capacity q * element_size q) q = Inr ()"
proof -
  have "queue_inv q" "contents q = []" "base mod 64 = 0"
    using queue_init_inv [OF assms] by simp_all
  then show ?thesis
    using queue_invD(1,2,4,5,6) [of q] by (simp add: queue_attach_iff)
qed

text \<open>
  Attaching accepts exactly the aligned allocations whose header has a positive geometry,
  positions inside it and room for every slot; in particular every freshly initialised queue, which
  is empty and well formed.
\<close>

theorem queue_attach_accepts:
  shows "(queue_attach base n q = Inr () \<longleftrightarrow>
       base mod 64 = 0 \<and> 0 < capacity q \<and> 0 < element_size q \<and> unat (q_head q) < capacity q \<and>
       unat (q_tail q) < capacity q \<and> unat (q_cursize q) \<le> capacity q \<and> 120 + capacity q * element_size q \<le> n) \<and>
    (queue_init base config mem = Inr q0 \<longrightarrow>
       unat (cfg_nels config) * unat (cfg_elsize config) \<le> length mem \<longrightarrow>
       queue_inv q0 \<and> contents q0 = [] \<and> queue_attach base (120 + capacity q0 * element_size q0) q0 = Inr ())"
  by (rule conjI [OF queue_attach_iff], intro impI) (rule queue_init_attaches)

lemma queue_attach_accepts_witness:
  "queue_inv (sample_queue 0 [0, 0, 0]) \<and> contents (sample_queue 0 [0, 0, 0]) = [] \<and>
     queue_attach 128 (120 + capacity (sample_queue 0 [0, 0, 0]) * element_size (sample_queue 0 [0, 0, 0]))
       (sample_queue 0 [0, 0, 0]) = Inr ()"
  by (rule queue_attach_accepts [THEN conjunct2, rule_format,
      where config = "\<lparr>cfg_nels = 3, cfg_elsize = 1, cfg_consumer_pid = 1\<rparr>" and mem = "[0, 0, 0, 7]"])
    (simp_all add: queue_init_def size_to_alloc_eq cache_line_bytes_def sample_queue_def)

section \<open>Blocking producers return\<close>

text \<open>The states a waiting producer finds each time it is woken.\<close>

primrec wakeups :: "'w queue_env \<Rightarrow> nat \<Rightarrow> svm_queue \<times> 'w \<Rightarrow> svm_queue \<times> 'w" where
  "wakeups env 0 st = st"
| "wakeups env (Suc n) st = wakeups env n (snd (condvar_wait env None st))"

lemma wait_until_returns:
  assumes "\<forall>i<n. fst (condvar_wait env None (wakeups env i st)) = Woken Notified"
    and "\<forall>i<n. sint (q_producer_evtfd (fst (wakeups env i st))) < 0"
    and "ready (fst (wakeups env n st))"
  shows "\<exists>st'. wait_until env ready err \<lparr>lk_guard = True, lk_wait = Wait\<rparr> st =
     Some (\<lparr>lk_guard = True, lk_wait = Wait\<rparr>, Inr (), st')"
  using assms
proof (induction n arbitrary: st)
  case 0
  then show ?case by (simp add: wait_until.simps)
next
  case (Suc n)
  show ?case
  proof (cases "ready (fst st)")
    case True
    then show ?thesis by (simp add: wait_until.simps)
  next
    case False
    obtain st1 where wake: "condvar_wait env None st = (Woken Notified, st1)"
      using Suc.prems(1) by (cases "condvar_wait env None st") (auto dest: spec [of _ 0])
    have "\<not> 0 \<le> sint (q_producer_evtfd (fst st))"
      using Suc.prems(2) by (auto dest: spec [of _ 0])
    with False wake have "wait_until env ready err \<lparr>lk_guard = True, lk_wait = Wait\<rparr> st =
        wait_until env ready err \<lparr>lk_guard = True, lk_wait = Wait\<rparr> st1"
      by (subst wait_until.simps) (simp add: await_change_def lock_wait_def event_mode_def condvar_wait_held_def)
    moreover have "\<exists>st'. wait_until env ready err \<lparr>lk_guard = True, lk_wait = Wait\<rparr> st1 =
        Some (\<lparr>lk_guard = True, lk_wait = Wait\<rparr>, Inr (), st')"
    proof (rule Suc.IH)
      show "\<forall>i<n. fst (condvar_wait env None (wakeups env i st1)) = Woken Notified"
        "\<forall>i<n. sint (q_producer_evtfd (fst (wakeups env i st1))) < 0" "ready (fst (wakeups env n st1))"
        using Suc.prems wake by (auto dest: spec [of _ "Suc _"])
    qed
    ultimately show ?thesis by simp
  qed
qed

text \<open>
  A blocking producer returns, with its element in the queue, as soon as one of its wakeups
  finds room.
\<close>

theorem queue_add_returns:
  assumes ok: "env_ok env" and "queue_inv q" and len: "length e = element_size q"
    and free: "mutex_lock env False (q, w) = (Standard, st)"
    and woken: "\<forall>i<n. fst (condvar_wait env None (wakeups env i st)) = Woken Notified"
    and condvar: "\<forall>i<n. sint (q_producer_evtfd (fst (wakeups env i st))) < 0"
    and room: "q_cursize (fst (wakeups env n st)) \<noteq> q_maxsize (fst (wakeups env n st))"
  shows "\<exists>res q' w' q1. queue_add env e Wait (q, w) = Some (res, q', w') \<and> queue_inv q' \<and>
     contents q' = contents q1 @ [e] \<and> keeps q q1"
proof -
  obtain st' where wait: "wait_until env (\<lambda>q. q_cursize q \<noteq> q_maxsize q) QueueFull
      \<lparr>lk_guard = True, lk_wait = Wait\<rparr> st = Some (\<lparr>lk_guard = True, lk_wait = Wait\<rparr>, Inr (), st')"
    using wait_until_returns [OF woken condvar, of "\<lambda>q. q_cursize q \<noteq> q_maxsize q"] room by blast
  obtain q1 w1 where st': "st' = (q1, w1)" by (cases st')
  have keep0: "keeps q (fst st)"
    using env_okD(1) [OF ok free] by simp
  moreover have keep1: "keeps (fst st) q1" and "q_cursize q1 \<noteq> q_maxsize q1"
    using wait_until_run [OF wait, of Add] env_run_keeps [OF _ ok, of st "(q1, w1)"] st'
    by (simp_all add: signal_error_def)
  ultimately have keep: "keeps q q1" and inv: "queue_inv q1" and room1: "unat (q_cursize q1) < capacity q1"
    using assms(2) not_full [of q1] by (auto simp: keeps_def)
  have len1: "length e = element_size q1" and len0: "length e = element_size (fst st)"
    using len keeps_geometry [OF keep] keeps_geometry [OF keep0] by simp_all
  obtain res2 q2 w2 where sig: "signal env True Add (write_one e q1, w1) = (res2, q2, w2)"
    by (cases "signal env True Add (write_one e q1, w1)")
  then have "q2 = write_one e q1"
    using signal_queue [OF ok sig] by simp
  moreover have "mutex_unlock env (q3, w3) = (q3, snd (mutex_unlock env (q3, w3)))" for q3 w3
    using env_okD(4) [OF ok, of "(q3, w3)"] by (metis fst_conv prod.collapse)
  ultimately have "\<exists>res w'. queue_add env e Wait (q, w) = Some (res, write_one e q1, w')"
    using free wait st' len len0 sig
    by (auto simp: queue_add_def add_nolock_def lock_for_def lock_def acquire_def validate_element_def
        validate_element_length_def release_def)
  then show ?thesis
    using keep write_one_inv [OF inv len1 room1] write_one_contents [OF inv len1 room1] by blast
qed

lemma queue_add_returns_witness:
  "\<exists>res q' w' q1. queue_add solo_env [9] Wait (sample_queue 2 [4, 5, 0], ()) = Some (res, q', w') \<and> queue_inv q' \<and>
     contents q' = contents q1 @ [[9]] \<and> keeps (sample_queue 2 [4, 5, 0]) q1"
  by (rule queue_add_returns [OF solo_env_ok sample_queue_inv(2), where n = 0 and st = "(sample_queue 2 [4, 5, 0], ())"])
    (simp_all add: sample_queue_def element_size_def solo_env_def)

end
