(* ===== verification/Utf8.thy ===== *)
theory Utf8
  imports Net_Prelude
begin

text \<open>
  Rust strings. A \<^verbatim>\<open>str\<close> is a byte sequence that is valid UTF-8; the model keeps it as a
  HOL \<open>string\<close>, one \<open>char\<close> per byte, so that literals of the source are literals of the
  model and the byte-wise order of \<^verbatim>\<open>str\<close> is the lexicographic order of the library.
  \<open>from_utf8\<close> is \<^verbatim>\<open>std::str::from_utf8\<close> and \<open>from_utf8_lossy\<close> is
  \<^verbatim>\<open>String::from_utf8_lossy\<close>, both over one decoding step.
\<close>

section \<open>Bytes and characters\<close>

definition byte_of_char :: "char \<Rightarrow> u8" where
  "byte_of_char c = word_of_nat (of_char c)"

definition char_of_byte :: "u8 \<Rightarrow> char" where
  "char_of_byte b = char_of (unat b)"

abbreviation str_bytes :: "string \<Rightarrow> bytes" where
  "str_bytes s \<equiv> map byte_of_char s"

lemma char_of_byte_of_char [simp]: "char_of_byte (byte_of_char c) = c"
  by (simp add: char_of_byte_def byte_of_char_def unat_of_nat)

lemma byte_of_char_of_byte [simp]: "byte_of_char (char_of_byte b) = b"
proof -
  have "unat b < 2 ^ LENGTH(8)"
    by (rule unsigned_less)
  then show ?thesis
    by (simp add: char_of_byte_def byte_of_char_def)
qed

lemma map_char_bytes [simp]:
  "map (char_of_byte \<circ> byte_of_char) s = s"
  "map (byte_of_char \<circ> char_of_byte) bs = bs"
  by (simp_all add: comp_def)

lemma byte_of_char_0 [simp]: "byte_of_char c = 0 \<longleftrightarrow> c = CHR 0x00"
proof -
  have "byte_of_char (CHR 0x00) = 0"
    by (simp add: byte_of_char_def)
  then show ?thesis
    by (metis char_of_byte_of_char)
qed

section \<open>One decoding step\<close>

text \<open>
  The validator of the standard library looks at the first byte for the width of the
  sequence, narrows the range of the second byte (no overlong forms, no surrogates, nothing
  above U+10FFFF) and requires continuation bytes after it. A failed step reports how many
  bytes the lossy conversion replaces.
\<close>

datatype utf8_step = Whole nat | Broken nat

definition is_cont :: "u8 \<Rightarrow> bool" where
  "is_cont b \<longleftrightarrow> 0x80 \<le> b \<and> b \<le> 0xBF"

definition byte_at :: "bytes \<Rightarrow> nat \<Rightarrow> u8" where
  "byte_at bs i = (if i < length bs then bs ! i else 0)"

definition second_of_three :: "u8 \<Rightarrow> u8 \<Rightarrow> bool" where
  "second_of_three a b \<longleftrightarrow>
     (if a = 0xE0 then 0xA0 \<le> b \<and> b \<le> 0xBF
      else if a = 0xED then 0x80 \<le> b \<and> b \<le> 0x9F
      else is_cont b)"

definition second_of_four :: "u8 \<Rightarrow> u8 \<Rightarrow> bool" where
  "second_of_four a b \<longleftrightarrow>
     (if a = 0xF0 then 0x90 \<le> b \<and> b \<le> 0xBF
      else if a = 0xF4 then 0x80 \<le> b \<and> b \<le> 0x8F
      else is_cont b)"

definition utf8_first :: "bytes \<Rightarrow> utf8_step" where
  "utf8_first bs =
     (let a = byte_at bs 0; b = byte_at bs 1; c = byte_at bs 2; d = byte_at bs 3 in
      if a < 0x80 then Whole 1
      else if 0xC2 \<le> a \<and> a \<le> 0xDF then (if is_cont b then Whole 2 else Broken 1)
      else if 0xE0 \<le> a \<and> a \<le> 0xEF then
        (if \<not> second_of_three a b then Broken 1 else if \<not> is_cont c then Broken 2 else Whole 3)
      else if 0xF0 \<le> a \<and> a \<le> 0xF4 then
        (if \<not> second_of_four a b then Broken 1 else if \<not> is_cont c then Broken 2
         else if \<not> is_cont d then Broken 3 else Whole 4)
      else Broken 1)"

lemma utf8_first_pos:
  "utf8_first bs = Whole n \<Longrightarrow> 0 < n"
  "utf8_first bs = Broken n \<Longrightarrow> 0 < n"
  by (auto simp: utf8_first_def Let_def split: if_splits)

section \<open>Validation and lossy conversion\<close>

function utf8_valid :: "bytes \<Rightarrow> bool" where
  "utf8_valid bs =
     (if bs = [] then True
      else case utf8_first bs of Whole n \<Rightarrow> utf8_valid (drop n bs) | Broken n \<Rightarrow> False)"
  by pat_completeness auto
termination
  by (relation "measure length") (auto simp: diff_less utf8_first_pos)

function lossy_bytes :: "bytes \<Rightarrow> bytes" where
  "lossy_bytes bs =
     (if bs = [] then []
      else case utf8_first bs of
             Whole n \<Rightarrow> take n bs @ lossy_bytes (drop n bs)
           | Broken n \<Rightarrow> [0xEF, 0xBF, 0xBD] @ lossy_bytes (drop n bs))"
  by pat_completeness auto
termination
  by (relation "measure length") (auto simp: diff_less utf8_first_pos)

declare utf8_valid.simps [simp del] lossy_bytes.simps [simp del]

definition from_utf8 :: "bytes \<Rightarrow> string option" where
  "from_utf8 bs = (if utf8_valid bs then Some (map char_of_byte bs) else None)"

definition from_utf8_lossy :: "bytes \<Rightarrow> string" where
  "from_utf8_lossy bs = map char_of_byte (lossy_bytes bs)"

abbreviation rust_str :: "string \<Rightarrow> bool" where
  "rust_str s \<equiv> utf8_valid (str_bytes s)"

lemma from_utf8_Some:
  "from_utf8 bs = Some s \<longleftrightarrow> rust_str s \<and> bs = str_bytes s"
  by (auto simp: from_utf8_def)

lemma from_utf8_str_bytes [simp]: "from_utf8 (str_bytes s) = (if rust_str s then Some s else None)"
  by (simp add: from_utf8_def)

lemma utf8_valid_Nil [simp]: "utf8_valid []"
  by (simp add: utf8_valid.simps)

lemma utf8_first_ascii: "a < 0x80 \<Longrightarrow> utf8_first (a # bs) = Whole 1"
  by (simp add: utf8_first_def byte_at_def)

lemma utf8_valid_ascii: "(\<forall>b\<in>set bs. b < 0x80) \<Longrightarrow> utf8_valid bs"
proof (induction bs)
  case Nil
  then show ?case by simp
next
  case (Cons a bs)
  then show ?case
    by (subst utf8_valid.simps) (simp add: utf8_first_ascii)
qed

text \<open>On valid input the lossy conversion loses nothing.\<close>

lemma lossy_bytes_valid: "utf8_valid bs \<Longrightarrow> lossy_bytes bs = bs"
proof (induction bs rule: utf8_valid.induct)
  case (1 bs)
  show ?case
  proof (cases "bs = []")
    case True
    then show ?thesis by (simp add: lossy_bytes.simps)
  next
    case False
    with "1.prems" obtain n where n: "utf8_first bs = Whole n" and v: "utf8_valid (drop n bs)"
      by (auto simp: utf8_valid.simps [of bs] split: utf8_step.splits)
    from "1.IH" [OF False n v] have "lossy_bytes (drop n bs) = drop n bs" .
    with False n show ?thesis
      by (simp add: lossy_bytes.simps [of bs])
  qed
qed

lemma from_utf8_lossy_agrees: "from_utf8 bs = Some s \<Longrightarrow> from_utf8_lossy bs = s"
  by (auto simp: from_utf8_Some from_utf8_lossy_def lossy_bytes_valid)

end
