(* ===== verification/Codec.thy ===== *)
theory Codec
  imports Utf8
begin

text \<open>
  The API wire format of \<^verbatim>\<open>hammer-binary-api-protocol/src/codec.rs\<close>: a Serde serializer and
  deserializer over borrowed byte slices. A Serde value is modelled by the calls it makes on
  a serializer (\<open>sval\<close>) and a deserializable type by the calls it makes on a deserializer
  (\<open>ty\<close>): a derived struct announces its fields in order, an array announces its length and
  then its elements. The serializer and the deserializer are states passed through every
  call, the \<^verbatim>\<open>client_index\<close> flag included.
\<close>

section \<open>Data model\<close>

datatype codec_error =
    EncodedLengthOverflow
  | OutputTooShort
  | LengthNotU32
  | ArrayRequiresLength
  | UnsupportedValue string
  | LegacyLengthMismatch
  | TruncatedMessage
  | TruncatedArray
  | ElementCountMismatch
  | ZeroSizeElement
  | InvalidUtf8
  | InvalidLength nat
  | EnumRequiresNumeric
  | NotWireOperation string
  | PayloadNotInitialized
  | TrailingPayload
  | TruncatedTable
  | IntegerOutOfRange

text \<open>Integers by width; a signed integer is kept as its two's complement bit pattern.\<close>

datatype int_value =
    U8 u8 | U16 u16 | U32 u32 | U64 u64
  | I8 u8 | I16 u16 | I32 u32 | I64 u64

datatype int_ty = TyU8 | TyU16 | TyU32 | TyU64 | TyI8 | TyI16 | TyI32 | TyI64

datatype unsupported =
    I128 | U128 | F32 | Char | NoneValue | SomeValue | UnitVariant | NewtypeVariant
  | TupleVariant | StructVariant | MapValue | DisplayValue

datatype sval =
    IntV int_value
  | Bool bool
  | F64 u64
  | Bytes bytes
  | Str string
  | Seq "nat option" "sval list"
  | Tuple "sval list"
  | TupleStruct "sval list"
  | Struct "(string \<times> sval) list"
  | Newtype sval
  | Unit
  | UnitStruct
  | Unsupported unsupported

datatype ty =
    TInt int_ty
  | TBool
  | TF64
  | TBytes
  | TByteBuf
  | TStr
  | TString
  | TTuple "ty list"
  | TTupleStruct "ty list"
  | TStruct "(string \<times> ty) list"
  | TArray nat ty
  | TNewtype ty
  | TUnit
  | TUnitStruct
  | TEnum
  | TUnsupported string

record serializer =
  ser_output :: "bytes option"
  ser_offset :: usize
  ser_opaque :: bool

record deserializer =
  de_input :: bytes
  de_offset :: usize
  remaining :: usize
  de_fields :: "string list"
  de_opaque :: bool

abbreviation client_index_name :: string where
  "client_index_name \<equiv> ''client_index''"

section \<open>Serializer\<close>

definition write_out :: "bytes \<Rightarrow> serializer \<Rightarrow> codec_error + serializer" where
  "write_out bs s =
     rbind (ok_or EncodedLengthOverflow (checked_add (ser_offset s) (length bs))) (\<lambda>end'.
       case ser_output s of
         None \<Rightarrow> Inr (s\<lparr>ser_offset := end'\<rparr>)
       | Some out \<Rightarrow>
           if length out < end' then Inl OutputTooShort
           else Inr (s\<lparr>ser_output := Some (splice out (ser_offset s) bs), ser_offset := end'\<rparr>))"

fun int_bytes :: "bool \<Rightarrow> int_value \<Rightarrow> bytes" where
  "int_bytes opaque (U8 w) = (if opaque then to_ne_bytes 1 w else be_bytes 1 w)"
| "int_bytes opaque (U16 w) = (if opaque then to_ne_bytes 2 w else be_bytes 2 w)"
| "int_bytes opaque (U32 w) = (if opaque then to_ne_bytes 4 w else be_bytes 4 w)"
| "int_bytes opaque (U64 w) = (if opaque then to_ne_bytes 8 w else be_bytes 8 w)"
| "int_bytes opaque (I8 w) = (if opaque then to_ne_bytes 1 w else be_bytes 1 w)"
| "int_bytes opaque (I16 w) = (if opaque then to_ne_bytes 2 w else be_bytes 2 w)"
| "int_bytes opaque (I32 w) = (if opaque then to_ne_bytes 4 w else be_bytes 4 w)"
| "int_bytes opaque (I64 w) = (if opaque then to_ne_bytes 8 w else be_bytes 8 w)"

definition serialize_integer :: "int_value \<Rightarrow> serializer \<Rightarrow> codec_error + serializer" where
  "serialize_integer v s = write_out (int_bytes (ser_opaque s) v) s"

definition serialize_bool :: "bool \<Rightarrow> serializer \<Rightarrow> codec_error + serializer" where
  "serialize_bool b s = write_out [if b then 1 else 0] s"

definition serialize_f64 :: "u64 \<Rightarrow> serializer \<Rightarrow> codec_error + serializer" where
  "serialize_f64 w s = write_out (to_ne_bytes 8 w) s"

definition serialize_bytes :: "bytes \<Rightarrow> serializer \<Rightarrow> codec_error + serializer" where
  "serialize_bytes v s =
     (if 2 ^ 32 \<le> length v then Inl LengthNotU32
      else if (case ser_output s of
                 None \<Rightarrow> False
               | Some out \<Rightarrow> length out - ser_offset s < 4
                   \<or> length out - ser_offset s - 4 < length v)
      then Inl OutputTooShort
      else rbind (write_out (be_bytes 4 (word_of_nat (length v) :: u32)) s) (write_out v))"

definition serialize_str :: "string \<Rightarrow> serializer \<Rightarrow> codec_error + serializer" where
  "serialize_str v = serialize_bytes (str_bytes v)"

definition serialize_seq :: "nat option \<Rightarrow> serializer \<Rightarrow> codec_error + serializer" where
  "serialize_seq len s = (if len = None then Inl ArrayRequiresLength else Inr s)"

fun unsupported_message :: "unsupported \<Rightarrow> string" where
  "unsupported_message I128 = ''i128 is not an API primitive''"
| "unsupported_message U128 = ''u128 is not an API primitive''"
| "unsupported_message F32 = ''f32 is not an API primitive''"
| "unsupported_message Char = ''char is not an API primitive''"
| "unsupported_message NoneValue = ''API fields are not optional''"
| "unsupported_message SomeValue = ''API fields are not optional''"
| "unsupported_message UnitVariant = ''API enums require numeric serialization''"
| "unsupported_message NewtypeVariant = ''API unions require their declared wire layout''"
| "unsupported_message TupleVariant = ''API unions require their declared wire layout''"
| "unsupported_message StructVariant = ''API unions require their declared wire layout''"
| "unsupported_message MapValue = ''maps have no API wire format''"
| "unsupported_message DisplayValue = ''Display is not an API field definition''"

text \<open>\<^verbatim>\<open>SerializeStruct::serialize_field\<close>: the flag is set for the field and then restored.\<close>

definition serialize_field ::
  "string \<Rightarrow> (serializer \<Rightarrow> codec_error + serializer) \<Rightarrow> serializer \<Rightarrow> codec_error + serializer" where
  "serialize_field name value s =
     rbind (value (s\<lparr>ser_opaque := (name = client_index_name)\<rparr>))
       (\<lambda>s'. Inr (s'\<lparr>ser_opaque := ser_opaque s\<rparr>))"

fun serialize_elements ::
  "(serializer \<Rightarrow> codec_error + serializer) list \<Rightarrow> serializer \<Rightarrow> codec_error + serializer" where
  "serialize_elements [] s = Inr s"
| "serialize_elements (v # vs) s = rbind (v s) (serialize_elements vs)"

fun serialize_fields ::
  "(string \<times> (serializer \<Rightarrow> codec_error + serializer)) list \<Rightarrow> serializer \<Rightarrow> codec_error + serializer"
where
  "serialize_fields [] s = Inr s"
| "serialize_fields ((n, v) # fs) s = rbind (serialize_field n v s) (serialize_fields fs)"

primrec serialize_value :: "sval \<Rightarrow> serializer \<Rightarrow> codec_error + serializer" where
  "serialize_value (IntV i) = serialize_integer i"
| "serialize_value (Bool b) = serialize_bool b"
| "serialize_value (F64 w) = serialize_f64 w"
| "serialize_value (Bytes bs) = serialize_bytes bs"
| "serialize_value (Str s) = serialize_str s"
| "serialize_value (Seq len vs) =
     (\<lambda>s. rbind (serialize_seq len s) (serialize_elements (map serialize_value vs)))"
| "serialize_value (Tuple vs) = serialize_elements (map serialize_value vs)"
| "serialize_value (TupleStruct vs) = serialize_elements (map serialize_value vs)"
| "serialize_value (Struct fs) = serialize_fields (map (map_prod id serialize_value) fs)"
| "serialize_value (Newtype v) = serialize_value v"
| "serialize_value Unit = Inr"
| "serialize_value UnitStruct = Inr"
| "serialize_value (Unsupported u) = (\<lambda>_. Inl (UnsupportedValue (unsupported_message u)))"

text \<open>
  The entry points. \<^verbatim>\<open>serialize\<close> returns the number of bytes written; the slice it wrote
  through is the second component.
\<close>

definition serialize :: "sval \<Rightarrow> bytes \<Rightarrow> codec_error + usize \<times> bytes" where
  "serialize v out =
     rbind (serialize_value v \<lparr>ser_output = Some out, ser_offset = 0, ser_opaque = False\<rparr>)
       (\<lambda>s. Inr (ser_offset s, case ser_output s of Some out' \<Rightarrow> out' | None \<Rightarrow> out))"

definition serialized_len :: "sval \<Rightarrow> codec_error + usize" where
  "serialized_len v =
     rbind (serialize_value v \<lparr>ser_output = None, ser_offset = 0, ser_opaque = False\<rparr>)
       (\<lambda>s. Inr (ser_offset s))"

section \<open>Deserializer\<close>

definition new_deserializer :: "bytes \<Rightarrow> deserializer" where
  "new_deserializer bs =
     \<lparr>de_input = bs, de_offset = 0, remaining = 0, de_fields = [], de_opaque = False\<rparr>"

definition remaining_bytes :: "deserializer \<Rightarrow> usize" where
  "remaining_bytes d = length (de_input d) - de_offset d"

definition read_in :: "usize \<Rightarrow> deserializer \<Rightarrow> codec_error + bytes \<times> deserializer" where
  "read_in n d =
     rbind (ok_or TruncatedMessage
             (case checked_add (de_offset d) n of
                None \<Rightarrow> None
              | Some e \<Rightarrow> if e \<le> length (de_input d) then Some e else None))
       (\<lambda>e. Inr (take (e - de_offset d) (drop (de_offset d) (de_input d)), d\<lparr>de_offset := e\<rparr>))"

fun int_width :: "int_ty \<Rightarrow> nat" where
  "int_width TyU8 = 1" | "int_width TyU16 = 2" | "int_width TyU32 = 4" | "int_width TyU64 = 8"
| "int_width TyI8 = 1" | "int_width TyI16 = 2" | "int_width TyI32 = 4" | "int_width TyI64 = 8"

fun int_of_bytes :: "int_ty \<Rightarrow> bool \<Rightarrow> bytes \<Rightarrow> int_value" where
  "int_of_bytes TyU8 opaque bs = U8 (if opaque then from_ne_bytes bs else from_be_bytes bs)"
| "int_of_bytes TyU16 opaque bs = U16 (if opaque then from_ne_bytes bs else from_be_bytes bs)"
| "int_of_bytes TyU32 opaque bs = U32 (if opaque then from_ne_bytes bs else from_be_bytes bs)"
| "int_of_bytes TyU64 opaque bs = U64 (if opaque then from_ne_bytes bs else from_be_bytes bs)"
| "int_of_bytes TyI8 opaque bs = I8 (if opaque then from_ne_bytes bs else from_be_bytes bs)"
| "int_of_bytes TyI16 opaque bs = I16 (if opaque then from_ne_bytes bs else from_be_bytes bs)"
| "int_of_bytes TyI32 opaque bs = I32 (if opaque then from_ne_bytes bs else from_be_bytes bs)"
| "int_of_bytes TyI64 opaque bs = I64 (if opaque then from_ne_bytes bs else from_be_bytes bs)"

definition deserialize_integer :: "int_ty \<Rightarrow> deserializer \<Rightarrow> codec_error + sval \<times> deserializer" where
  "deserialize_integer t d =
     rbind (read_in (int_width t) d) (\<lambda>(bs, d'). Inr (IntV (int_of_bytes t (de_opaque d') bs), d'))"

definition deserialize_bool :: "deserializer \<Rightarrow> codec_error + sval \<times> deserializer" where
  "deserialize_bool d = rbind (read_in 1 d) (\<lambda>(bs, d'). Inr (Bool (bs ! 0 \<noteq> 0), d'))"

definition deserialize_f64 :: "deserializer \<Rightarrow> codec_error + sval \<times> deserializer" where
  "deserialize_f64 d = rbind (read_in 8 d) (\<lambda>(bs, d'). Inr (F64 (from_ne_bytes bs), d'))"

text \<open>The four length-prefixed reads share the prefix; only the visitor differs.\<close>

definition read_prefixed :: "deserializer \<Rightarrow> codec_error + bytes \<times> deserializer" where
  "read_prefixed d =
     rbind (read_in 4 d) (\<lambda>(bs, d'). read_in (unat (from_be_bytes bs :: u32)) d')"

definition deserialize_bytes :: "deserializer \<Rightarrow> codec_error + sval \<times> deserializer" where
  "deserialize_bytes d = rbind (read_prefixed d) (\<lambda>(bs, d'). Inr (Bytes bs, d'))"

definition deserialize_str :: "deserializer \<Rightarrow> codec_error + sval \<times> deserializer" where
  "deserialize_str d =
     rbind (read_prefixed d) (\<lambda>(bs, d').
       rbind (ok_or InvalidUtf8 (from_utf8 bs)) (\<lambda>s. Inr (Str s, d')))"

text \<open>
  \<^verbatim>\<open>Deserializer::sequence\<close> runs a visitor on a fresh element counter and restores the
  parent's afterwards; \<^verbatim>\<open>next_element_seed\<close> serves one element of it.
\<close>

definition sequence ::
  "usize \<Rightarrow> string list \<Rightarrow> (deserializer \<Rightarrow> codec_error + 'v \<times> deserializer) \<Rightarrow>
     deserializer \<Rightarrow> codec_error + 'v \<times> deserializer" where
  "sequence len fs visitor d =
     (if fs = [] \<and> remaining_bytes d < len then Inl TruncatedArray
      else rbind (visitor (d\<lparr>remaining := len, de_fields := fs\<rparr>)) (\<lambda>(v, d').
        if remaining d' \<noteq> 0 then Inl ElementCountMismatch
        else Inr (v, d'\<lparr>remaining := remaining d, de_fields := de_fields d\<rparr>)))"

definition next_element_seed ::
  "(deserializer \<Rightarrow> codec_error + 'v \<times> deserializer) \<Rightarrow>
     deserializer \<Rightarrow> codec_error + 'v option \<times> deserializer" where
  "next_element_seed seed d =
     (if remaining d = 0 then Inr (None, d)
      else let i = length (de_fields d) - remaining d in
        rbind (seed (d\<lparr>de_opaque := (i < length (de_fields d) \<and> de_fields d ! i = client_index_name),
                       remaining := remaining d - 1\<rparr>)) (\<lambda>(v, d').
          if de_fields d = [] \<and> de_offset d' = de_offset d then Inl ZeroSizeElement
          else Inr (Some v, d'\<lparr>de_opaque := de_opaque d\<rparr>)))"

text \<open>
  The visitor of a derived struct, of \<^verbatim>\<open>[T; N]\<close>, of \<^verbatim>\<open>FixedString\<close> and of \<^verbatim>\<open>Array\<close>: one
  element per expected position, an early end is an invalid length.
\<close>

fun visit_seq ::
  "nat \<Rightarrow> (deserializer \<Rightarrow> codec_error + 'v \<times> deserializer) list \<Rightarrow>
     deserializer \<Rightarrow> codec_error + 'v list \<times> deserializer" where
  "visit_seq i [] d = Inr ([], d)"
| "visit_seq i (seed # seeds) d =
     rbind (next_element_seed seed d) (\<lambda>(v, d').
       case v of
         None \<Rightarrow> Inl (InvalidLength i)
       | Some x \<Rightarrow> rbind (visit_seq (Suc i) seeds d') (\<lambda>(xs, d''). Inr (x # xs, d'')))"

primrec deserialize_value :: "ty \<Rightarrow> deserializer \<Rightarrow> codec_error + sval \<times> deserializer" where
  "deserialize_value (TInt t) = deserialize_integer t"
| "deserialize_value TBool = deserialize_bool"
| "deserialize_value TF64 = deserialize_f64"
| "deserialize_value TBytes = deserialize_bytes"
| "deserialize_value TByteBuf = deserialize_bytes"
| "deserialize_value TStr = deserialize_str"
| "deserialize_value TString = deserialize_str"
| "deserialize_value (TTuple ts) =
     (\<lambda>d. rbind (sequence (length ts) [] (visit_seq 0 (map deserialize_value ts)) d)
        (\<lambda>(vs, d'). Inr (Tuple vs, d')))"
| "deserialize_value (TTupleStruct ts) =
     (\<lambda>d. rbind (sequence (length ts) [] (visit_seq 0 (map deserialize_value ts)) d)
        (\<lambda>(vs, d'). Inr (TupleStruct vs, d')))"
| "deserialize_value (TStruct fs) =
     (\<lambda>d. rbind (sequence (length fs) (map fst fs)
                  (visit_seq 0 (map snd (map (map_prod id deserialize_value) fs))) d)
        (\<lambda>(vs, d'). Inr (Struct (zip (map fst fs) vs), d')))"
| "deserialize_value (TArray n t) =
     (\<lambda>d. rbind (sequence n [] (visit_seq 0 (replicate n (deserialize_value t))) d)
        (\<lambda>(vs, d'). Inr (Tuple vs, d')))"
| "deserialize_value (TNewtype t) =
     (\<lambda>d. rbind (deserialize_value t d) (\<lambda>(v, d'). Inr (Newtype v, d')))"
| "deserialize_value TUnit = (\<lambda>d. Inr (Unit, d))"
| "deserialize_value TUnitStruct = (\<lambda>d. Inr (UnitStruct, d))"
| "deserialize_value TEnum = (\<lambda>_. Inl EnumRequiresNumeric)"
| "deserialize_value (TUnsupported m) = (\<lambda>_. Inl (NotWireOperation m))"

definition deserialize :: "ty \<Rightarrow> bytes \<Rightarrow> codec_error + sval" where
  "deserialize t bs = rbind (deserialize_value t (new_deserializer bs)) (\<lambda>(v, d). Inr v)"

definition deserialize_legacy ::
  "ty \<Rightarrow> usize \<Rightarrow> deserializer \<Rightarrow> codec_error + sval \<times> deserializer" where
  "deserialize_legacy t element_size d =
     (if element_size = 0 \<or> remaining_bytes d mod element_size \<noteq> 0 then Inl LegacyLengthMismatch
      else deserialize_value (TArray (remaining_bytes d div element_size) t) d)"

text \<open>\<^verbatim>\<open>codec::String::new\<close> refuses a buffer whose length does not fit the 32-bit prefix.\<close>

definition api_string :: "bytes \<Rightarrow> codec_error + sval" where
  "api_string buf = (if 2 ^ 32 \<le> length buf then Inl LengthNotU32 else Inr (Bytes buf))"

end
