(* ===== verification/Codec_Wire.thy ===== *)
theory Codec_Wire
  imports Codec
begin

text \<open>
  The wire format as a pure function (\<open>wire\<close>) and the laws of the codec against it: the
  serializer writes exactly \<open>wire v\<close> when the value is encodable and the slice has room, and
  fails otherwise; the deserializer reads back every typed value; whatever it returns has the
  type it was asked for and it never reads past its input.
\<close>

section \<open>The wire format\<close>

primrec wire :: "sval \<Rightarrow> bool \<Rightarrow> bytes" where
  "wire (IntV i) = (\<lambda>opq. int_bytes opq i)"
| "wire (Bool b) = (\<lambda>_. [if b then 1 else 0])"
| "wire (F64 w) = (\<lambda>_. to_ne_bytes 8 w)"
| "wire (Bytes bs) = (\<lambda>_. be_bytes 4 (word_of_nat (length bs) :: u32) @ bs)"
| "wire (Str s) = (\<lambda>_. be_bytes 4 (word_of_nat (length s) :: u32) @ str_bytes s)"
| "wire (Seq len vs) = (\<lambda>opq. concat (map (\<lambda>e. e opq) (map wire vs)))"
| "wire (Tuple vs) = (\<lambda>opq. concat (map (\<lambda>e. e opq) (map wire vs)))"
| "wire (TupleStruct vs) = (\<lambda>opq. concat (map (\<lambda>e. e opq) (map wire vs)))"
| "wire (Struct fs) =
     (\<lambda>_. concat (map (\<lambda>f. snd f (fst f = client_index_name)) (map (map_prod id wire) fs)))"
| "wire (Newtype v) = wire v"
| "wire Unit = (\<lambda>_. [])"
| "wire UnitStruct = (\<lambda>_. [])"
| "wire (Unsupported u) = (\<lambda>_. [])"

primrec encodable :: "sval \<Rightarrow> bool" where
  "encodable (IntV i) = True"
| "encodable (Bool b) = True"
| "encodable (F64 w) = True"
| "encodable (Bytes bs) = (length bs < 2 ^ 32)"
| "encodable (Str s) = (length s < 2 ^ 32)"
| "encodable (Seq len vs) = (len \<noteq> None \<and> list_all id (map encodable vs))"
| "encodable (Tuple vs) = list_all id (map encodable vs)"
| "encodable (TupleStruct vs) = list_all id (map encodable vs)"
| "encodable (Struct fs) = list_all snd (map (map_prod id encodable) fs)"
| "encodable (Newtype v) = encodable v"
| "encodable Unit = True"
| "encodable UnitStruct = True"
| "encodable (Unsupported u) = False"

section \<open>The serializer implements the wire format\<close>

definition fits :: "serializer \<Rightarrow> nat \<Rightarrow> bool" where
  "fits s n \<longleftrightarrow> ser_offset s + n < usize_bound \<and>
     (case ser_output s of None \<Rightarrow> True | Some out \<Rightarrow> ser_offset s + n \<le> length out)"

definition advance :: "serializer \<Rightarrow> bytes \<Rightarrow> serializer" where
  "advance s bs =
     s\<lparr>ser_output := map_option (\<lambda>out. splice out (ser_offset s) bs) (ser_output s),
       ser_offset := ser_offset s + length bs\<rparr>"

text \<open>An action \<open>emits\<close> an encoding: it succeeds exactly when it may and there is room.\<close>

definition emits ::
  "(serializer \<Rightarrow> codec_error + serializer) \<Rightarrow> bool \<Rightarrow> (bool \<Rightarrow> bytes) \<Rightarrow> bool" where
  "emits f ok e \<longleftrightarrow>
     (\<forall>s s'. fits s 0 \<longrightarrow>
        (f s = Inr s' \<longleftrightarrow> ok \<and> fits s (length (e (ser_opaque s))) \<and> s' = advance s (e (ser_opaque s))))"

lemma emitsD:
  "emits f ok e \<Longrightarrow> fits s 0 \<Longrightarrow>
     f s = Inr s' \<longleftrightarrow> ok \<and> fits s (length (e (ser_opaque s))) \<and> s' = advance s (e (ser_opaque s))"
  by (simp add: emits_def)

lemma ser_opaque_advance [simp]: "ser_opaque (advance s bs) = ser_opaque s"
  by (simp add: advance_def)

lemma fits_advance:
  "fits s (length bs) \<Longrightarrow> fits (advance s bs) n \<longleftrightarrow> fits s (length bs + n)"
  by (auto simp: fits_def advance_def add.assoc split: option.splits)

lemma fits_weaken: "fits s n \<Longrightarrow> m \<le> n \<Longrightarrow> fits s m"
  by (auto simp: fits_def split: option.splits)

lemma fits_opaque [simp]: "fits (s\<lparr>ser_opaque := b\<rparr>) n = fits s n"
  by (auto simp: fits_def split: option.splits)

lemma advance_advance:
  "fits s (length bs + length cs) \<Longrightarrow> advance (advance s bs) cs = advance s (bs @ cs)"
  by (auto simp: fits_def advance_def splice_append add.assoc split: option.splits)

lemma advance_Nil: "fits s 0 \<Longrightarrow> advance s [] = s"
  by (cases s) (auto simp: fits_def advance_def split: option.splits)

lemma write_out_emits: "emits (write_out bs) True (\<lambda>_. bs)"
  by (auto simp: emits_def write_out_def fits_def advance_def rbind_Inr split: option.splits)

lemma write_out_Inr:
  "fits s 0 \<Longrightarrow> write_out bs s = Inr s' \<longleftrightarrow> fits s (length bs) \<and> s' = advance s bs"
  using emitsD [OF write_out_emits] by auto

lemma serialize_bytes_emits:
  "emits (serialize_bytes v) (length v < 2 ^ 32)
     (\<lambda>_. be_bytes 4 (word_of_nat (length v) :: u32) @ v)"
  unfolding emits_def
proof (intro allI impI)
  fix s s'
  let ?len = "be_bytes 4 (word_of_nat (length v) :: u32)"
  assume ok: "fits s 0"
  have room: "(case ser_output s of None \<Rightarrow> False
      | Some out \<Rightarrow> length out - ser_offset s < 4 \<or> length out - ser_offset s - 4 < length v) \<Longrightarrow>
      \<not> fits s (4 + length v)"
    using ok by (auto simp: fits_def split: option.splits)
  have seq: "rbind (write_out ?len s) (write_out v) = Inr s' \<longleftrightarrow>
      fits s (4 + length v) \<and> s' = advance s (?len @ v)"
  proof (cases "fits s 4")
    case True
    then have adv: "fits (advance s ?len) 0"
      using fits_advance [of s ?len 0] by simp
    from True ok have "write_out ?len s = Inr (advance s ?len)"
      by (simp add: write_out_Inr)
    then show ?thesis
      using True fits_advance [of s ?len "length v"]
      by (auto simp: write_out_Inr [OF adv] advance_advance)
  next
    case False
    then have "\<not> fits s (4 + length v)"
      using fits_weaken by fastforce
    moreover have "rbind (write_out ?len s) (write_out v) \<noteq> Inr s'"
      using False ok by (auto simp: rbind_Inr write_out_Inr)
    ultimately show ?thesis by simp
  qed
  show "serialize_bytes v s = Inr s' \<longleftrightarrow>
      length v < 2 ^ 32 \<and> fits s (length (?len @ v)) \<and> s' = advance s (?len @ v)"
    using room seq by (auto simp: serialize_bytes_def)
qed

lemma serialize_elements_emits:
  assumes "\<And>v. v \<in> set vs \<Longrightarrow> emits (f v) (p v) (e v)"
  shows "emits (serialize_elements (map f vs)) (list_all p vs) (\<lambda>opq. concat (map (\<lambda>v. e v opq) vs))"
  using assms
proof (induction vs)
  case Nil
  then show ?case by (auto simp: emits_def advance_Nil)
next
  case (Cons v vs)
  have hd: "emits (f v) (p v) (e v)" and tl: "emits (serialize_elements (map f vs)) (list_all p vs)
      (\<lambda>opq. concat (map (\<lambda>v. e v opq) vs))"
    using Cons by simp_all
  show ?case
    unfolding emits_def
  proof (intro allI impI)
    fix s s'
    assume ok: "fits s 0"
    let ?b = "e v (ser_opaque s)" and ?c = "concat (map (\<lambda>v. e v (ser_opaque s)) vs)"
    have step: "f v s = Inr t \<longleftrightarrow> p v \<and> fits s (length ?b) \<and> t = advance s ?b" for t
      by (rule emitsD [OF hd ok])
    have rest: "serialize_elements (map f vs) (advance s ?b) = Inr s' \<longleftrightarrow>
        list_all p vs \<and> fits s (length ?b + length ?c) \<and> s' = advance s (?b @ ?c)"
      if "fits s (length ?b)"
      using that emitsD [OF tl, of "advance s ?b" s'] fits_advance [of s ?b]
      by (auto simp: advance_advance)
    show "serialize_elements (map f (v # vs)) s = Inr s' \<longleftrightarrow> list_all p (v # vs) \<and>
        fits s (length (concat (map (\<lambda>v. e v (ser_opaque s)) (v # vs)))) \<and>
        s' = advance s (concat (map (\<lambda>v. e v (ser_opaque s)) (v # vs)))"
    proof (cases "p v \<and> fits s (length ?b)")
      case True
      then have "f v s = Inr (advance s ?b)"
        using step by simp
      then show ?thesis
        using True rest by simp
    next
      case False
      then have "serialize_elements (map f (v # vs)) s \<noteq> Inr s'"
        by (auto simp: rbind_Inr step)
      moreover have "\<not> (p v \<and> fits s (length ?b + length ?c))"
        using False fits_weaken [of s "length ?b + length ?c" "length ?b"] by auto
      ultimately show ?thesis by auto
    qed
  qed
qed

lemma serialize_field_emits:
  assumes "emits f p e"
  shows "emits (serialize_field n f) p (\<lambda>_. e (n = client_index_name))"
  unfolding emits_def
proof (intro allI impI)
  fix s s'
  assume "fits s 0"
  then show "serialize_field n f s = Inr s' \<longleftrightarrow> p \<and> fits s (length (e (n = client_index_name))) \<and>
      s' = advance s (e (n = client_index_name))"
    using emitsD [OF assms, of "s\<lparr>ser_opaque := (n = client_index_name)\<rparr>"]
    by (auto simp: serialize_field_def rbind_Inr advance_def)
qed

lemma serialize_fields_elements:
  "serialize_fields fs s = serialize_elements (map (\<lambda>f. serialize_field (fst f) (snd f)) fs) s"
  by (induction fs s rule: serialize_fields.induct) (auto intro: rbind_cong)

lemma serialize_fields_emits:
  assumes "\<And>f. f \<in> set fs \<Longrightarrow> emits (act (snd f)) (p (snd f)) (e (snd f))"
  shows "emits (serialize_fields (map (map_prod id act) fs)) (list_all (\<lambda>f. p (snd f)) fs)
     (\<lambda>_. concat (map (\<lambda>f. e (snd f) (fst f = client_index_name)) fs))"
  using serialize_elements_emits [where f = "\<lambda>f. serialize_field (fst f) (act (snd f))",
      OF serialize_field_emits, OF assms]
  by (simp add: emits_def serialize_fields_elements comp_def)

lemma serialize_value_emits: "emits (serialize_value v) (encodable v) (wire v)"
proof (induction v)
  case (IntV i)
  then show ?case
    using write_out_emits by (auto simp: emits_def serialize_integer_def)
next
  case (Bool b)
  then show ?case
    using write_out_emits by (auto simp: emits_def serialize_bool_def)
next
  case (F64 w)
  then show ?case
    using write_out_emits by (auto simp: emits_def serialize_f64_def)
next
  case (Bytes bs)
  then show ?case using serialize_bytes_emits by simp
next
  case (Str s)
  then show ?case
    using serialize_bytes_emits [of "str_bytes s"] by (simp add: serialize_str_def [abs_def])
next
  case (Seq len vs)
  have *: "emits (serialize_elements (map serialize_value vs)) (list_all encodable vs)
      (\<lambda>opq. concat (map (\<lambda>v. wire v opq) vs))"
    by (rule serialize_elements_emits) (rule Seq)
  then show ?case
    by (auto simp: emits_def serialize_seq_def comp_def list.pred_map)
next
  case (Tuple vs)
  then show ?case
    using serialize_elements_emits [of vs serialize_value encodable wire]
    by (simp add: comp_def list.pred_map)
next
  case (TupleStruct vs)
  then show ?case
    using serialize_elements_emits [of vs serialize_value encodable wire]
    by (simp add: comp_def list.pred_map)
next
  case (Struct fs)
  have "emits (serialize_value (snd f)) (encodable (snd f)) (wire (snd f))" if "f \<in> set fs" for f
    using Struct that by (cases f) (auto simp: snds.simps)
  then show ?case
    using serialize_fields_emits [of fs serialize_value encodable wire]
    by (simp add: comp_def list.pred_map)
next
  case (Newtype v)
  then show ?case by simp
next
  case Unit
  then show ?case by (auto simp: emits_def advance_Nil)
next
  case UnitStruct
  then show ?case by (auto simp: emits_def advance_Nil)
next
  case (Unsupported u)
  then show ?case by (simp add: emits_def)
qed

lemma serialize_value_Inr:
  "fits s 0 \<Longrightarrow> serialize_value v s = Inr s' \<longleftrightarrow>
     encodable v \<and> fits s (length (wire v (ser_opaque s))) \<and> s' = advance s (wire v (ser_opaque s))"
  by (rule emitsD [OF serialize_value_emits])

lemma fits_start:
  "fits \<lparr>ser_output = Some out, ser_offset = 0, ser_opaque = b\<rparr> n \<longleftrightarrow> n < usize_bound \<and> n \<le> length out"
  "fits \<lparr>ser_output = None, ser_offset = 0, ser_opaque = b\<rparr> n \<longleftrightarrow> n < usize_bound"
  by (simp_all add: fits_def)

lemma usize_bound_pos [simp]: "0 < usize_bound"
  by (simp add: usize_bound_def)

lemma serialize_Inr:
  "serialize v out = Inr (n, out') \<longleftrightarrow>
     encodable v \<and> n = length (wire v False) \<and> n < usize_bound \<and> n \<le> length out \<and>
     out' = wire v False @ drop n out"
  by (auto simp: serialize_def rbind_Inr serialize_value_Inr fits_start advance_def splice_def)

lemma serialized_len_Inr:
  "serialized_len v = Inr n \<longleftrightarrow> encodable v \<and> n = length (wire v False) \<and> n < usize_bound"
  by (auto simp: serialized_len_def rbind_Inr serialize_value_Inr fits_start advance_def)


section \<open>Typed values\<close>

fun int_ty_of :: "int_value \<Rightarrow> int_ty" where
  "int_ty_of (U8 w) = TyU8" | "int_ty_of (U16 w) = TyU16"
| "int_ty_of (U32 w) = TyU32" | "int_ty_of (U64 w) = TyU64"
| "int_ty_of (I8 w) = TyI8" | "int_ty_of (I16 w) = TyI16"
| "int_ty_of (I32 w) = TyI32" | "int_ty_of (I64 w) = TyI64"

primrec has_ty :: "ty \<Rightarrow> sval \<Rightarrow> bool" where
  "has_ty (TInt t) = (\<lambda>v. case v of IntV i \<Rightarrow> int_ty_of i = t | _ \<Rightarrow> False)"
| "has_ty TBool = (\<lambda>v. case v of Bool b \<Rightarrow> True | _ \<Rightarrow> False)"
| "has_ty TF64 = (\<lambda>v. case v of F64 w \<Rightarrow> True | _ \<Rightarrow> False)"
| "has_ty TBytes = (\<lambda>v. case v of Bytes bs \<Rightarrow> length bs < 2 ^ 32 | _ \<Rightarrow> False)"
| "has_ty TByteBuf = (\<lambda>v. case v of Bytes bs \<Rightarrow> length bs < 2 ^ 32 | _ \<Rightarrow> False)"
| "has_ty TStr = (\<lambda>v. case v of Str s \<Rightarrow> rust_str s \<and> length s < 2 ^ 32 | _ \<Rightarrow> False)"
| "has_ty TString = (\<lambda>v. case v of Str s \<Rightarrow> rust_str s \<and> length s < 2 ^ 32 | _ \<Rightarrow> False)"
| "has_ty (TTuple ts) =
     (\<lambda>v. case v of Tuple vs \<Rightarrow> list_all2 (\<lambda>p x. p x) (map has_ty ts) vs | _ \<Rightarrow> False)"
| "has_ty (TTupleStruct ts) =
     (\<lambda>v. case v of TupleStruct vs \<Rightarrow> list_all2 (\<lambda>p x. p x) (map has_ty ts) vs | _ \<Rightarrow> False)"
| "has_ty (TStruct fs) =
     (\<lambda>v. case v of
        Struct gs \<Rightarrow> list_all2 (\<lambda>f g. fst f = fst g \<and> snd f (snd g)) (map (map_prod id has_ty) fs) gs
      | _ \<Rightarrow> False)"
| "has_ty (TArray n t) =
     (\<lambda>v. case v of Tuple vs \<Rightarrow> length vs = n \<and> list_all (has_ty t) vs | _ \<Rightarrow> False)"
| "has_ty (TNewtype t) = (\<lambda>v. case v of Newtype x \<Rightarrow> has_ty t x | _ \<Rightarrow> False)"
| "has_ty TUnit = (\<lambda>v. v = Unit)"
| "has_ty TUnitStruct = (\<lambda>v. v = UnitStruct)"
| "has_ty TEnum = (\<lambda>_. False)"
| "has_ty (TUnsupported m) = (\<lambda>_. False)"

text \<open>The fewest bytes a value of the type takes on the wire.\<close>

primrec wire_min :: "ty \<Rightarrow> nat" where
  "wire_min (TInt t) = int_width t"
| "wire_min TBool = 1"
| "wire_min TF64 = 8"
| "wire_min TBytes = 4"
| "wire_min TByteBuf = 4"
| "wire_min TStr = 4"
| "wire_min TString = 4"
| "wire_min (TTuple ts) = sum_list (map wire_min ts)"
| "wire_min (TTupleStruct ts) = sum_list (map wire_min ts)"
| "wire_min (TStruct fs) = sum_list (map snd (map (map_prod id wire_min) fs))"
| "wire_min (TArray n t) = n * wire_min t"
| "wire_min (TNewtype t) = wire_min t"
| "wire_min TUnit = 0"
| "wire_min TUnitStruct = 0"
| "wire_min TEnum = 0"
| "wire_min (TUnsupported m) = 0"

text \<open>
  The types the format round-trips: every array element takes wire bytes, and no array or
  tuple stands directly in a \<^verbatim>\<open>client_index\<close> field (the serializer would carry the opaque flag
  into its elements, the deserializer would not).
\<close>

primrec round_trips :: "ty \<Rightarrow> bool \<Rightarrow> bool" where
  "round_trips (TInt t) = (\<lambda>_. True)"
| "round_trips TBool = (\<lambda>_. True)"
| "round_trips TF64 = (\<lambda>_. True)"
| "round_trips TBytes = (\<lambda>_. True)"
| "round_trips TByteBuf = (\<lambda>_. True)"
| "round_trips TStr = (\<lambda>_. True)"
| "round_trips TString = (\<lambda>_. True)"
| "round_trips (TTuple ts) =
     (\<lambda>opq. \<not> opq \<and> list_all (\<lambda>t. 0 < wire_min t) ts \<and> list_all (\<lambda>r. r False) (map round_trips ts))"
| "round_trips (TTupleStruct ts) =
     (\<lambda>opq. \<not> opq \<and> list_all (\<lambda>t. 0 < wire_min t) ts \<and> list_all (\<lambda>r. r False) (map round_trips ts))"
| "round_trips (TStruct fs) =
     (\<lambda>_. list_all (\<lambda>f. snd f (fst f = client_index_name)) (map (map_prod id round_trips) fs))"
| "round_trips (TArray n t) = (\<lambda>opq. \<not> opq \<and> 0 < wire_min t \<and> round_trips t False)"
| "round_trips (TNewtype t) = round_trips t"
| "round_trips TUnit = (\<lambda>_. True)"
| "round_trips TUnitStruct = (\<lambda>_. True)"
| "round_trips TEnum = (\<lambda>_. False)"
| "round_trips (TUnsupported m) = (\<lambda>_. False)"

lemma length_int_bytes [simp]: "length (int_bytes opq i) = int_width (int_ty_of i)"
  by (cases i) auto

lemma int_of_bytes_int_bytes [simp]: "int_of_bytes (int_ty_of i) opq (int_bytes opq i) = i"
  by (cases i) auto

lemma has_ty_tuple_iff:
  "list_all2 (\<lambda>p x. p x) (map has_ty ts) vs \<longleftrightarrow> list_all2 has_ty ts vs"
  by (simp add: list_all2_map1)

lemma has_ty_struct_iff:
  "list_all2 (\<lambda>f g. fst f = fst g \<and> snd f (snd g)) (map (map_prod id has_ty) fs) gs \<longleftrightarrow>
     list_all2 (\<lambda>f g. fst f = fst g \<and> has_ty (snd f) (snd g)) fs gs"
  by (simp add: list_all2_map1)

lemma list_all_via_types:
  assumes "list_all2 R ts vs" and "\<And>t v. t \<in> set ts \<Longrightarrow> R t v \<Longrightarrow> P v"
  shows "list_all P vs"
  using assms by (induction rule: list_all2_induct) auto

lemma has_ty_encodable: "has_ty t v \<Longrightarrow> encodable v"
proof (induction t arbitrary: v)
  case (TTuple ts)
  then obtain vs where v: "v = Tuple vs" and "list_all2 has_ty ts vs"
    by (auto simp: has_ty_tuple_iff split: sval.splits)
  then have "list_all encodable vs"
    using TTuple.IH by (blast intro: list_all_via_types)
  with v show ?case by (simp add: list.pred_map)
next
  case (TTupleStruct ts)
  then obtain vs where v: "v = TupleStruct vs" and "list_all2 has_ty ts vs"
    by (auto simp: has_ty_tuple_iff split: sval.splits)
  then have "list_all encodable vs"
    using TTupleStruct.IH by (blast intro: list_all_via_types)
  with v show ?case by (simp add: list.pred_map)
next
  case (TStruct fs)
  then obtain gs where v: "v = Struct gs"
    and ty: "list_all2 (\<lambda>f g. fst f = fst g \<and> has_ty (snd f) (snd g)) fs gs"
    by (auto simp: has_ty_struct_iff split: sval.splits)
  have "encodable (snd g)" if "f \<in> set fs" and "fst f = fst g \<and> has_ty (snd f) (snd g)" for f g
    using TStruct.IH [of f "snd f" "snd g"] that by (auto simp: snds.simps)
  then have "list_all (\<lambda>g. encodable (snd g)) gs"
    using list_all_via_types [OF ty, of "\<lambda>g. encodable (snd g)"] by blast
  with v show ?case by (simp add: list.pred_map comp_def)
next
  case (TArray n t)
  then show ?case
    by (auto simp: list_all_iff split: sval.splits)
qed (auto split: sval.splits)

lemma sum_list_via_types:
  fixes m :: "'a \<Rightarrow> nat"
  assumes "list_all2 R ts vs" and "\<And>t v. t \<in> set ts \<Longrightarrow> R t v \<Longrightarrow> m t \<le> length (e v)"
  shows "sum_list (map m ts) \<le> length (concat (map e vs))"
  using assms
proof (induction rule: list_all2_induct)
  case Nil
  then show ?case by simp
next
  case (Cons t ts v vs)
  then have "m t \<le> length (e v)" and "sum_list (map m ts) \<le> length (concat (map e vs))"
    by simp_all
  then show ?case by simp
qed

lemma wire_min_le: "has_ty t v \<Longrightarrow> wire_min t \<le> length (wire v opq)"
proof (induction t arbitrary: v opq)
  case (TTuple ts)
  then obtain vs where v: "v = Tuple vs" and "list_all2 has_ty ts vs"
    by (auto simp: has_ty_tuple_iff split: sval.splits)
  then have "sum_list (map wire_min ts) \<le> length (concat (map (\<lambda>v. wire v opq) vs))"
    using TTuple.IH by (blast intro: sum_list_via_types)
  with v show ?case by (simp add: comp_def)
next
  case (TTupleStruct ts)
  then obtain vs where v: "v = TupleStruct vs" and "list_all2 has_ty ts vs"
    by (auto simp: has_ty_tuple_iff split: sval.splits)
  then have "sum_list (map wire_min ts) \<le> length (concat (map (\<lambda>v. wire v opq) vs))"
    using TTupleStruct.IH by (blast intro: sum_list_via_types)
  with v show ?case by (simp add: comp_def)
next
  case (TStruct fs)
  then obtain gs where v: "v = Struct gs"
    and ty: "list_all2 (\<lambda>f g. fst f = fst g \<and> has_ty (snd f) (snd g)) fs gs"
    by (auto simp: has_ty_struct_iff split: sval.splits)
  have "wire_min (snd f) \<le> length (wire (snd g) (fst g = client_index_name))"
    if "f \<in> set fs" and "fst f = fst g \<and> has_ty (snd f) (snd g)" for f g
    using TStruct.IH [of f "snd f" "snd g"] that by (auto simp: snds.simps)
  then have "sum_list (map (\<lambda>f. wire_min (snd f)) fs) \<le>
      length (concat (map (\<lambda>g. wire (snd g) (fst g = client_index_name)) gs))"
    using sum_list_via_types [OF ty, where m = "\<lambda>f. wire_min (snd f)"
        and e = "\<lambda>g. wire (snd g) (fst g = client_index_name)"]
    by blast
  with v show ?case by (simp add: comp_def)
next
  case (TArray n t)
  then obtain vs where v: "v = Tuple vs" "length vs = n" and ty: "list_all (has_ty t) vs"
    by (auto split: sval.splits)
  have "list_all2 (\<lambda>_ x. has_ty t x) vs vs"
    using ty by (simp add: list_all2_same list_all_iff)
  then have "sum_list (map (\<lambda>_. wire_min t) vs) \<le> length (concat (map (\<lambda>x. wire x opq) vs))"
    using TArray.IH by (blast intro: sum_list_via_types)
  with v show ?case by (simp add: comp_def sum_list_triv)
qed (auto split: sval.splits)

section \<open>Reading a value back\<close>

definition at :: "deserializer \<Rightarrow> bytes \<Rightarrow> bool" where
  "at d bs \<longleftrightarrow> (\<exists>rest. drop (de_offset d) (de_input d) = bs @ rest) \<and>
     de_offset d \<le> length (de_input d) \<and> length (de_input d) < usize_bound"

definition skip :: "deserializer \<Rightarrow> nat \<Rightarrow> deserializer" where
  "skip d n = d\<lparr>de_offset := de_offset d + n\<rparr>"

lemma skip_simps [simp]:
  "de_input (skip d n) = de_input d"
  "de_offset (skip d n) = de_offset d + n"
  "remaining (skip d n) = remaining d"
  "de_fields (skip d n) = de_fields d"
  "de_opaque (skip d n) = de_opaque d"
  "skip (skip d n) m = skip d (n + m)"
  "skip d 0 = d"
  by (simp_all add: skip_def add.assoc)

lemma skip_updates:
  "skip (d\<lparr>remaining := r\<rparr>) n = (skip d n)\<lparr>remaining := r\<rparr>"
  "skip (d\<lparr>de_fields := fs\<rparr>) n = (skip d n)\<lparr>de_fields := fs\<rparr>"
  "skip (d\<lparr>de_opaque := b\<rparr>) n = (skip d n)\<lparr>de_opaque := b\<rparr>"
  by (simp_all add: skip_def)

lemma at_updates [simp]:
  "at (d\<lparr>remaining := r\<rparr>) bs = at d bs"
  "at (d\<lparr>de_fields := fs\<rparr>) bs = at d bs"
  "at (d\<lparr>de_opaque := b\<rparr>) bs = at d bs"
  by (simp_all add: at_def)

lemma at_append: "at d (bs @ cs) \<longleftrightarrow> at d bs \<and> at (skip d (length bs)) cs"
proof
  assume "at d (bs @ cs)"
  then obtain rest where *: "drop (de_offset d) (de_input d) = bs @ cs @ rest"
    and "de_offset d \<le> length (de_input d)" "length (de_input d) < usize_bound"
    by (auto simp: at_def)
  moreover from * have "length (de_input d) - de_offset d = length bs + length cs + length rest"
    by (metis add.assoc length_append length_drop)
  moreover from * have "drop (de_offset d + length bs) (de_input d) = cs @ rest"
    by (metis add.commute append_eq_conv_conj drop_drop)
  ultimately show "at d bs \<and> at (skip d (length bs)) cs"
    by (auto simp: at_def)
next
  assume "at d bs \<and> at (skip d (length bs)) cs"
  then obtain r r' where "drop (de_offset d) (de_input d) = bs @ r"
    and "drop (de_offset d + length bs) (de_input d) = cs @ r'"
    and b: "de_offset d \<le> length (de_input d)" "length (de_input d) < usize_bound"
    by (auto simp: at_def)
  then have "drop (de_offset d) (de_input d) = (bs @ cs) @ r'"
    by (metis add.commute append.assoc append_eq_conv_conj drop_drop)
  with b show "at d (bs @ cs)" by (auto simp: at_def)
qed

lemma at_length: "at d bs \<Longrightarrow> length bs \<le> remaining_bytes d"
  unfolding at_def remaining_bytes_def by (metis le_add1 length_append length_drop)

lemma read_in_at: "at d bs \<Longrightarrow> read_in (length bs) d = Inr (bs, skip d (length bs))"
proof -
  assume a: "at d bs"
  then obtain rest where "drop (de_offset d) (de_input d) = bs @ rest" by (auto simp: at_def)
  moreover have "de_offset d + length bs \<le> length (de_input d)"
    using at_length [OF a] a by (auto simp: remaining_bytes_def at_def)
  ultimately show ?thesis
    using a by (auto simp: read_in_def rbind_def skip_def at_def checked_add_def)
qed

lemma read_in_Inr:
  "read_in n d = Inr (bs, d') \<longleftrightarrow>
     de_offset d + n < usize_bound \<and> de_offset d + n \<le> length (de_input d) \<and>
     bs = take n (drop (de_offset d) (de_input d)) \<and> d' = skip d n"
  by (auto simp: read_in_def rbind_Inr skip_def checked_add_def split: option.splits if_splits)

text \<open>\<open>parses opq seed v bs\<close>: at the bytes \<open>bs\<close> the seed returns \<open>v\<close> and consumes exactly them.\<close>

definition parses ::
  "bool \<Rightarrow> (deserializer \<Rightarrow> codec_error + 'v \<times> deserializer) \<Rightarrow> 'v \<Rightarrow> bytes \<Rightarrow> bool" where
  "parses opq seed v bs \<longleftrightarrow>
     (\<forall>d. de_opaque d = opq \<longrightarrow> at d bs \<longrightarrow> seed d = Inr (v, skip d (length bs)))"

lemma next_element_array:
  assumes "de_fields d = []" and "remaining d = Suc n" and "parses False seed v bs"
    and "bs \<noteq> []" and "at d bs"
  shows "next_element_seed seed d = Inr (Some v, (skip d (length bs))\<lparr>remaining := n\<rparr>)"
  using assms by (simp add: next_element_seed_def parses_def skip_updates)

lemma next_element_field:
  assumes "remaining d = Suc n" and "i = length (de_fields d) - Suc n" and "i < length (de_fields d)"
    and "parses (de_fields d ! i = client_index_name) seed v bs" and "at d bs"
  shows "next_element_seed seed d = Inr (Some v, (skip d (length bs))\<lparr>remaining := n\<rparr>)"
  using assms by (auto simp: next_element_seed_def parses_def skip_updates)

lemma visit_seq_array:
  assumes "\<And>x. x \<in> set xs \<Longrightarrow> parses False (sd x) (val x) (by x) \<and> by x \<noteq> []"
    and "de_fields d = []" and "remaining d = length xs" and "at d (concat (map by xs))"
  shows "visit_seq i (map sd xs) d =
     Inr (map val xs, (skip d (length (concat (map by xs))))\<lparr>remaining := 0\<rparr>)"
  using assms
proof (induction xs arbitrary: d i)
  case Nil
  then show ?case by (cases d) (simp add: skip_def)
next
  case (Cons x xs)
  then have x: "parses False (sd x) (val x) (by x)" "by x \<noteq> []" "at d (by x)"
      "at (skip d (length (by x))) (concat (map by xs))"
    by (auto simp: at_append)
  have "next_element_seed (sd x) d = Inr (Some (val x), (skip d (length (by x)))\<lparr>remaining := length xs\<rparr>)"
    using Cons.prems x by (intro next_element_array) simp_all
  moreover have "visit_seq (Suc i) (map sd xs) ((skip d (length (by x)))\<lparr>remaining := length xs\<rparr>) =
      Inr (map val xs, (skip d (length (by x) + length (concat (map by xs))))\<lparr>remaining := 0\<rparr>)"
    using Cons.IH [of "(skip d (length (by x)))\<lparr>remaining := length xs\<rparr>" "Suc i"] Cons.prems x
    by (simp add: skip_updates)
  ultimately show ?case by simp
qed

lemma visit_seq_fields:
  assumes "\<And>x. x \<in> set xs \<Longrightarrow> parses (nm x = client_index_name) (sd x) (val x) (by x)"
    and "de_fields d = done @ map nm xs" and "remaining d = length xs"
    and "at d (concat (map by xs))"
  shows "visit_seq i (map sd xs) d =
     Inr (map val xs, (skip d (length (concat (map by xs))))\<lparr>remaining := 0\<rparr>)"
  using assms
proof (induction xs arbitrary: d i "done")
  case Nil
  then show ?case by (cases d) (simp add: skip_def)
next
  case (Cons x xs)
  then have x: "parses (nm x = client_index_name) (sd x) (val x) (by x)" "at d (by x)"
      "at (skip d (length (by x))) (concat (map by xs))"
    by (auto simp: at_append)
  have "de_fields d ! length done = nm x"
    using Cons.prems by simp
  then have "next_element_seed (sd x) d =
      Inr (Some (val x), (skip d (length (by x)))\<lparr>remaining := length xs\<rparr>)"
    using Cons.prems x by (intro next_element_field [where i = "length done"]) simp_all
  moreover have "visit_seq (Suc i) (map sd xs) ((skip d (length (by x)))\<lparr>remaining := length xs\<rparr>) =
      Inr (map val xs, (skip d (length (by x) + length (concat (map by xs))))\<lparr>remaining := 0\<rparr>)"
    using Cons.IH [of "(skip d (length (by x)))\<lparr>remaining := length xs\<rparr>" "done @ [nm x]" "Suc i"]
      Cons.prems x
    by (simp add: skip_updates)
  ultimately show ?case by simp
qed

lemma parses_sequence_array:
  assumes "\<And>x. x \<in> set xs \<Longrightarrow> parses False (sd x) (val x) (by x) \<and> by x \<noteq> []"
  shows "parses opq (sequence (length xs) [] (visit_seq 0 (map sd xs))) (map val xs) (concat (map by xs))"
  unfolding parses_def
proof (intro allI impI)
  fix d
  assume a: "at d (concat (map by xs))"
  have "length xs \<le> length (concat (map by xs))"
    using assms by (intro length_concat_nonempty) blast
  with at_length [OF a] have "\<not> remaining_bytes d < length xs" by simp
  moreover have "visit_seq 0 (map sd xs) (d\<lparr>remaining := length xs, de_fields := []\<rparr>) =
      Inr (map val xs, (skip (d\<lparr>remaining := length xs, de_fields := []\<rparr>)
        (length (concat (map by xs))))\<lparr>remaining := 0\<rparr>)"
    by (rule visit_seq_array) (use assms a in auto)
  ultimately show "sequence (length xs) [] (visit_seq 0 (map sd xs)) d =
      Inr (map val xs, skip d (length (concat (map by xs))))"
    by (simp add: sequence_def skip_updates)
qed

lemma parses_sequence_fields:
  assumes "\<And>x. x \<in> set xs \<Longrightarrow> parses (nm x = client_index_name) (sd x) (val x) (by x)"
  shows "parses opq (sequence (length xs) (map nm xs) (visit_seq 0 (map sd xs))) (map val xs)
     (concat (map by xs))"
  unfolding parses_def
proof (intro allI impI)
  fix d
  assume a: "at d (concat (map by xs))"
  have "visit_seq 0 (map sd xs) (d\<lparr>remaining := length xs, de_fields := map nm xs\<rparr>) =
      Inr (map val xs, (skip (d\<lparr>remaining := length xs, de_fields := map nm xs\<rparr>)
        (length (concat (map by xs))))\<lparr>remaining := 0\<rparr>)"
    by (rule visit_seq_fields [where nm = nm and ?done = "[]"]) (use assms a in auto)
  then show "sequence (length xs) (map nm xs) (visit_seq 0 (map sd xs)) d =
      Inr (map val xs, skip d (length (concat (map by xs))))"
    by (simp add: sequence_def skip_updates)
qed

lemma parses_map:
  assumes "parses opq seed v bs"
  shows "parses opq (\<lambda>d. rbind (seed d) (\<lambda>(x, d'). Inr (f x, d'))) (f v) bs"
  using assms by (simp add: parses_def)

lemma parses_prefixed:
  assumes "length bs < 2 ^ 32"
  shows "parses opq read_prefixed bs (be_bytes 4 (word_of_nat (length bs) :: u32) @ bs)"
  unfolding parses_def
proof (intro allI impI)
  fix d
  let ?p = "be_bytes 4 (word_of_nat (length bs) :: u32)"
  assume "at d (?p @ bs)"
  then have a: "at d ?p" and b: "at (skip d 4) bs" by (auto simp: at_append)
  from read_in_at [OF a] have "read_in 4 d = Inr (?p, skip d 4)" by simp
  moreover have "unat (word_of_nat (length bs) :: u32) = length bs"
    using assms by (simp add: unat_of_nat)
  ultimately show "read_prefixed d = Inr (bs, skip d (length (?p @ bs)))"
    using read_in_at [OF b] by (simp add: read_prefixed_def)
qed

lemma parses_integer: "parses opq (deserialize_integer (int_ty_of i)) (IntV i) (int_bytes opq i)"
  unfolding parses_def
proof (intro allI impI)
  fix d
  assume "de_opaque d = opq" and "at d (int_bytes opq i)"
  then show "deserialize_integer (int_ty_of i) d = Inr (IntV i, skip d (length (int_bytes opq i)))"
    using read_in_at [of d "int_bytes opq i"] by (auto simp: deserialize_integer_def)
qed

lemma parses_bool: "parses opq deserialize_bool (Bool b) [if b then 1 else 0]"
  unfolding parses_def
proof (intro allI impI)
  fix d
  assume "at d [if b then 1 else 0]"
  then show "deserialize_bool d = Inr (Bool b, skip d (length [if b then 1 else (0::u8)]))"
    using read_in_at [of d "[if b then 1 else 0]"] by (auto simp: deserialize_bool_def)
qed

lemma parses_f64: "parses opq deserialize_f64 (F64 w) (to_ne_bytes 8 w)"
  unfolding parses_def
proof (intro allI impI)
  fix d
  assume "at d (to_ne_bytes 8 w)"
  then show "deserialize_f64 d = Inr (F64 w, skip d (length (to_ne_bytes 8 w)))"
    using read_in_at [of d "to_ne_bytes 8 w"] by (auto simp: deserialize_f64_def)
qed

lemma parses_str:
  assumes "rust_str s" and "length s < 2 ^ 32"
  shows "parses opq deserialize_str (Str s) (be_bytes 4 (word_of_nat (length s) :: u32) @ str_bytes s)"
  using parses_prefixed [of "str_bytes s" opq] assms by (simp add: parses_def deserialize_str_def)

lemma parses_tuple:
  assumes ty: "list_all2 has_ty ts vs"
    and IH: "\<And>t v. t \<in> set ts \<Longrightarrow> has_ty t v \<Longrightarrow> parses False (deserialize_value t) v (wire v False)"
    and pos: "list_all (\<lambda>t. 0 < wire_min t) ts"
  shows "parses opq (sequence (length ts) [] (visit_seq 0 (map deserialize_value ts))) vs
     (concat (map (\<lambda>v. wire v False) vs))"
proof -
  have len: "length ts = length vs"
    using ty by (rule list_all2_lengthD)
  have "parses False (deserialize_value (fst x)) (snd x) (wire (snd x) False) \<and>
      wire (snd x) False \<noteq> []" if "x \<in> set (zip ts vs)" for x
  proof -
    have ok: "fst x \<in> set ts" "has_ty (fst x) (snd x)"
      using list_all2_zipD [OF ty that] by simp_all
    moreover have "0 < length (wire (snd x) False)"
      using ok pos wire_min_le [of "fst x" "snd x" False] by (auto simp: list_all_iff)
    ultimately show ?thesis using IH by simp
  qed
  then have "parses opq (sequence (length (zip ts vs)) []
      (visit_seq 0 (map (\<lambda>x. deserialize_value (fst x)) (zip ts vs))))
      (map snd (zip ts vs)) (concat (map (\<lambda>x. wire (snd x) False) (zip ts vs)))"
    by (rule parses_sequence_array)
  with len show ?thesis
    by (simp add: map_zip_fst map_zip_snd [where f = "\<lambda>v. wire v False"])
qed

lemma parses_struct:
  assumes ty: "list_all2 (\<lambda>f g. fst f = fst g \<and> has_ty (snd f) (snd g)) fs gs"
    and IH: "\<And>f v. f \<in> set fs \<Longrightarrow> has_ty (snd f) v \<Longrightarrow>
       parses (fst f = client_index_name) (deserialize_value (snd f)) v (wire v (fst f = client_index_name))"
  shows "parses opq (sequence (length fs) (map fst fs) (visit_seq 0 (map (\<lambda>f. deserialize_value (snd f)) fs)))
     (map snd gs) (concat (map (\<lambda>g. wire (snd g) (fst g = client_index_name)) gs))"
proof -
  have len: "length fs = length gs"
    using ty by (rule list_all2_lengthD)
  have item: "fst (fst x) = fst (snd x) \<and>
      parses (fst (fst x) = client_index_name) (deserialize_value (snd (fst x))) (snd (snd x))
        (wire (snd (snd x)) (fst (fst x) = client_index_name))" if "x \<in> set (zip fs gs)" for x
    using list_all2_zipD [OF ty that] IH by blast
  then have "parses opq (sequence (length (zip fs gs)) (map (\<lambda>x. fst (fst x)) (zip fs gs))
      (visit_seq 0 (map (\<lambda>x. deserialize_value (snd (fst x))) (zip fs gs))))
      (map (\<lambda>x. snd (snd x)) (zip fs gs))
      (concat (map (\<lambda>x. wire (snd (snd x)) (fst (fst x) = client_index_name)) (zip fs gs)))"
    by (intro parses_sequence_fields) blast
  moreover have "map (\<lambda>x. wire (snd (snd x)) (fst (fst x) = client_index_name)) (zip fs gs) =
      map (\<lambda>g. wire (snd g) (fst g = client_index_name)) gs"
    using item map_zip_snd [OF len, where f = "\<lambda>g. wire (snd g) (fst g = client_index_name)"]
    by (simp cong: map_cong)
  ultimately show ?thesis
    using len by (simp add: map_zip_fst [where f = "\<lambda>f. deserialize_value (snd f)"]
        map_zip_fst [where f = fst] map_zip_snd [where f = snd])
qed

lemma struct_zip:
  "list_all2 (\<lambda>f g. fst f = fst g \<and> R f g) fs gs \<Longrightarrow> zip (map fst fs) (map snd gs) = gs"
  by (induction rule: list_all2_induct) auto

lemma deserialize_value_parses:
  "has_ty t v \<Longrightarrow> round_trips t opq \<Longrightarrow> parses opq (deserialize_value t) v (wire v opq)"
proof (induction t arbitrary: v opq)
  case (TInt t)
  then show ?case
    using parses_integer by (auto split: sval.splits)
next
  case TBool
  then show ?case using parses_bool by (auto split: sval.splits)
next
  case TF64
  then show ?case using parses_f64 by (auto split: sval.splits)
next
  case TBytes
  then show ?case
    using parses_map [OF parses_prefixed, where f = Bytes]
    by (auto simp: deserialize_bytes_def [abs_def] split: sval.splits)
next
  case TByteBuf
  then show ?case
    using parses_map [OF parses_prefixed, where f = Bytes]
    by (auto simp: deserialize_bytes_def [abs_def] split: sval.splits)
next
  case TStr
  then show ?case using parses_str by (auto split: sval.splits)
next
  case TString
  then show ?case using parses_str by (auto split: sval.splits)
next
  case (TTuple ts)
  then obtain vs where v: "v = Tuple vs" and ty: "list_all2 has_ty ts vs"
    by (auto simp: has_ty_tuple_iff split: sval.splits)
  have "parses opq (sequence (length ts) [] (visit_seq 0 (map deserialize_value ts))) vs
      (concat (map (\<lambda>v. wire v False) vs))"
    using TTuple by (intro parses_tuple [OF ty]) (auto simp: list_all_iff)
  from parses_map [OF this, where f = Tuple] show ?case
    using v TTuple.prems by (simp add: comp_def)
next
  case (TTupleStruct ts)
  then obtain vs where v: "v = TupleStruct vs" and ty: "list_all2 has_ty ts vs"
    by (auto simp: has_ty_tuple_iff split: sval.splits)
  have "parses opq (sequence (length ts) [] (visit_seq 0 (map deserialize_value ts))) vs
      (concat (map (\<lambda>v. wire v False) vs))"
    using TTupleStruct by (intro parses_tuple [OF ty]) (auto simp: list_all_iff)
  from parses_map [OF this, where f = TupleStruct] show ?case
    using v TTupleStruct.prems by (simp add: comp_def)
next
  case (TStruct fs)
  then obtain gs where v: "v = Struct gs"
    and ty: "list_all2 (\<lambda>f g. fst f = fst g \<and> has_ty (snd f) (snd g)) fs gs"
    by (auto simp: has_ty_struct_iff split: sval.splits)
  have "parses (fst f = client_index_name) (deserialize_value (snd f)) x (wire x (fst f = client_index_name))"
    if "f \<in> set fs" and "has_ty (snd f) x" for f x
    using TStruct.IH [of f "snd f" x] TStruct.prems that by (auto simp: snds.simps list_all_iff)
  from parses_struct [OF ty this] have "parses opq
      (sequence (length fs) (map fst fs) (visit_seq 0 (map (\<lambda>f. deserialize_value (snd f)) fs)))
      (map snd gs) (concat (map (\<lambda>g. wire (snd g) (fst g = client_index_name)) gs))" .
  from parses_map [OF this, where f = "\<lambda>vs. Struct (zip (map fst fs) vs)"] show ?case
    using v struct_zip [OF ty] by (simp add: comp_def)
next
  case (TArray n t)
  then obtain vs where v: "v = Tuple vs" "length vs = n" and ty: "list_all (has_ty t) vs"
    by (auto split: sval.splits)
  have item: "parses False (deserialize_value t) x (wire x False) \<and> wire x False \<noteq> []"
    if "x \<in> set vs" for x
    using that ty TArray wire_min_le [of t x False] by (auto simp: list_all_iff)
  then have "parses opq (sequence (length vs) [] (visit_seq 0 (map (\<lambda>_. deserialize_value t) vs)))
      (map (\<lambda>x. x) vs) (concat (map (\<lambda>x. wire x False) vs))"
    by (rule parses_sequence_array)
  from parses_map [OF this, where f = Tuple] show ?case
    using v TArray.prems by (simp add: comp_def map_replicate_const)
next
  case (TNewtype t)
  then show ?case
    by (auto intro: parses_map split: sval.splits)
qed (auto simp: parses_def)

section \<open>What the deserializer returns\<close>

text \<open>
  \<open>sound\<close>: a returned value satisfies \<open>P\<close>, the input and the caller's sequence state are
  kept, and the offset only moves forward, never past the end.
\<close>

definition frame :: "deserializer \<Rightarrow> deserializer \<Rightarrow> bool" where
  "frame d d' \<longleftrightarrow> de_input d' = de_input d \<and> de_fields d' = de_fields d \<and> de_opaque d' = de_opaque d \<and>
     de_offset d \<le> de_offset d' \<and>
     (de_offset d \<le> length (de_input d) \<longrightarrow> de_offset d' \<le> length (de_input d))"

definition sound ::
  "(deserializer \<Rightarrow> codec_error + 'v \<times> deserializer) \<Rightarrow> ('v \<Rightarrow> bool) \<Rightarrow> bool" where
  "sound seed P \<longleftrightarrow>
     (\<forall>d v d'. seed d = Inr (v, d') \<longrightarrow> P v \<and> frame d d' \<and> remaining d' = remaining d)"

lemma soundD:
  "sound seed P \<Longrightarrow> seed d = Inr (v, d') \<Longrightarrow> P v \<and> frame d d' \<and> remaining d' = remaining d"
  by (simp add: sound_def)

lemma frame_trans: "frame d d' \<Longrightarrow> frame d' d'' \<Longrightarrow> frame d d''"
  by (auto simp: frame_def)

lemma frame_skip: "de_offset d + n \<le> length (de_input d) \<Longrightarrow> frame d (skip d n)"
  by (simp add: frame_def)

lemma read_in_sound: "sound (read_in n) (\<lambda>bs. length bs = n)"
  by (auto simp: sound_def read_in_Inr intro: frame_skip)

lemma sound_map:
  assumes "sound seed P" and "\<And>x. P x \<Longrightarrow> Q (f x)"
  shows "sound (\<lambda>d. rbind (seed d) (\<lambda>(x, d'). Inr (f x, d'))) Q"
  using assms by (fastforce simp: sound_def rbind_Inr)

lemma read_prefixed_sound: "sound read_prefixed (\<lambda>bs. length bs < 2 ^ 32)"
  unfolding sound_def
proof (intro allI impI)
  fix d bs d'
  assume "read_prefixed d = Inr (bs, d')"
  then obtain p d1 where p: "read_in 4 d = Inr (p, d1)"
    and r: "read_in (unat (from_be_bytes p :: u32)) d1 = Inr (bs, d')"
    by (auto simp: read_prefixed_def rbind_Inr)
  have "unat (from_be_bytes p :: u32) < 2 ^ LENGTH(32)"
    by (rule unsigned_less)
  then show "length bs < 2 ^ 32 \<and> frame d d' \<and> remaining d' = remaining d"
    using soundD [OF read_in_sound p] soundD [OF read_in_sound r] frame_trans by fastforce
qed

lemma next_element_sound:
  assumes "sound seed P" and "next_element_seed seed d = Inr (Some v, d')"
  shows "P v \<and> frame d d' \<and> Suc (remaining d') = remaining d \<and>
     (de_fields d = [] \<longrightarrow> de_offset d < de_offset d')"
  using assms(2) soundD [OF assms(1)]
  by (fastforce simp: next_element_seed_def rbind_Inr frame_def Let_def split: if_splits)

lemma visit_seq_sound:
  assumes "\<And>x. x \<in> set xs \<Longrightarrow> sound (sd x) (P x)"
    and "visit_seq i (map sd xs) d = Inr (vs, d')"
  shows "list_all2 P xs vs \<and> frame d d'"
  using assms
proof (induction xs arbitrary: i d vs)
  case Nil
  then show ?case by (simp add: frame_def)
next
  case (Cons x xs)
  from Cons.prems(2) obtain v d1 ws where v: "next_element_seed (sd x) d = Inr (Some v, d1)"
    and ws: "visit_seq (Suc i) (map sd xs) d1 = Inr (ws, d')" and vs: "vs = v # ws"
    by (auto simp: rbind_Inr split: option.splits)
  have "list_all2 P xs ws \<and> frame d1 d'"
    using Cons.IH [OF _ ws] Cons.prems(1) by simp
  with next_element_sound [OF _ v, of "P x"] Cons.prems(1) vs show ?case
    by (auto intro: frame_trans)
qed

lemma sequence_sound:
  assumes "\<And>x. x \<in> set xs \<Longrightarrow> sound (sd x) (P x)"
  shows "sound (sequence n fs (visit_seq i (map sd xs))) (list_all2 P xs)"
  unfolding sound_def
proof (intro allI impI)
  fix d vs d'
  assume "sequence n fs (visit_seq i (map sd xs)) d = Inr (vs, d')"
  then obtain d1 where "visit_seq i (map sd xs) (d\<lparr>remaining := n, de_fields := fs\<rparr>) = Inr (vs, d1)"
    and "d' = d1\<lparr>remaining := remaining d, de_fields := de_fields d\<rparr>"
    by (auto simp: sequence_def rbind_Inr split: if_splits)
  with visit_seq_sound [OF assms] show "list_all2 P xs vs \<and> frame d d' \<and> remaining d' = remaining d"
    by (fastforce simp: frame_def)
qed

lemma deserialize_value_sound: "sound (deserialize_value t) (has_ty t)"
proof (induction t)
  case (TInt t)
  have "int_ty_of (int_of_bytes t opq bs) = t" for opq bs
    by (cases t) auto
  then show ?case
    using read_in_sound by (fastforce simp: sound_def deserialize_integer_def rbind_Inr)
next
  case TBool
  then show ?case
    using read_in_sound by (fastforce simp: sound_def deserialize_bool_def rbind_Inr)
next
  case TF64
  then show ?case
    using read_in_sound by (fastforce simp: sound_def deserialize_f64_def rbind_Inr)
next
  case TBytes
  show ?case
    unfolding deserialize_value.simps deserialize_bytes_def [abs_def]
    by (rule sound_map [OF read_prefixed_sound]) simp
next
  case TByteBuf
  show ?case
    unfolding deserialize_value.simps deserialize_bytes_def [abs_def]
    by (rule sound_map [OF read_prefixed_sound]) simp
next
  case TStr
  show ?case
    using read_prefixed_sound
    by (fastforce simp: sound_def deserialize_str_def rbind_Inr from_utf8_Some)
next
  case TString
  show ?case
    using read_prefixed_sound
    by (fastforce simp: sound_def deserialize_str_def rbind_Inr from_utf8_Some)
next
  case (TTuple ts)
  then show ?case
    using sound_map [OF sequence_sound [where xs = ts and P = has_ty], of deserialize_value
        "has_ty (TTuple ts)" Tuple]
    by (simp add: has_ty_tuple_iff)
next
  case (TTupleStruct ts)
  then show ?case
    using sound_map [OF sequence_sound [where xs = ts and P = has_ty], of deserialize_value
        "has_ty (TTupleStruct ts)" TupleStruct]
    by (simp add: has_ty_tuple_iff)
next
  case (TStruct fs)
  have field: "sound (deserialize_value (snd f)) (has_ty (snd f))" if "f \<in> set fs" for f
    using TStruct.IH [of f "snd f"] that by (auto simp: snds.simps)
  have struct: "has_ty (TStruct fs) (Struct (zip (map fst fs) vs))"
    if "list_all2 (\<lambda>f. has_ty (snd f)) fs vs" for vs
    using that by (simp add: has_ty_struct_iff) (induction rule: list_all2_induct, auto)
  show ?case
    using sound_map [OF sequence_sound [where xs = fs and P = "\<lambda>f. has_ty (snd f)"
          and sd = "\<lambda>f. deserialize_value (snd f)", OF field], of "has_ty (TStruct fs)"
        "\<lambda>vs. Struct (zip (map fst fs) vs)"] struct
    by (simp add: comp_def)
next
  case (TArray n t)
  have arr: "has_ty (TArray n t) (Tuple vs)" if "list_all2 (\<lambda>_. has_ty t) (replicate n ()) vs" for vs
    using that by (auto simp: list_all2_conv_all_nth list_all_length)
  show ?case
    using sound_map [OF sequence_sound [where xs = "replicate n ()" and P = "\<lambda>_. has_ty t"
          and sd = "\<lambda>_. deserialize_value t"], of "has_ty (TArray n t)" Tuple] TArray arr
    by (simp add: map_replicate_const)
next
  case (TNewtype t)
  then show ?case
    using sound_map [of _ "has_ty t" "has_ty (TNewtype t)" Newtype] by simp
qed (auto simp: sound_def frame_def)

section \<open>Properties of the codec\<close>

lemma at_start: "length bs < usize_bound \<Longrightarrow> bs = w @ rest \<Longrightarrow> at (new_deserializer bs) w"
  by (auto simp: at_def new_deserializer_def)

lemma deserialize_wire:
  assumes "has_ty t v" and "round_trips t False" and "length (wire v False @ rest) < usize_bound"
  shows "deserialize t (wire v False @ rest) = Inr v"
proof -
  have "at (new_deserializer (wire v False @ rest)) (wire v False)"
    using assms(3) by (rule at_start) simp
  moreover have "de_opaque (new_deserializer (wire v False @ rest)) = False"
    by (simp add: new_deserializer_def)
  ultimately show ?thesis
    using deserialize_value_parses [OF assms(1,2)] by (simp add: parses_def deserialize_def)
qed

lemma serialize_fitting:
  "has_ty t v \<Longrightarrow> length (wire v False) \<le> length out \<Longrightarrow> length out < usize_bound \<Longrightarrow>
     serialize v out = Inr (length (wire v False), wire v False @ drop (length (wire v False)) out)"
  by (simp add: serialize_Inr has_ty_encodable)

text \<open>
  C1. Encoding a value of a wire type and decoding the bytes gives the value back, whatever
  follows it in the buffer.
\<close>

theorem codec_round_trip:
  assumes "has_ty t v" and "round_trips t False"
    and "length (wire v False) \<le> length out" and "length out < usize_bound"
  shows "\<exists>n out'. serialize v out = Inr (n, out') \<and> length out' = length out \<and>
     deserialize t (take n out') = Inr v \<and> deserialize t out' = Inr v"
proof -
  let ?n = "length (wire v False)"
  have "deserialize t (wire v False @ drop ?n out) = Inr v"
    using assms by (intro deserialize_wire) auto
  moreover have "deserialize t (wire v False @ []) = Inr v"
    using assms by (intro deserialize_wire) auto
  ultimately show ?thesis
    using serialize_fitting [OF assms(1,3,4)] assms(3) by auto
qed

text \<open>The witness of C1 encodes a request header with an opaque client index and a string.\<close>

lemma codec_round_trip_witness:
  "\<exists>n out'. serialize (Struct [(''client_index'', IntV (U32 7)), (''name'', Str ''if0'')]) (replicate 16 0) =
       Inr (n, out') \<and> length out' = length (replicate 16 (0 :: u8)) \<and>
     deserialize (TStruct [(''client_index'', TInt TyU32), (''name'', TString)]) (take n out') =
       Inr (Struct [(''client_index'', IntV (U32 7)), (''name'', Str ''if0'')]) \<and>
     deserialize (TStruct [(''client_index'', TInt TyU32), (''name'', TString)]) out' =
       Inr (Struct [(''client_index'', IntV (U32 7)), (''name'', Str ''if0'')])"
  by (rule codec_round_trip) (simp_all add: usize_bound_def utf8_valid_ascii byte_of_char_def)

text \<open>
  C26. Serialization succeeds exactly on encodable values with room for them, and then writes the
  value's wire encoding at the front of the buffer and nothing after it.
\<close>

theorem serialize_writes_wire:
  "serialize v out = Inr (n, out') \<longleftrightarrow>
     encodable v \<and> n = length (wire v False) \<and> n < usize_bound \<and> n \<le> length out \<and>
     out' = wire v False @ drop n out"
  by (rule serialize_Inr)

text \<open>
  The measuring pass is exact: a buffer of the measured length takes the whole encoding, and
  no shorter buffer does.
\<close>

theorem serialized_len_exact:
  assumes "serialized_len v = Inr n"
  shows "((\<exists>out'. serialize v out = Inr (n, out')) \<longleftrightarrow> n \<le> length out) \<and>
    (serialize v out = Inr (m, out') \<longrightarrow> m = n \<and> take m out' = wire v False)"
  using assms by (auto simp: serialized_len_Inr serialize_Inr)

lemma serialized_len_exact_witness:
  "(\<exists>out'. serialize (Tuple [IntV (U16 1), Bool True]) [9, 9, 9, 9] = Inr (3, out')) \<longleftrightarrow>
     3 \<le> length [9 :: u8, 9, 9, 9]"
  by (rule serialized_len_exact [THEN conjunct1]) (simp add: serialized_len_Inr usize_bound_def)

text \<open>
  C23. Whatever the input, a successful decode gives a value of the requested type and never
  reads past the input.
\<close>

theorem deserialize_type_sound:
  assumes "deserialize_value t (new_deserializer bs) = Inr (v, d)"
  shows "has_ty t v \<and> encodable v \<and> de_input d = bs \<and> de_offset d \<le> length bs"
  using soundD [OF deserialize_value_sound assms] has_ty_encodable
  by (auto simp: frame_def new_deserializer_def)

lemma deserialize_type_sound_witness:
  "has_ty (TTuple [TInt TyU16, TBool]) (Tuple [IntV (U16 258), Bool True]) \<and>
   encodable (Tuple [IntV (U16 258), Bool True]) \<and>
   de_input \<lparr>de_input = [1, 2, 3, 4], de_offset = 3, remaining = 0, de_fields = [], de_opaque = False\<rparr> = [1, 2, 3, 4] \<and>
   de_offset \<lparr>de_input = [1, 2, 3, 4], de_offset = 3, remaining = 0, de_fields = [], de_opaque = False\<rparr>
     \<le> length [1 :: u8, 2, 3, 4]"
  by (rule deserialize_type_sound)
    (simp add: new_deserializer_def sequence_def remaining_bytes_def next_element_seed_def
      deserialize_integer_def deserialize_bool_def read_in_def checked_add_def usize_bound_def
      from_be_bytes_def)

text \<open>
  A legacy array carries no count: decoding takes the element count from the bytes that are
  left, and gives back every element when all of them have the declared size.
\<close>

theorem legacy_array_round_trip:
  assumes "list_all (has_ty t) vs" and "round_trips t False" and "0 < wire_min t"
    and "list_all (\<lambda>v. length (wire v False) = sz) vs" and "0 < sz"
    and "length (wire (Tuple vs) False) < usize_bound"
  shows "deserialize_legacy t sz (new_deserializer (wire (Tuple vs) False)) =
     Inr (Tuple vs, skip (new_deserializer (wire (Tuple vs) False)) (length (wire (Tuple vs) False)))"
proof -
  let ?bs = "wire (Tuple vs) False"
  have "length (concat (map (\<lambda>v. wire v False) vs)) = length vs * sz"
    using assms(4) by (induction vs) auto
  then have len: "length ?bs = length vs * sz"
    by (simp add: comp_def)
  have parse: "parses False (deserialize_value (TArray (length vs) t)) (Tuple vs) ?bs"
    using assms(1-3) by (intro deserialize_value_parses) simp_all
  have "at (new_deserializer ?bs) ?bs"
    using assms(6) by (rule at_start) simp
  with parse have "deserialize_value (TArray (length vs) t) (new_deserializer ?bs) =
      Inr (Tuple vs, skip (new_deserializer ?bs) (length ?bs))"
    by (simp only: parses_def) (simp add: new_deserializer_def)
  with len assms(5) show ?thesis
    by (simp only: deserialize_legacy_def) (simp add: remaining_bytes_def new_deserializer_def)
qed

lemma legacy_array_round_trip_witness:
  "deserialize_legacy (TInt TyU16) 2 (new_deserializer (wire (Tuple [IntV (U16 5), IntV (U16 6)]) False)) =
     Inr (Tuple [IntV (U16 5), IntV (U16 6)],
       skip (new_deserializer (wire (Tuple [IntV (U16 5), IntV (U16 6)]) False))
         (length (wire (Tuple [IntV (U16 5), IntV (U16 6)]) False)))"
  by (rule legacy_array_round_trip) (simp_all add: usize_bound_def)









end
