(* ===== verification/Msg_Buf.thy ===== *)
theory Msg_Buf
  imports Shared_Region Svm_Queue Codec_Wire
begin

text \<open>
  The shared API region, \<^verbatim>\<open>hammer-binary-api-protocol/src/memory.rs\<close>: the API header the client
  finds in the region, and message buffers in the region's data heap. A queue in shared memory is an
  object reached through its address, kept beside the bytes of the region (\<open>queues\<close>).
\<close>

section \<open>The API header\<close>

datatype memory_error =
    MemInvalidHeader
  | MemUnsupportedVersion u32 u32
  | MemElementSizeMismatch usize usize
  | MemQueue queue_error
  | AllocationFailed usize
  | MemCodec codec_error

definition shmem_version :: u32 where
  "shmem_version = 2"

record shmem_header =
  sh_version :: u32
  sh_server_pid :: u32
  sh_input_queue :: usize

definition shmem_header_bytes :: usize where
  "shmem_header_bytes = 80"

definition shmem_header_at :: "memory \<Rightarrow> usize \<Rightarrow> shmem_header" where
  "shmem_header_at m a =
     \<lparr>sh_version = from_ne_bytes (load m a 4), sh_server_pid = from_ne_bytes (load m (a + 4) 4),
      sh_input_queue = load_word m (a + 8)\<rparr>"

definition queue_fault :: "queue_error fault \<Rightarrow> memory_error fault" where
  "queue_fault f = (case f of Err e \<Rightarrow> Err (MemQueue e) | Panic msg \<Rightarrow> Panic msg)"

definition validate_shmem ::
  "svm_region \<Rightarrow> memory \<Rightarrow> (usize \<Rightarrow> svm_queue) \<Rightarrow> usize \<Rightarrow> memory_error fault + shmem_header" where
  "validate_shmem r m queues address =
     (if address mod 8 \<noteq> 0 \<or> \<not> contains_range r address shmem_header_bytes then Inl (Err MemInvalidHeader)
      else let shared = shmem_header_at m address in
        if sh_version shared \<noteq> shmem_version
        then Inl (Err (MemUnsupportedVersion (sh_version shared) shmem_version))
        else let queue = sh_input_queue shared in
          if \<not> contains_range r queue queue_header_size then Inl (Err MemInvalidHeader)
          else rbind (map_err queue_fault (queue_attach queue (rg_base r + rg_size r - queue) (queues queue))) (\<lambda>_.
            if element_size (queues queue) \<noteq> 8
            then Inl (Err (MemElementSizeMismatch 8 (element_size (queues queue))))
            else Inr shared))"

section \<open>Message buffers\<close>

record msg_buf =
  mb_payload :: usize
  mb_payload_len :: usize
  mb_initialized_len :: usize

definition msg_length_offset :: usize where
  "msg_length_offset = 8"

definition msg_timestamp_offset :: usize where
  "msg_timestamp_offset = 12"

definition msg_prefix :: usize where
  "msg_prefix = 16"

text \<open>
  The prefix (queue pointer, length, timestamp) followed by the payload; a payload whose layout would
  exceed \<^verbatim>\<open>isize::MAX\<close> panics.
\<close>

definition msg_layout :: "usize \<Rightarrow> 'e fault + layout" where
  "msg_layout payload_len =
     (if 2 ^ 63 \<le> payload_len then Inl (Panic ''message length fits allocation layout'')
      else ok_or (Panic ''message prefix and payload fit allocation layout'')
        (from_size_align (msg_prefix + payload_len) 8))"

definition msg_allocate :: "'s mspace \<Rightarrow> usize \<Rightarrow> 's heap \<Rightarrow> (memory_error fault + msg_buf) \<times> 's heap" where
  "msg_allocate ms payload_len h =
     (case msg_layout payload_len of
        Inl e \<Rightarrow> (Inl e, h)
      | Inr l \<Rightarrow>
          (case allocate_zeroed ms l h of
             (Inl e, h') \<Rightarrow> (Inl e, h')
           | (Inr None, h') \<Rightarrow> (Inl (Err (AllocationFailed (lay_size l))), h')
           | (Inr (Some base), h') \<Rightarrow>
               let m = store (snd h') base (replicate 8 0);
                   m = store m (base + msg_timestamp_offset) (replicate 4 0);
                   m = store m (base + msg_length_offset) (be_bytes 4 (of_nat payload_len :: u32))
               in (Inr \<lparr>mb_payload = base + msg_prefix, mb_payload_len = payload_len, mb_initialized_len = 0\<rparr>,
                   fst h', m)))"

definition msg_from_address :: "svm_region \<Rightarrow> memory \<Rightarrow> usize \<Rightarrow> memory_error fault + msg_buf" where
  "msg_from_address r m address =
     rbind (ok_or (Err MemInvalidHeader) (checked_sub address msg_prefix)) (\<lambda>prefix.
       if prefix = 0 then Inl (Err MemInvalidHeader)
       else if prefix mod 8 \<noteq> 0 \<or> \<not> contains_range r prefix msg_prefix then Inl (Err MemInvalidHeader)
       else if address = 0 then Inl (Err MemInvalidHeader)
       else let payload_len = unat (from_be_bytes (load m (prefix + msg_length_offset) 4) :: u32) in
         if \<not> contains_range r address payload_len then Inl (Err MemInvalidHeader)
         else Inr \<lparr>mb_payload = address, mb_payload_len = payload_len, mb_initialized_len = payload_len\<rparr>)"

definition msg_bytes :: "msg_buf \<Rightarrow> memory \<Rightarrow> codec_error + bytes" where
  "msg_bytes b m =
     (if mb_initialized_len b < mb_payload_len b then Inl PayloadNotInitialized
      else Inr (load m (mb_payload b) (mb_payload_len b)))"

text \<open>A failing encoder may have written part of the payload; the memory is then left as it was here.\<close>

definition msg_encode :: "sval \<Rightarrow> msg_buf \<Rightarrow> memory \<Rightarrow> codec_error + usize \<times> msg_buf \<times> memory" where
  "msg_encode v b m =
     rbind (serialize v (load m (mb_payload b) (mb_payload_len b))) (\<lambda>(written, out).
       Inr (written, b\<lparr>mb_initialized_len := max (mb_initialized_len b) written\<rparr>, store m (mb_payload b) out))"

definition msg_decode :: "ty \<Rightarrow> (sval \<Rightarrow> 'm) \<Rightarrow> msg_buf \<Rightarrow> memory \<Rightarrow> codec_error + 'm" where
  "msg_decode t of_sval b m =
     rbind (msg_bytes b m) (\<lambda>bs.
       rbind (deserialize_value t (new_deserializer bs)) (\<lambda>(v, d).
         if remaining_bytes d \<noteq> 0 then Inl TrailingPayload else Inr (of_sval v)))"

text \<open>
  A message with a queue in its prefix belongs to one of the server's rings: it is only marked free.
  Any other message goes back to the heap.
\<close>

definition msg_free :: "'s mspace \<Rightarrow> msg_buf \<Rightarrow> 's heap \<Rightarrow> ('e fault + unit) \<times> 's heap" where
  "msg_free ms b h =
     (let base = mb_payload b - msg_prefix in
      if load_word (snd h) base \<noteq> 0
      then (Inr (), fst h, store (store (snd h) (base + msg_timestamp_offset) (replicate 4 0)) base (replicate 8 0))
      else (case msg_layout (mb_payload_len b) of
          Inl e \<Rightarrow> (Inl e, h)
        | Inr _ \<Rightarrow> deallocate ms base h))"

definition msg_address :: "msg_buf \<Rightarrow> usize" where
  "msg_address b = mb_payload b"

section \<open>Lemmas on message buffers\<close>

lemma from_ne_bytes_zeros [simp]: "from_ne_bytes (replicate n 0) = 0"
  by (induction n) simp_all

lemma load_0 [simp]: "load m a 0 = []"
  by (simp add: load_def)

lemma msg_layout_Inr: "msg_layout n = Inr l \<longleftrightarrow> n + 24 \<le> 2 ^ 63 \<and> l = \<lparr>lay_size = 16 + n, lay_align = 8\<rparr>"
proof -
  have "is_power_of_two 8"
    unfolding is_power_of_two_def by (auto simp: image_iff intro!: bexI [of _ 3])
  then show ?thesis
    by (auto simp: msg_layout_def from_size_align_def msg_prefix_def)
qed

lemma deserialize_exactly:
  assumes "has_ty t v" "round_trips t False" "length (wire v False) < usize_bound"
  obtains d where "deserialize_value t (new_deserializer (wire v False)) = Inr (v, d)" "remaining_bytes d = 0"
proof -
  have "at (new_deserializer (wire v False)) (wire v False)"
    using assms(3) by (rule at_start) simp
  moreover have "de_opaque (new_deserializer (wire v False)) = False"
    by (simp add: new_deserializer_def)
  ultimately have "deserialize_value t (new_deserializer (wire v False)) =
      Inr (v, skip (new_deserializer (wire v False)) (length (wire v False)))"
    using deserialize_value_parses [OF assms(1,2)] by (simp add: parses_def)
  then show ?thesis
    by (rule that) (simp add: remaining_bytes_def new_deserializer_def)
qed

text \<open>What a message block holds: a clear queue pointer and its payload length.\<close>

definition message_block :: "memory \<Rightarrow> usize \<Rightarrow> usize \<Rightarrow> bool" where
  "message_block m base n \<longleftrightarrow> load_word m base = 0 \<and> load m (base + msg_length_offset) 4 = be_bytes 4 (of_nat n :: u32)"

lemma msg_allocate_ok:
  assumes ok: "mspace_ok ms good live lo hi" and "good s" and run: "msg_allocate ms n (s, m) = (Inr b, s', m')"
  obtains base u where "b = \<lparr>mb_payload = base + 16, mb_payload_len = n, mb_initialized_len = 0\<rparr>"
    "good s'" "live s base = None" "8 dvd base" "0 < base" "16 + n \<le> u" "live s' = (live s)(base \<mapsto> u)"
    "message_block m' base n" "n + 24 \<le> 2 ^ 63"
    "\<And>q v. live s q = Some v \<Longrightarrow> load m' q v = load m q v"
proof -
  obtain l where l: "msg_layout n = (Inr l :: memory_error fault + layout)"
    using run by (auto simp: msg_allocate_def split: sum.splits)
  obtain res :: "memory_error fault + usize option" and s1 m1 where alloc: "allocate_zeroed ms l (s, m) = (res, s1, m1)"
    by (rule prod_cases3)
  with run l obtain base where res: "res = Inr (Some base)"
      and b: "b = \<lparr>mb_payload = base + 16, mb_payload_len = n, mb_initialized_len = 0\<rparr>" "s' = s1"
        "m' = store (store (store m1 base (replicate 8 0)) (base + 12) (replicate 4 0)) (base + 8)
           (be_bytes 4 (of_nat n :: u32))"
    by (auto simp: msg_allocate_def msg_prefix_def msg_timestamp_offset_def msg_length_offset_def Let_def
        split: sum.splits option.splits)
  have size_l: "n + 24 \<le> 2 ^ 63" "lay_size l = 16 + n" "lay_align l = 8"
    using l by (auto simp: msg_layout_Inr)
  from allocate_zeroed_ok [OF ok \<open>good s\<close> alloc] res size_l obtain u where
    block: "good s1" "0 < base" "8 dvd base" "live s base = None" "16 + n \<le> u" "live s1 = (live s)(base \<mapsto> u)"
      "m1 = store m base (replicate (16 + n) 0)"
    by auto
  have "message_block m' base n"
    by (simp add: message_block_def b(3) msg_length_offset_def load_word_other load_store_at)
  moreover have "load m' q v = load m q v" if "live s q = Some v" for q v
  proof -
    have "live s1 base = Some u" "live s1 q = Some v" "base \<noteq> q" using that block by auto
    note other = store_other_block [OF mspace_okD(1) [OF ok block(1)] this]
    show ?thesis using block(5) by (simp add: b(3) block(7) other)
  qed
  ultimately show ?thesis
    using that b(1,2) block size_l(1) by simp
qed

lemma msg_allocate_failed:
  assumes ok: "mspace_ok ms good live lo hi" and "good s" and run: "msg_allocate ms n (s, m) = (Inl e, s', m')"
  shows "good s' \<and> live s' = live s \<and> m' = m"
proof (cases "msg_layout n :: memory_error fault + layout")
  case (Inr l)
  obtain res :: "memory_error fault + usize option" and s1 m1 where alloc: "allocate_zeroed ms l (s, m) = (res, s1, m1)"
    by (rule prod_cases3)
  from allocate_zeroed_ok [OF ok \<open>good s\<close> alloc] run Inr alloc show ?thesis
    by (auto simp: msg_allocate_def Let_def split: sum.splits option.splits)
qed (use run \<open>good s\<close> in \<open>simp add: msg_allocate_def\<close>)

lemma msg_from_address_ok:
  assumes "message_block m base n" "n < 2 ^ 32" "8 dvd base" "0 < base"
    and "contains_range r base (16 + n)"
  shows "msg_from_address r m (base + 16) =
    Inr \<lparr>mb_payload = base + 16, mb_payload_len = n, mb_initialized_len = n\<rparr>"
proof -
  have "unat (of_nat n :: u32) = n" using assms(2) by (simp add: unat_of_nat)
  then show ?thesis
    using assms by (auto simp: msg_from_address_def msg_prefix_def message_block_def contains_range_iff
        rbind_def ok_or_def checked_sub_def Let_def dvd_eq_mod_eq_0)
qed

lemma msg_free_ok:
  assumes "mspace_ok ms good live lo hi" and "good s" and "live s base \<noteq> None"
    and "mb_payload b = base + 16" and "mb_payload_len b + 24 \<le> 2 ^ 63" and "load_word m base = 0"
  shows "msg_free ms b (s, m) = ((Inr () :: 'e fault + unit), free_block ms base s, m) \<and> good (free_block ms base s) \<and>
    live (free_block ms base s) = (live s)(base := None)"
proof -
  have "msg_layout (mb_payload_len b) = (Inr \<lparr>lay_size = 16 + mb_payload_len b, lay_align = 8\<rparr> :: 'e fault + layout)"
    using assms(5) by (simp add: msg_layout_Inr)
  with deallocate_ok [OF assms(1-3), of m] assms(4,6) show ?thesis
    by (simp add: msg_free_def msg_prefix_def)
qed

lemma wire_length_bound: "serialized_len v = Inr n \<Longrightarrow> n = length (wire v False) \<and> n < usize_bound \<and> encodable v"
  by (simp add: serialized_len_Inr)

lemma msg_encode_ok:
  assumes "serialized_len v = Inr n" and "mb_payload_len b = n"
  shows "msg_encode v b m = Inr (n, b\<lparr>mb_initialized_len := max (mb_initialized_len b) n\<rparr>,
    store m (mb_payload b) (wire v False))"
proof -
  have "serialize v (load m (mb_payload b) n) = Inr (n, wire v False)"
    using wire_length_bound [OF assms(1)] by (simp add: serialize_Inr)
  then show ?thesis by (simp add: msg_encode_def assms(2))
qed

lemma msg_decode_ok:
  assumes "has_ty t v" "round_trips t False" "length (wire v False) < usize_bound"
    and "load m (mb_payload b) (mb_payload_len b) = wire v False" and "mb_payload_len b \<le> mb_initialized_len b"
  shows "msg_decode t f b m = Inr (f v)"
  using assms(1-3) by (rule deserialize_exactly) (use assms(4,5) in \<open>simp add: msg_decode_def msg_bytes_def\<close>)

lemma message_block_store:
  "message_block m base n \<Longrightarrow> base + 16 \<le> a \<Longrightarrow> message_block (store m a bs) base n"
  by (simp add: message_block_def msg_length_offset_def load_word_other load_store_other)

lemma message_written:
  assumes ok: "mspace_ok ms good live lo hi" and "good s"
    and region: "rg_base r \<le> lo" "hi \<le> rg_base r + rg_size r" "rg_base r + rg_size r < usize_bound"
    and ty: "has_ty t v" "round_trips t False" and n: "serialized_len v = Inr n" "n < 2 ^ 32"
    and block: "message_block m base n" "live s base = Some u" "16 + n \<le> u" "8 dvd base"
    and m': "m' = store m (base + 16) (wire v False)"
    and c: "c = \<lparr>mb_payload = base + 16, mb_payload_len = n, mb_initialized_len = n\<rparr>"
  shows "msg_from_address r m' (base + 16) = Inr c" "msg_decode t id c m' = Inr v" "load_word m' base = 0"
    "live s q = Some w \<Longrightarrow> q \<noteq> base \<Longrightarrow> load m' q w = load m q w"
proof -
  note len = wire_length_bound [OF n(1)]
  note blocks = mspace_okD(1) [OF ok \<open>good s\<close>]
  note kept = message_block_store [OF block(1), of "base + 16" "wire v False"]
  have "contains_range r base (16 + n)"
    using blocks_okD(2,3) [OF blocks block(2)] region block(3) by (simp add: contains_range_iff)
  then show "msg_from_address r m' (base + 16) = Inr c"
    using blocks_okD(1) [OF blocks block(2)] block(4) n(2) kept unfolding m' c by (intro msg_from_address_ok) auto
  have "msg_decode t id c m' = Inr (id v)"
    using len ty unfolding m' c by (intro msg_decode_ok) (simp_all add: load_store_at)
  then show "msg_decode t id c m' = Inr v" by simp
  show "load_word m' base = 0"
    using kept unfolding m' by (simp add: message_block_def)
  show "load m' q w = load m q w" if "live s q = Some w" "q \<noteq> base"
    using store_other_block [OF blocks block(2) that(1), of "base + 16" "wire v False" w m] that(2) block(3) len
    unfolding m' by simp
qed

section \<open>Properties of message buffers\<close>

text \<open>
  C6. A message written into a buffer of its encoded length can be read back from its address alone:
  the buffer found there decodes to the same value, with no bytes left over. No live block other
  than the buffer is touched, and freeing the buffer leaves exactly the blocks there were before.
\<close>

theorem message_delivery:
  assumes ok: "mspace_ok ms good live lo hi" and "good s"
    and region: "rg_base r \<le> lo" "hi \<le> rg_base r + rg_size r" "rg_base r + rg_size r < usize_bound"
    and ty: "has_ty t v" "round_trips t False" and n: "serialized_len v = Inr n" "n < 2 ^ 32"
    and alloc: "msg_allocate ms n (s, m) = (Inr b, s1, m1)"
  shows "\<exists>b' m2 c s2. msg_encode v b m1 = Inr (n, b', m2) \<and>
      msg_from_address r m2 (msg_address b') = Inr c \<and> msg_decode t id c m2 = Inr v \<and>
      (\<forall>q u. live s q = Some u \<longrightarrow> load m2 q u = load m q u) \<and>
      msg_free ms c (s1, m2) = ((Inr () :: memory_error fault + unit), s2, m2) \<and> live s2 = live s"
  using ok \<open>good s\<close> alloc
proof (rule msg_allocate_ok)
  fix base u
  assume b: "b = \<lparr>mb_payload = base + 16, mb_payload_len = n, mb_initialized_len = 0\<rparr>"
    and heap: "good s1" "live s base = None" "8 dvd base" "0 < base" "16 + n \<le> u" "live s1 = (live s)(base \<mapsto> u)"
    and block: "message_block m1 base n" and fits: "n + 24 \<le> 2 ^ 63"
    and others: "\<And>q v. live s q = Some v \<Longrightarrow> load m1 q v = load m q v"
  let ?m = "store m1 (base + 16) (wire v False)"
  let ?c = "\<lparr>mb_payload = base + 16, mb_payload_len = n, mb_initialized_len = n\<rparr>"
  have live1: "live s1 base = Some u" using heap(6) by simp
  note written = message_written [OF ok heap(1) region ty n block live1 heap(5,3) refl refl]
  have "load ?m q w = load m q w" if "live s q = Some w" for q w
    using written(4) [of q w] others [OF that] that heap(2,6) by (cases "q = base") auto
  moreover have "msg_free ms ?c (s1, ?m) = ((Inr () :: memory_error fault + unit), free_block ms base s1, ?m) \<and>
      live (free_block ms base s1) = live s"
    using msg_free_ok [OF ok heap(1), of base ?c ?m] written(3) live1 fits heap(2,6) by (auto simp: fun_upd_idem)
  ultimately show ?thesis
    using msg_encode_ok [OF n(1), of b m1] written(1,2) b by (auto simp: msg_address_def)
qed

lemma message_delivery_witness:
  "\<exists>b s1 m1 b' m2 c. msg_allocate (bump_mspace 4096) 3 ((65, \<lambda>_. None), \<lambda>_. 9) = (Inr b, s1, m1) \<and>
     msg_encode (Tuple [IntV (U16 258), Bool True]) b m1 = Inr (3, b', m2) \<and>
     msg_from_address \<lparr>rg_base = 64, rg_size = 4032\<rparr> m2 (msg_address b') = Inr c \<and>
     msg_decode (TTuple [TInt TyU16, TBool]) id c m2 = Inr (Tuple [IntV (U16 258), Bool True])"
proof -
  have good: "bump_good 64 4096 (65, \<lambda>_. None)"
    by (simp add: bump_good_def blocks_ok_def)
  have len: "serialized_len (Tuple [IntV (U16 258), Bool True]) = Inr 3"
    by (simp add: serialized_len_Inr usize_bound_def)
  have "is_power_of_two 8"
    unfolding is_power_of_two_def by (auto simp: image_iff intro!: bexI [of _ 3])
  then obtain b s1 m1 where alloc: "msg_allocate (bump_mspace 4096) 3 ((65, \<lambda>_. None), \<lambda>_. 9) = (Inr b, s1, m1)"
    by (auto simp: msg_allocate_def msg_layout_def from_size_align_def msg_prefix_def allocate_zeroed_def allocate_def
        min_heap_alignment_def bump_mspace_def Let_def)
  from message_delivery [OF bump_mspace_ok good _ _ _ _ _ len _ alloc,
      of "\<lparr>rg_base = 64, rg_size = 4032\<rparr>" "TTuple [TInt TyU16, TBool]"] alloc
  show ?thesis by (fastforce simp: usize_bound_def)
qed

text \<open>
  C25. A message address taken from a queue is accepted only when the message lies in the region: its
  aligned prefix and the whole payload its length names. What is then read as the payload is those bytes.
\<close>

theorem message_address_in_region:
  "msg_from_address r m a = Inr b \<longleftrightarrow>
     16 < a \<and> a mod 8 = 0 \<and> rg_base r + 16 \<le> a \<and> rg_base r + rg_size r < usize_bound \<and>
     (\<exists>n. n = unat (from_be_bytes (load m (a - 8) 4) :: u32) \<and> a + n \<le> rg_base r + rg_size r \<and>
       b = \<lparr>mb_payload = a, mb_payload_len = n, mb_initialized_len = n\<rparr> \<and> msg_bytes b m = Inr (load m a n))"
proof (cases "16 < a")
  case True
  define n where "n = unat (from_be_bytes (load m (a - 8) 4) :: u32)"
  have e1: "a - 16 + 8 = a - 8" and md: "(a - 16) mod 8 = a mod 8"
    using True mod_mult_self2 [of "a - 16" 8 2] by simp_all
  have sub: "checked_sub a 16 = Some (a - 16)" and nz: "(a - 16 = 0) = False" "(a = 0) = False"
    using True by simp_all
  have "msg_from_address r m a =
      (if a mod 8 \<noteq> 0 \<or> \<not> contains_range r (a - 16) 16 \<or> \<not> contains_range r a n then Inl (Err MemInvalidHeader)
       else Inr \<lparr>mb_payload = a, mb_payload_len = n, mb_initialized_len = n\<rparr>)"
    unfolding msg_from_address_def msg_prefix_def msg_length_offset_def sub ok_or_simps rbind_simps nz if_False
      e1 md Let_def n_def [symmetric]
    by (auto split: if_split)
  moreover have "contains_range r (a - 16) 16 \<and> contains_range r a n \<longleftrightarrow>
      rg_base r + 16 \<le> a \<and> rg_base r + rg_size r < usize_bound \<and> a + n \<le> rg_base r + rg_size r"
    using True unfolding contains_range_iff by linarith
  ultimately show ?thesis
    using True unfolding n_def [symmetric] by (cases "a mod 8 = 0") (auto simp: msg_bytes_def)
next
  case False
  then show ?thesis
    by (auto simp: msg_from_address_def msg_prefix_def rbind_Inr split: if_splits)
qed

text \<open>
  The header check does not look at the alignment of the input queue's address: a header that is
  good otherwise but names a misaligned queue stops the client with a panic, not with an error.
\<close>

theorem misaligned_queue_panics:
  assumes "address mod 8 = 0" and "contains_range r address shmem_header_bytes"
    and "sh_version (shmem_header_at m address) = shmem_version"
    and "q = sh_input_queue (shmem_header_at m address)" and "contains_range r q queue_header_size"
    and "q mod cache_line_bytes \<noteq> 0"
  shows "validate_shmem r m queues address = Inl (Panic ''queue base is cache-line aligned'')"
  using assms by (simp add: validate_shmem_def Let_def queue_attach_def queue_fault_def)

lemma misaligned_queue_panics_witness:
  "validate_shmem \<lparr>rg_base = 4096, rg_size = 4096\<rparr>
     (store (store (\<lambda>_. 0) 4096 (to_ne_bytes 4 (2 :: u32))) 4104 (word_image 4200)) (\<lambda>_. sample_queue 0 [0, 0, 0]) 4096 =
     Inl (Panic ''queue base is cache-line aligned'')"
proof -
  let ?m = "store (store (\<lambda>_. 0) 4096 (to_ne_bytes 4 (2 :: u32))) 4104 (word_image 4200) :: memory"
  have "sh_version (shmem_header_at ?m 4096) = shmem_version" "sh_input_queue (shmem_header_at ?m 4096) = 4200"
    by (simp_all add: shmem_header_at_def load_store_other load_store_at shmem_version_def usize_bound_def)
  then show ?thesis
    by (intro misaligned_queue_panics [where q = 4200])
      (simp_all add: contains_range_iff shmem_header_bytes_def queue_header_size_def cache_line_bytes_def usize_bound_def)
qed

end
