(* ===== verification/Api_Declarations.thy ===== *)
theory Api_Declarations
  imports Utf8
begin

text \<open>
  Static Binary API declarations, \<^verbatim>\<open>hammer-binary-api-protocol/src/api.rs\<close>: declaration
  blocks, their compile-time validation, and the CRC that identifies a message on the server.
  The lemmas show that the CRC is the CRC-32 of the declaration's canonical text followed by
  the text of every type it refers to, and that a one-byte change of that text changes it.
\<close>

section \<open>Declarations\<close>

datatype block =
    Fields "field list"
  | EnumValues "(string \<times> int) list"
  | Alias
and field =
    Field (field_name: string) (field_type: string) (field_block: "block option")
      (field_length: "nat option") (length_field: "string option")

record service =
  caller :: string
  reply :: "string option"
  stream :: bool
  stream_message :: "string option"
  events :: "string list"

section \<open>Variable-length fields\<close>

fun is_vla :: "block \<Rightarrow> bool" and field_vla :: "field \<Rightarrow> bool" where
  "is_vla (Fields fs) = list_ex field_vla fs"
| "is_vla (EnumValues vs) = False"
| "is_vla Alias = False"
| "field_vla (Field n t b len lf) =
     (lf \<noteq> None \<or> len = Some 0 \<or> (case b of None \<Rightarrow> False | Some b' \<Rightarrow> is_vla b'))"

text \<open>\<^verbatim>\<open>Block::validate\<close> panics (at compile time) with its message; \<open>Inr ()\<close> is a normal return.\<close>

fun validate_block :: "block \<Rightarrow> string + unit" and validate_fields :: "field list \<Rightarrow> string + unit" where
  "validate_block (Fields fs) = validate_fields fs"
| "validate_block (EnumValues vs) = Inr ()"
| "validate_block Alias = Inr ()"
| "validate_fields [] = Inr ()"
| "validate_fields (Field n t b len lf # fs) =
     rbind (case b of None \<Rightarrow> Inr () | Some b' \<Rightarrow> validate_block b') (\<lambda>_.
       if field_vla (Field n t b len lf) \<and> fs \<noteq> [] then Inl ''VLA must be the last API field''
       else validate_fields fs)"

section \<open>CRC\<close>

definition crc_bit :: "u32 \<Rightarrow> u32" where
  "crc_bit crc = drop_bit 1 crc XOR (0xedb88320 AND (0 - (crc AND 1)))"

definition byte_crc :: "u32 \<Rightarrow> u8 \<Rightarrow> u32" where
  "byte_crc crc b = (crc_bit ^^ 8) (crc XOR ucast b)"

definition text_crc :: "u32 \<Rightarrow> string \<Rightarrow> u32" where
  "text_crc crc s = foldl byte_crc crc (str_bytes s)"

definition quoted_crc :: "u32 \<Rightarrow> string \<Rightarrow> u32" where
  "quoted_crc crc s = byte_crc (text_crc (byte_crc crc 39) s) 39"

text \<open>
  The two loops of \<^verbatim>\<open>integer_crc\<close>: the divisor grows to the leading digit's place, then the
  digits are fed from there down to the units.
\<close>

function leading_divisor :: "nat \<Rightarrow> nat \<Rightarrow> nat" where
  "leading_divisor v divisor =
     (if 10 \<le> v div divisor then leading_divisor v (divisor * 10) else divisor)"
  by pat_completeness auto
termination
proof (relation "measure (\<lambda>(v, divisor). v - divisor)")
  fix v divisor :: nat
  assume ten: "10 \<le> v div divisor"
  have pos: "0 < divisor"
    using ten by (cases "divisor = 0") auto
  have "10 * divisor \<le> v"
    using ten pos by (simp add: less_eq_div_iff_mult_less_eq)
  with pos have "v - divisor * 10 < v - divisor"
    by arith
  then show "((v, divisor * 10), (v, divisor)) \<in> measure (\<lambda>(v, divisor). v - divisor)"
    by simp
qed simp

function digits_crc :: "u32 \<Rightarrow> nat \<Rightarrow> nat \<Rightarrow> u32" where
  "digits_crc crc v divisor =
     (let crc' = byte_crc crc (48 + word_of_nat ((v div divisor) mod 10)) in
      if divisor \<le> 1 then crc' else digits_crc crc' v (divisor div 10))"
  by pat_completeness auto
termination
  by (relation "measure (\<lambda>(crc, v, divisor). divisor)") auto

declare leading_divisor.simps [simp del] digits_crc.simps [simp del]

definition integer_crc :: "u32 \<Rightarrow> nat \<Rightarrow> u32" where
  "integer_crc crc v = digits_crc crc v (leading_divisor v 1)"

text \<open>One field of \<^verbatim>\<open>block_crc\<close>'s loop, and the loop with its separator test.\<close>

definition field_crc :: "u32 \<Rightarrow> field \<Rightarrow> u32" where
  "field_crc crc f =
     (let crc = text_crc crc [CHR ''['', CHR 0x27];
          crc = (if field_block f \<noteq> None then text_crc crc ''vl_api_'' else crc);
          crc = text_crc crc (field_type f);
          crc = (if field_block f \<noteq> None then text_crc crc ''_t'' else crc);
          crc = text_crc crc (CHR 0x27 # '', '');
          crc = quoted_crc crc (field_name f);
          crc = (case field_length f of
                   None \<Rightarrow> crc
                 | Some len \<Rightarrow>
                     let crc = integer_crc (text_crc crc '', '') len;
                         crc = text_crc crc '', ''
                     in case length_field f of
                          Some name \<Rightarrow> quoted_crc crc name
                        | None \<Rightarrow> text_crc crc ''None'')
      in byte_crc crc 93)"

definition enum_value_crc :: "u32 \<Rightarrow> string \<times> int \<Rightarrow> u32" where
  "enum_value_crc crc nv =
     (let crc = quoted_crc (byte_crc crc 91) (fst nv);
          crc = text_crc crc '', '';
          crc = (if snd nv < 0 then byte_crc crc 45 else crc);
          crc = integer_crc crc (nat \<bar>snd nv\<bar>)
      in byte_crc crc 93)"

fun separated_crc :: "(u32 \<Rightarrow> 'a \<Rightarrow> u32) \<Rightarrow> nat \<Rightarrow> u32 \<Rightarrow> 'a list \<Rightarrow> u32" where
  "separated_crc item index crc [] = crc"
| "separated_crc item index crc (x # xs) =
     separated_crc item (Suc index) (item (if index \<noteq> 0 then text_crc crc '', '' else crc) x) xs"

definition block_crc :: "u32 \<Rightarrow> block \<Rightarrow> u32" where
  "block_crc crc b =
     (let crc = byte_crc crc 91;
          crc = (case b of
                   Fields fs \<Rightarrow> separated_crc field_crc 0 crc fs
                 | EnumValues vs \<Rightarrow> separated_crc enum_value_crc 0 crc vs
                 | Alias \<Rightarrow> crc)
      in byte_crc crc 93)"

fun fold_block :: "block \<Rightarrow> u32 \<Rightarrow> u32" and fold_fields :: "field list \<Rightarrow> u32 \<Rightarrow> u32" where
  "fold_block (Fields fs) crc = fold_fields fs crc"
| "fold_block (EnumValues vs) crc = crc"
| "fold_block Alias crc = crc"
| "fold_fields [] crc = crc"
| "fold_fields (Field n t b len lf # fs) crc =
     fold_fields fs (case b of None \<Rightarrow> crc | Some dep \<Rightarrow> fold_block dep (block_crc crc dep))"

definition crc_of :: "block \<Rightarrow> string + u32" where
  "crc_of b = rbind (validate_block b) (\<lambda>_. Inr (NOT (fold_block b (block_crc (NOT 0) b))))"

definition file_crc :: "block list \<Rightarrow> u32" where
  "file_crc blocks = NOT (foldl block_crc (NOT 0) blocks)"

section \<open>Identities\<close>

definition hex_digits :: string where
  "hex_digits = ''0123456789abcdef''"

definition name_crc :: "nat \<Rightarrow> string \<Rightarrow> u32 \<Rightarrow> string + string" where
  "name_crc n name crc =
     (if n \<noteq> length name + 9 then Inl ''API name_crc length must match its name''
      else Inr (name @ ''_'' @
        map (\<lambda>digit. hex_digits ! unat (drop_bit ((7 - digit) * 4) crc AND 15)) [0..<8]))"

fun same_bytes :: "string \<Rightarrow> string \<Rightarrow> bool" where
  "same_bytes (x # xs) (y # ys) = (if x \<noteq> y then False else same_bytes xs ys)"
| "same_bytes xs ys = True"

definition same_name :: "string \<Rightarrow> string \<Rightarrow> bool" where
  "same_name left right = (if length left \<noteq> length right then False else same_bytes left right)"

text \<open>\<^verbatim>\<open>validate_services\<close>: no caller of the set may also be a reply of the set.\<close>

definition validate_services :: "service option list \<Rightarrow> string + unit" where
  "validate_services services =
     rbind (collect_res (\<lambda>s. case s of
         None \<Rightarrow> Inr []
       | Some service \<Rightarrow> collect_res (\<lambda>p. case p of
             None \<Rightarrow> Inr ()
           | Some peer \<Rightarrow> (case reply peer of
               None \<Rightarrow> Inr ()
             | Some r \<Rightarrow> if same_name (caller service) r then Inl ''API caller is also a reply'' else Inr ()))
           services)
       services) (\<lambda>_. Inr ())"

section \<open>The canonical text of a declaration\<close>

abbreviation quote_char :: char where
  "quote_char \<equiv> CHR 0x27"

definition quoted :: "string \<Rightarrow> string" where
  "quoted s = quote_char # s @ [quote_char]"

definition digit_char :: "nat \<Rightarrow> char" where
  "digit_char d = char_of (48 + d)"

fun decimal :: "nat \<Rightarrow> string" where
  "decimal n = (if n < 10 then [digit_char n] else decimal (n div 10) @ [digit_char (n mod 10)])"

declare decimal.simps [simp del]

definition render_field :: "field \<Rightarrow> string" where
  "render_field f =
     ''['' @ quoted (if field_block f \<noteq> None then ''vl_api_'' @ field_type f @ ''_t'' else field_type f) @
     '', '' @ quoted (field_name f) @
     (case field_length f of
        None \<Rightarrow> []
      | Some n \<Rightarrow> '', '' @ decimal n @ '', '' @
          (case length_field f of Some m \<Rightarrow> quoted m | None \<Rightarrow> ''None'')) @ '']''"

definition render_enum_value :: "string \<times> int \<Rightarrow> string" where
  "render_enum_value nv =
     ''['' @ quoted (fst nv) @ '', '' @ (if snd nv < 0 then ''-'' else []) @
     decimal (nat \<bar>snd nv\<bar>) @ '']''"

fun separated :: "string list \<Rightarrow> string" where
  "separated [] = []"
| "separated [x] = x"
| "separated (x # xs) = x @ '', '' @ separated xs"

definition render_block :: "block \<Rightarrow> string" where
  "render_block b =
     ''['' @ (case b of
        Fields fs \<Rightarrow> separated (map render_field fs)
      | EnumValues vs \<Rightarrow> separated (map render_enum_value vs)
      | Alias \<Rightarrow> []) @ '']''"

text \<open>The text of every referenced type, in field order, each followed by its own references.\<close>

fun render_deps :: "block \<Rightarrow> string" and render_field_deps :: "field list \<Rightarrow> string" where
  "render_deps (Fields fs) = render_field_deps fs"
| "render_deps (EnumValues vs) = []"
| "render_deps Alias = []"
| "render_field_deps [] = []"
| "render_field_deps (Field n t b len lf # fs) =
     (case b of None \<Rightarrow> [] | Some dep \<Rightarrow> render_block dep @ render_deps dep) @ render_field_deps fs"

section \<open>The CRC is a CRC of the text\<close>

lemma text_crc_append: "text_crc crc (s @ t) = text_crc (text_crc crc s) t"
  by (simp add: text_crc_def)

lemma text_crc_Nil [simp]: "text_crc crc [] = crc"
  by (simp add: text_crc_def)

lemma text_crc_Cons: "text_crc crc (c # s) = text_crc (byte_crc crc (byte_of_char c)) s"
  by (simp add: text_crc_def)

lemma byte_crc_literal:
  "byte_crc crc 39 = text_crc crc [quote_char]"
  "byte_crc crc 91 = text_crc crc ''[''"
  "byte_crc crc 93 = text_crc crc '']''"
  "byte_crc crc 45 = text_crc crc ''-''"
  by (simp_all add: text_crc_def byte_of_char_def)

lemma quoted_crc_text: "quoted_crc crc s = text_crc crc (quoted s)"
  using text_crc_append [of _ "quote_char # s" "[quote_char]"]
  by (simp add: quoted_crc_def quoted_def byte_crc_literal text_crc_Cons)

fun places :: "nat \<Rightarrow> nat \<Rightarrow> string" where
  "places 0 v = [digit_char (v mod 10)]"
| "places (Suc k) v = digit_char ((v div 10 ^ Suc k) mod 10) # places k v"

lemma places_snoc: "places (Suc k) v = places k (v div 10) @ [digit_char (v mod 10)]"
proof (induction k)
  case 0
  then show ?case by simp
next
  case (Suc k)
  then show ?case
    by (simp flip: div_mult2_eq)
qed

lemma decimal_places:
  "v < 10 ^ Suc k \<Longrightarrow> k = 0 \<or> 10 ^ k \<le> v \<Longrightarrow> decimal v = places k v"
proof (induction k arbitrary: v)
  case 0
  then show ?case by (simp add: decimal.simps)
next
  case (Suc k)
  have "(10 :: nat) \<le> 10 ^ Suc k"
    by simp
  with Suc.prems(2) have "10 \<le> v"
    by linarith
  moreover have "decimal (v div 10) = places k (v div 10)"
    using Suc.prems by (intro Suc.IH) (auto simp: less_mult_imp_div_less less_eq_div_iff_mult_less_eq)
  ultimately show ?case
    by (subst decimal.simps) (simp add: places_snoc del: places.simps)
qed

lemma leading_divisor_power:
  "0 < d \<Longrightarrow> \<exists>j. leading_divisor v d = d * 10 ^ j \<and> v div (d * 10 ^ j) < 10 \<and> (j = 0 \<or> d * 10 ^ j \<le> v)"
proof (induction v d rule: leading_divisor.induct)
  case (1 v d)
  show ?case
  proof (cases "10 \<le> v div d")
    case True
    with 1 obtain j where j: "leading_divisor v (d * 10) = d * 10 * 10 ^ j"
      "v div (d * 10 * 10 ^ j) < 10" "j = 0 \<or> d * 10 * 10 ^ j \<le> v"
      by auto
    have "d * 10 \<le> v"
      using True "1.prems" by (simp add: less_eq_div_iff_mult_less_eq mult.commute)
    with j True show ?thesis
      by (intro exI [of _ "Suc j"]) (auto simp: leading_divisor.simps [of v d] mult.assoc)
  next
    case False
    then show ?thesis
      by (intro exI [of _ 0]) (simp add: leading_divisor.simps [of v d])
  qed
qed

lemma byte_of_digit: "d < 10 \<Longrightarrow> byte_of_char (digit_char d) = 48 + word_of_nat d"
  by (simp add: byte_of_char_def digit_char_def)

lemma digits_crc_places: "digits_crc crc v (10 ^ k) = text_crc crc (places k v)"
proof (induction k arbitrary: crc)
  case 0
  then show ?case
    by (subst digits_crc.simps) (simp add: text_crc_Cons byte_of_digit)
next
  case (Suc k)
  have "\<not> 10 ^ Suc k \<le> (1 :: nat)"
    using one_less_power [of "10 :: nat" "Suc k"] by simp
  with Suc show ?case
    by (subst digits_crc.simps) (simp add: text_crc_Cons byte_of_digit)
qed

lemma integer_crc_decimal: "integer_crc crc v = text_crc crc (decimal v)"
proof -
  obtain j where j: "leading_divisor v 1 = 10 ^ j" "v div 10 ^ j < 10" "j = 0 \<or> 10 ^ j \<le> v"
    using leading_divisor_power [of 1 v] by auto
  then have "v < 10 ^ Suc j"
    by (simp add: div_less_iff_less_mult)
  with j show ?thesis
    by (simp add: integer_crc_def digits_crc_places decimal_places)
qed

lemma leading_divisor_le: "leading_divisor v 1 \<le> max 1 v"
  using leading_divisor_power [of 1 v] by auto

lemmas crc_text = text_crc_append quoted_crc_text integer_crc_decimal byte_crc_literal

lemma field_crc_text: "field_crc crc f = text_crc crc (render_field f)"
  by (cases f) (auto simp: field_crc_def render_field_def quoted_def Let_def crc_text
      text_crc_Cons split: option.splits)

lemma enum_value_crc_text: "enum_value_crc crc nv = text_crc crc (render_enum_value nv)"
  by (auto simp: enum_value_crc_def render_enum_value_def Let_def crc_text text_crc_Cons)

lemma separated_Cons: "xs \<noteq> [] \<Longrightarrow> separated (x # xs) = x @ '', '' @ separated xs"
  by (cases xs) auto

lemma separated_crc_text:
  assumes "\<And>crc x. item crc x = text_crc crc (render x)"
  shows "separated_crc item index crc xs =
     text_crc crc (if index = 0 \<or> xs = [] then separated (map render xs) else '', '' @ separated (map render xs))"
proof (induction xs arbitrary: index crc)
  case Nil
  then show ?case by simp
next
  case (Cons x xs)
  then show ?case
    by (cases "xs = []") (auto simp: assms text_crc_append text_crc_Cons separated_Cons)
qed

lemma block_crc_text: "block_crc crc b = text_crc crc (render_block b)"
  by (cases b) (auto simp: block_crc_def render_block_def Let_def byte_crc_literal text_crc_append text_crc_Cons
      separated_crc_text [OF field_crc_text] separated_crc_text [OF enum_value_crc_text])

lemma fold_block_text:
  "fold_block b crc = text_crc crc (render_deps b)"
  "fold_fields fs crc = text_crc crc (render_field_deps fs)"
  by (induction b crc and fs crc rule: fold_block_fold_fields.induct)
    (auto simp: block_crc_text text_crc_append split: option.splits)

lemma crc_of_text:
  "crc_of b = rbind (validate_block b) (\<lambda>_. Inr (NOT (text_crc (NOT 0) (render_block b @ render_deps b))))"
  by (simp add: crc_of_def fold_block_text block_crc_text text_crc_append)

lemma file_crc_text: "file_crc bs = NOT (text_crc (NOT 0) (concat (map render_block bs)))"
proof -
  have "foldl block_crc crc bs = text_crc crc (concat (map render_block bs))" for crc
    by (induction bs arbitrary: crc) (simp_all add: block_crc_text text_crc_append)
  then show ?thesis by (simp add: file_crc_def)
qed

section \<open>A changed byte changes the CRC\<close>

lemma bit_31_poly: "bit (0xedb88320 :: u32) 31"
  by simp

lemma crc_bit_top: "bit (crc_bit c) 31 \<longleftrightarrow> bit c 0"
proof (cases "bit c 0")
  case True
  then have "c AND 1 = 1"
    by (simp add: and_one_eq bit_0 odd_iff_mod_2_eq_one)
  then show ?thesis
    using True bit_imp_le_length [of c 32] by (auto simp: crc_bit_def bit_xor_iff bit_drop_bit_eq)
next
  case False
  then have "c AND 1 = 0"
    by (simp add: and_one_eq bit_0 even_iff_mod_2_eq_zero)
  then show ?thesis
    using False bit_imp_le_length [of c 32] by (auto simp: crc_bit_def bit_drop_bit_eq)
qed

lemma crc_bit_inj: "inj crc_bit"
proof (rule injI)
  fix c d
  assume eq: "crc_bit c = crc_bit d"
  then have low: "bit c 0 \<longleftrightarrow> bit d 0"
    using crc_bit_top [of c] crc_bit_top [of d] by simp
  then have "c AND 1 = d AND 1"
    by (simp add: and_one_eq bit_0 even_iff_mod_2_eq_zero odd_iff_mod_2_eq_one)
      (metis even_iff_mod_2_eq_zero odd_iff_mod_2_eq_one)
  with eq have drop: "drop_bit 1 c = drop_bit 1 d"
    unfolding crc_bit_def by (metis bit.xor_left_self xor.commute)
  show "c = d"
  proof (rule bit_word_eqI)
    fix n
    show "bit c n = bit d n"
      using low drop by (cases n) (auto simp: bit_drop_bit_eq dest: arg_cong [where f = "\<lambda>w. bit w (n - 1)"])
  qed
qed

lemma xor_cancel_right: "(c :: 'a::len word) XOR x = d XOR x \<Longrightarrow> c = d"
  by (intro bit_word_eqI) (auto simp: bit_xor_iff dest: arg_cong [where f = "\<lambda>w. bit w _"])

lemma xor_cancel_left: "(x :: 'a::len word) XOR c = x XOR d \<Longrightarrow> c = d"
  by (rule xor_cancel_right [of c x d]) (simp only: xor.commute)

lemma crc_bits_inj: "inj (crc_bit ^^ n)"
  by (rule inj_fn [OF crc_bit_inj])

lemma byte_crc_inj: "byte_crc c a = byte_crc d b \<Longrightarrow> c XOR ucast a = d XOR ucast b"
  unfolding byte_crc_def by (rule injD [OF crc_bits_inj])

lemma byte_crc_inj_crc: "byte_crc c b = byte_crc d b \<Longrightarrow> c = d"
  by (rule xor_cancel_right [OF byte_crc_inj])

lemma byte_crc_inj_byte: "byte_crc c a = byte_crc c b \<Longrightarrow> a = b"
proof -
  assume "byte_crc c a = byte_crc c b"
  then have eq: "(ucast a :: u32) = ucast b"
    by (rule xor_cancel_left [OF byte_crc_inj])
  have "bit a n = bit b n" if "n < 8" for n
    using that arg_cong [OF eq, of "\<lambda>w. bit w n"] by (simp add: bit_ucast_iff)
  then show ?thesis by (intro bit_word_eqI) simp
qed

lemma text_crc_inj_crc: "text_crc c s = text_crc d s \<Longrightarrow> c = d"
  by (induction s arbitrary: c d) (auto simp: text_crc_Cons dest: byte_crc_inj_crc)

lemma text_crc_one_byte:
  assumes "x \<noteq> y"
  shows "text_crc c (pre @ x # post) \<noteq> text_crc c (pre @ y # post)"
proof
  assume "text_crc c (pre @ x # post) = text_crc c (pre @ y # post)"
  then have "byte_crc (text_crc c pre) (byte_of_char x) = byte_crc (text_crc c pre) (byte_of_char y)"
    by (auto simp: text_crc_append text_crc_Cons dest: text_crc_inj_crc)
  then have "byte_of_char x = byte_of_char y"
    by (rule byte_crc_inj_byte)
  with assms show False
    by (metis char_of_byte_of_char)
qed

section \<open>Validation\<close>

text \<open>What \<open>validate_block\<close> accepts: at every level only the last field may be variable-length.\<close>

fun vla_last :: "block \<Rightarrow> bool" and vla_last_fields :: "field list \<Rightarrow> bool" where
  "vla_last (Fields fs) = (list_all (\<lambda>f. \<not> field_vla f) (butlast fs) \<and> vla_last_fields fs)"
| "vla_last (EnumValues vs) = True"
| "vla_last Alias = True"
| "vla_last_fields [] = True"
| "vla_last_fields (Field n t b len lf # fs) =
     ((case b of None \<Rightarrow> True | Some b' \<Rightarrow> vla_last b') \<and> vla_last_fields fs)"

lemma validate_block_Inr:
  "validate_block b = Inr () \<longleftrightarrow> vla_last b"
  "validate_fields fs = Inr () \<longleftrightarrow> list_all (\<lambda>f. \<not> field_vla f) (butlast fs) \<and> vla_last_fields fs"
proof (induction b and fs rule: validate_block_validate_fields.induct)
  case (5 n t b len lf fs)
  then show ?case
    by (cases b) (auto simp: rbind_Inr simp del: field_vla.simps)
qed auto

lemma same_bytes_eq: "length xs = length ys \<Longrightarrow> same_bytes xs ys \<longleftrightarrow> xs = ys"
  by (induction xs ys rule: list_induct2) auto

lemma same_name_eq: "same_name a b \<longleftrightarrow> a = b"
  by (auto simp: same_name_def same_bytes_eq)

lemma validate_services_Inr:
  "validate_services ss = Inr () \<longleftrightarrow>
     (\<forall>s p. Some s \<in> set ss \<longrightarrow> Some p \<in> set ss \<longrightarrow> reply p \<noteq> Some (caller s))"
proof -
  let ?inner = "\<lambda>service p. case p of None \<Rightarrow> Inr ()
     | Some peer \<Rightarrow> (case reply peer of None \<Rightarrow> Inr ()
        | Some r \<Rightarrow> if same_name (caller service) r then Inl ''API caller is also a reply'' else Inr ())"
  have inner: "(\<exists>us. collect_res (?inner s) ps = Inr us) \<longleftrightarrow>
      (\<forall>p. Some p \<in> set ps \<longrightarrow> reply p \<noteq> Some (caller s))" for s ps
    by (induction ps) (auto simp: rbind_Inr same_name_eq split: option.splits)
  have outer: "(\<exists>vs. collect_res (\<lambda>s. case s of None \<Rightarrow> Inr []
        | Some service \<Rightarrow> collect_res (?inner service) ps) qs = Inr vs) \<longleftrightarrow>
      (\<forall>s. Some s \<in> set qs \<longrightarrow> (\<exists>us. collect_res (?inner s) ps = Inr us))" for qs ps
    by (induction qs) (auto simp: rbind_Inr split: option.splits)
  show ?thesis
    using outer [of ss ss] by (auto simp: validate_services_def rbind_Inr inner)
qed

lemma hex_digit_distinct: "i < 16 \<Longrightarrow> j < 16 \<Longrightarrow> hex_digits ! i = hex_digits ! j \<Longrightarrow> i = j"
  by (simp add: hex_digits_def nth_eq_iff_index_eq)

lemma name_crc_length: "name_crc n name crc = Inr s \<Longrightarrow> length s = n"
  by (auto simp: name_crc_def split: if_splits)

section \<open>Properties of declarations\<close>

text \<open>Eight nibbles make the word, so the printed identity determines the CRC.\<close>

lemma crc_nibbles_inj:
  fixes c d :: u32
  assumes "\<And>k. k < 8 \<Longrightarrow> drop_bit (k * 4) c AND 15 = drop_bit (k * 4) d AND 15"
  shows "c = d"
proof (rule bit_word_eqI)
  fix n
  assume "n < LENGTH(32)"
  then have k: "n div 4 < 8" and n: "n = n div 4 * 4 + n mod 4" and m: "n mod 4 < 4"
    by simp_all
  have fifteen: "bit (15 :: u32) i" if "i < 4" for i
    using that by (auto simp: less_Suc_eq numeral_eq_Suc bit_Suc)
  have "bit (drop_bit (n div 4 * 4) c AND 15) (n mod 4) = bit (drop_bit (n div 4 * 4) d AND 15) (n mod 4)"
    using assms [OF k] by simp
  then show "bit c n = bit d n"
    using n fifteen [OF m] by (simp add: bit_and_iff bit_drop_bit_eq comp_def)
qed

lemma name_crc_inj:
  assumes "name_crc n name c = Inr s" and "name_crc n name d = Inr s"
  shows "c = d"
proof (rule crc_nibbles_inj)
  fix k :: nat
  assume k: "k < 8"
  let ?nib = "\<lambda>w. unat (drop_bit (k * 4) w AND (15 :: u32))"
  have lt: "?nib w < 16" for w
  proof -
    have "drop_bit (k * 4) w AND 15 \<le> 15"
      by (rule word_and_le1)
    then show ?thesis
      by (simp add: word_le_nat_alt)
  qed
  have "hex_digits ! ?nib c = hex_digits ! ?nib d"
  proof -
    have "map (\<lambda>digit. hex_digits ! unat (drop_bit ((7 - digit) * 4) c AND 15)) [0..<8] =
        map (\<lambda>digit. hex_digits ! unat (drop_bit ((7 - digit) * 4) d AND 15)) [0..<8]"
      using assms by (auto simp: name_crc_def split: if_splits)
    from arg_cong [OF this, of "\<lambda>xs. xs ! (7 - k)"] show ?thesis
      using k nth_upt [of 0 "7 - k" 8] by (simp only: nth_map length_upt) simp
  qed
  then have "?nib c = ?nib d"
    using hex_digit_distinct lt by blast
  then show "drop_bit (k * 4) c AND 15 = drop_bit (k * 4) d AND 15"
    by (simp only: word_unat_eq_iff)
qed

text \<open>
  C28. A declaration's CRC exists exactly when every variable-length field is the last one of its
  block, and is then the reflected CRC-32 of its canonical text followed by the text of every
  type it refers to.
\<close>

theorem crc_of_canonical_text:
  "crc_of b = Inr c \<longleftrightarrow>
     vla_last b \<and> c = NOT (text_crc (NOT 0) (render_block b @ render_deps b))"
  by (auto simp: crc_of_text rbind_Inr validate_block_Inr)

text \<open>
  Two declarations whose canonical texts differ in one byte get different message
  identities.
\<close>

theorem name_crc_detects_one_byte:
  assumes "crc_of b = Inr c" and "crc_of b' = Inr c'"
    and "render_block b @ render_deps b = pre @ x # post"
    and "render_block b' @ render_deps b' = pre @ y # post"
    and "x \<noteq> y" and "name_crc n name c = Inr s" and "name_crc n name c' = Inr s'"
  shows "s \<noteq> s'"
proof
  assume "s = s'"
  with assms(6,7) have "c = c'"
    by (auto intro: name_crc_inj)
  moreover have "NOT (text_crc (NOT 0) (pre @ x # post)) \<noteq> NOT (text_crc (NOT 0) (pre @ y # post))"
    using text_crc_one_byte [OF assms(5)] by (simp add: bit.compl_eq_compl_iff)
  ultimately show False
    using assms(1-4) by (auto simp: crc_of_text rbind_Inr)
qed

text \<open>The witness of C8 renames one field of a one-field message.\<close>

abbreviation one_field :: "string \<Rightarrow> block" where
  "one_field name \<equiv> Fields [Field name ''u32'' None None None]"

lemma name_crc_detects_one_byte_witness:
  "''m_'' @ map (\<lambda>digit. hex_digits ! unat (drop_bit ((7 - digit) * 4)
       (NOT (text_crc (NOT 0) (render_block (one_field ''a'')))) AND 15)) [0..<8] \<noteq>
   ''m_'' @ map (\<lambda>digit. hex_digits ! unat (drop_bit ((7 - digit) * 4)
       (NOT (text_crc (NOT 0) (render_block (one_field ''b'')))) AND 15)) [0..<8]"
proof (rule name_crc_detects_one_byte)
  show "crc_of (one_field ''a'') = Inr (NOT (text_crc (NOT 0) (render_block (one_field ''a''))))"
    "crc_of (one_field ''b'') = Inr (NOT (text_crc (NOT 0) (render_block (one_field ''b''))))"
    by (simp_all add: crc_of_text)
  show "render_block (one_field ''a'') @ render_deps (one_field ''a'') =
      [CHR ''['', CHR ''['', quote_char, CHR ''u'', CHR ''3'', CHR ''2'', quote_char, CHR '','', CHR '' '', quote_char] @
      CHR ''a'' # [quote_char, CHR '']'', CHR '']'']"
    "render_block (one_field ''b'') @ render_deps (one_field ''b'') =
      [CHR ''['', CHR ''['', quote_char, CHR ''u'', CHR ''3'', CHR ''2'', quote_char, CHR '','', CHR '' '', quote_char] @
      CHR ''b'' # [quote_char, CHR '']'', CHR '']'']"
    by (simp_all add: render_block_def render_field_def quoted_def)
  show "name_crc 10 ''m'' (NOT (text_crc (NOT 0) (render_block (one_field ''a'')))) =
      Inr (''m_'' @ map (\<lambda>digit. hex_digits ! unat (drop_bit ((7 - digit) * 4)
       (NOT (text_crc (NOT 0) (render_block (one_field ''a'')))) AND 15)) [0..<8])"
    "name_crc 10 ''m'' (NOT (text_crc (NOT 0) (render_block (one_field ''b'')))) =
      Inr (''m_'' @ map (\<lambda>digit. hex_digits ! unat (drop_bit ((7 - digit) * 4)
       (NOT (text_crc (NOT 0) (render_block (one_field ''b'')))) AND 15)) [0..<8])"
    by (simp_all add: name_crc_def)
qed simp

text \<open>
  The digit loops print a 64-bit integer in decimal, and their divisor never exceeds the
  integer, so the multiplications by ten stay in 64 bits.
\<close>

theorem integer_crc_prints_decimal:
  "integer_crc crc v = text_crc crc (decimal v) \<and> leading_divisor v 1 \<le> max 1 v"
  using integer_crc_decimal leading_divisor_le by blast

text \<open>
  A service set is accepted exactly when no caller of the set is a reply of the set.
\<close>

theorem validate_services_accepts:
  "validate_services ss = Inr () \<longleftrightarrow>
     {caller s | s. Some s \<in> set ss} \<inter> {r. \<exists>p. Some p \<in> set ss \<and> reply p = Some r} = {}"
  by (auto simp: validate_services_Inr)

text \<open>Evaluation of a CRC by the simplifier: one shift, and one exclusive or when the low bit is set.\<close>

lemma crc_bit_numeral:
  "crc_bit (numeral (num.Bit0 n)) = drop_bit 1 (numeral (num.Bit0 n))"
  "crc_bit (numeral (num.Bit1 n)) = drop_bit 1 (numeral (num.Bit1 n)) XOR 0xedb88320"
  "crc_bit 1 = 0xedb88320"
  "crc_bit 0 = 0"
  by (simp_all add: crc_bit_def)

lemma byte_crc_steps:
  "byte_crc c b = crc_bit (crc_bit (crc_bit (crc_bit
     (crc_bit (crc_bit (crc_bit (crc_bit (c XOR ucast b))))))))"
  by (simp add: byte_crc_def numeral_eq_Suc)

lemma all_ones_u32: "(- 1 :: u32) = 0xffffffff"
  by simp

lemmas crc_eval = text_crc_def byte_of_char_def byte_crc_steps crc_bit_numeral all_ones_u32

text \<open>
  The CRC is the standard one: its value on the usual check string.
\<close>

theorem text_crc_check_value:
  "NOT (text_crc (NOT 0) ''123456789'') = 0xCBF43926"
  by (simp add: crc_eval)

end
