(* ===== verification/Api_Message.thy ===== *)
theory Api_Message
  imports Codec_Wire Api_Declarations
begin

text \<open>
  What every Binary API message has in common: the \<^verbatim>\<open>Api\<close> trait of
  \<^verbatim>\<open>hammer-binary-api-protocol/src/api.rs\<close>, the fixed-size string of \<^verbatim>\<open>value.rs\<close>, and the
  two halves of a derived Serde implementation. The locale \<open>api_message\<close> is the contract of
  a message type; its lemmas give every instance its round trip and its header.
\<close>

section \<open>Fixed-size strings\<close>

definition fixed_empty :: "nat \<Rightarrow> bytes" where
  "fixed_empty n = replicate n 0"

definition fixed_from_str :: "nat \<Rightarrow> string \<Rightarrow> bytes" where
  "fixed_from_str n v =
     (let len = min (length v) (n - 1) in splice (replicate n 0) 0 (take len (str_bytes v)))"

definition fixed_end :: "bytes \<Rightarrow> nat" where
  "fixed_end bs = (case position (\<lambda>b. b = 0) bs of Some i \<Rightarrow> i | None \<Rightarrow> length bs)"

definition fixed_as_str :: "bytes \<Rightarrow> string option" where
  "fixed_as_str bs = from_utf8 (take (fixed_end bs) bs)"

definition fixed_into_string :: "bytes \<Rightarrow> string" where
  "fixed_into_string bs = from_utf8_lossy (take (fixed_end bs) bs)"

text \<open>Its Serde implementation: a tuple of \<open>N\<close> bytes in both directions.\<close>

definition fixed_sval :: "bytes \<Rightarrow> sval" where
  "fixed_sval bs = Tuple (map (\<lambda>b. IntV (U8 b)) bs)"

abbreviation fixed_ty :: "nat \<Rightarrow> ty" where
  "fixed_ty n \<equiv> TArray n (TInt TyU8)"

section \<open>Reading fields back\<close>

text \<open>
  A derived \<^verbatim>\<open>Deserialize\<close> takes the visited fields by position and their declared type; these
  are the projections it applies to values the codec produced.
\<close>

fun nth_field :: "sval \<Rightarrow> nat \<Rightarrow> sval" where
  "nth_field (Struct fs) i = (if i < length fs then snd (fs ! i) else Unit)"
| "nth_field _ i = Unit"

fun u8_of :: "sval \<Rightarrow> u8" where
  "u8_of (IntV (U8 w)) = w" | "u8_of _ = 0"

fun u16_of :: "sval \<Rightarrow> u16" where
  "u16_of (IntV (U16 w)) = w" | "u16_of _ = 0"

fun u32_of :: "sval \<Rightarrow> u32" where
  "u32_of (IntV (U32 w)) = w" | "u32_of _ = 0"

fun i32_of :: "sval \<Rightarrow> u32" where
  "i32_of (IntV (I32 w)) = w" | "i32_of _ = 0"

fun u64_of :: "sval \<Rightarrow> u64" where
  "u64_of (IntV (U64 w)) = w" | "u64_of _ = 0"

fun bool_of :: "sval \<Rightarrow> bool" where
  "bool_of (Bool b) = b" | "bool_of _ = False"

fun str_of :: "sval \<Rightarrow> string" where
  "str_of (Str s) = s" | "str_of _ = []"

fun newtype_of :: "sval \<Rightarrow> sval" where
  "newtype_of (Newtype v) = v" | "newtype_of _ = Unit"

fun array_of :: "sval \<Rightarrow> sval list" where
  "array_of (Tuple vs) = vs" | "array_of _ = []"

abbreviation fixed_of :: "sval \<Rightarrow> bytes" where
  "fixed_of v \<equiv> map u8_of (array_of v)"

abbreviation u32s_of :: "sval \<Rightarrow> u32 list" where
  "u32s_of v \<equiv> map u32_of (array_of v)"

definition u32s_sval :: "u32 list \<Rightarrow> sval" where
  "u32s_sval ws = Tuple (map (\<lambda>w. IntV (U32 w)) ws)"

section \<open>The Api trait\<close>

record api_decl =
  api_name :: string
  api_block :: block
  name_crc_len :: nat
  api_service :: "service option"
  api_options :: "(string \<times> string option) list"

definition api_crc :: "api_decl \<Rightarrow> string + u32" where
  "api_crc d = crc_of (api_block d)"

definition api_name_crc :: "api_decl \<Rightarrow> string + string" where
  "api_name_crc d = rbind (api_crc d) (name_crc (name_crc_len d) (api_name d))"

definition scalar :: "string \<Rightarrow> string \<Rightarrow> field" where
  "scalar name ft = Field name ft None None None"

definition array :: "string \<Rightarrow> string \<Rightarrow> nat \<Rightarrow> field" where
  "array name ft len = Field name ft None (Some len) None"

definition string_field :: "string \<Rightarrow> nat \<Rightarrow> field" where
  "string_field name len = Field name ''string'' None (Some len) None"

definition declared :: "string \<Rightarrow> string \<Rightarrow> block \<Rightarrow> field" where
  "declared name ft b = Field name ft (Some b) None None"

text \<open>A request with its single reply, the only kind of service declared here.\<close>

definition replies_with :: "string \<Rightarrow> string \<Rightarrow> service option" where
  "replies_with name r =
     Some \<lparr>caller = name, reply = Some r, stream = False, stream_message = None, events = []\<rparr>"

definition decode_message :: "ty \<Rightarrow> (sval \<Rightarrow> 'm) \<Rightarrow> bytes \<Rightarrow> codec_error + 'm" where
  "decode_message schema of_sval bs = rbind (deserialize schema bs) (\<lambda>v. Inr (of_sval v))"

section \<open>Declarations against wire types\<close>

text \<open>
  The wire type a declared field stands for. A field of a declared type is checked by name
  only: an alias block does not say what it aliases.
\<close>

definition primitive_ty :: "string \<Rightarrow> ty option" where
  "primitive_ty t = map_of
     [(''u8'', TInt TyU8), (''u16'', TInt TyU16), (''u32'', TInt TyU32), (''u64'', TInt TyU64),
      (''i8'', TInt TyI8), (''i16'', TInt TyI16), (''i32'', TInt TyI32), (''i64'', TInt TyI64),
      (''bool'', TBool), (''f64'', TF64)] t"

definition declared_ty :: "field \<Rightarrow> ty option" where
  "declared_ty f =
     (case field_length f of
        None \<Rightarrow> primitive_ty (field_type f)
      | Some n \<Rightarrow>
          if field_type f = ''string'' then Some (if n = 0 then TString else fixed_ty n)
          else map_option (TArray n) (primitive_ty (field_type f)))"

fun schema_matches :: "ty \<Rightarrow> block \<Rightarrow> bool" where
  "schema_matches (TStruct (f # fs)) (Fields ds) =
     (f = (''id'', TInt TyU16) \<and>
      list_all2 (\<lambda>f d. fst f = field_name d \<and>
        (field_block d = None \<longrightarrow> declared_ty d = Some (snd f))) fs ds)"
| "schema_matches _ _ = False"

section \<open>Lemmas on the projections\<close>

lemma fixed_sval_typed [simp]: "has_ty (fixed_ty n) (fixed_sval bs) \<longleftrightarrow> length bs = n"
  by (auto simp: fixed_sval_def list_all_length)

lemma u32s_sval_typed [simp]: "has_ty (TArray n (TInt TyU32)) (u32s_sval ws) \<longleftrightarrow> length ws = n"
  by (auto simp: u32s_sval_def list_all_length)

lemma fixed_of_sval [simp]: "fixed_of (fixed_sval bs) = bs"
  by (simp add: fixed_sval_def comp_def)

lemma u32s_of_sval [simp]: "u32s_of (u32s_sval ws) = ws"
  by (simp add: u32s_sval_def comp_def)

lemma int_ty_of_iff:
  "int_ty_of i = TyU8 \<longleftrightarrow> (\<exists>w. i = U8 w)" "int_ty_of i = TyU16 \<longleftrightarrow> (\<exists>w. i = U16 w)"
  "int_ty_of i = TyU32 \<longleftrightarrow> (\<exists>w. i = U32 w)" "int_ty_of i = TyU64 \<longleftrightarrow> (\<exists>w. i = U64 w)"
  "int_ty_of i = TyI32 \<longleftrightarrow> (\<exists>w. i = I32 w)"
  by (cases i; simp)+

lemma length_array_of [simp]:
  "length (array_of (fixed_sval bs)) = length bs"
  "length (array_of (u32s_sval ws)) = length ws"
  by (simp_all add: fixed_sval_def u32s_sval_def)

lemma typed_int:
  "has_ty (TInt TyU8) v \<longleftrightarrow> v = IntV (U8 (u8_of v))"
  "has_ty (TInt TyU16) v \<longleftrightarrow> v = IntV (U16 (u16_of v))"
  "has_ty (TInt TyU32) v \<longleftrightarrow> v = IntV (U32 (u32_of v))"
  "has_ty (TInt TyI32) v \<longleftrightarrow> v = IntV (I32 (i32_of v))"
  "has_ty (TInt TyU64) v \<longleftrightarrow> v = IntV (U64 (u64_of v))"
  "has_ty TBool v \<longleftrightarrow> v = Bool (bool_of v)"
  by (auto simp: int_ty_of_iff split: sval.splits)

lemma typed_string:
  "has_ty TString v \<longleftrightarrow> v = Str (str_of v) \<and> rust_str (str_of v) \<and> length (str_of v) < 2 ^ 32"
  by (cases v) auto

lemma typed_newtype: "has_ty (TNewtype t) v \<longleftrightarrow> v = Newtype (newtype_of v) \<and> has_ty t (newtype_of v)"
  by (cases v) auto

lemma typed_array:
  assumes "\<And>v. has_ty t v \<Longrightarrow> v = f (g v)"
  shows "has_ty (TArray n t) v \<Longrightarrow> v = Tuple (map f (map g (array_of v))) \<and> length (array_of v) = n"
  using assms by (cases v) (auto simp: list_all_length intro!: nth_equalityI)

lemma typed_fixed:
  "has_ty (fixed_ty n) v \<Longrightarrow> v = fixed_sval (fixed_of v) \<and> length (array_of v) = n"
  using typed_array [of "TInt TyU8" "\<lambda>b. IntV (U8 b)" u8_of n v] typed_int(1)
  unfolding fixed_sval_def by metis

lemma typed_u32s:
  "has_ty (TArray n (TInt TyU32)) v \<Longrightarrow> v = u32s_sval (u32s_of v) \<and> length (array_of v) = n"
  using typed_array [of "TInt TyU32" "\<lambda>b. IntV (U32 b)" u32_of n v] typed_int(3)
  unfolding u32s_sval_def by metis

lemma typed_struct:
  "has_ty (TStruct fs) v \<Longrightarrow> \<exists>vs. v = Struct (zip (map fst fs) vs) \<and> list_all2 (\<lambda>f. has_ty (snd f)) fs vs"
proof (cases v)
  case (Struct gs)
  assume "has_ty (TStruct fs) v"
  with Struct have "list_all2 (\<lambda>f g. fst f = fst g \<and> has_ty (snd f) (snd g)) fs gs"
    by (simp add: has_ty_struct_iff)
  then have "gs = zip (map fst fs) (map snd gs) \<and> list_all2 (\<lambda>f. has_ty (snd f)) fs (map snd gs)"
    by (induction rule: list_all2_induct) auto
  with Struct show ?thesis by blast
qed auto

section \<open>Lemmas on fixed-size strings\<close>

lemma fixed_from_str_layout:
  "fixed_from_str n v =
     take (min (length v) (n - 1)) (str_bytes v) @ replicate (n - min (length v) (n - 1)) 0"
  by (simp add: fixed_from_str_def splice_def Let_def)

lemma length_fixed_from_str [simp]: "length (fixed_from_str n v) = n"
  by (simp add: fixed_from_str_layout)

lemma fixed_end_from_str:
  assumes "CHR 0x00 \<notin> set v" and "0 < n"
  shows "fixed_end (fixed_from_str n v) = min (length v) (n - 1)"
proof -
  let ?len = "min (length v) (n - 1)"
  have pad: "replicate (n - ?len) 0 = (0 :: u8) # replicate (n - ?len - 1) 0"
    using assms(2) by (cases "n - ?len") auto
  have "position (\<lambda>b. b = 0) (take ?len (str_bytes v) @ 0 # replicate (n - ?len - 1) 0) =
      Some (length (take ?len (str_bytes v)))"
    using assms(1) by (intro position_append_hit) (auto dest!: in_set_takeD)
  then show ?thesis
    by (simp only: fixed_end_def fixed_from_str_layout pad) simp
qed

section \<open>The contract of a message type\<close>

locale api_message =
  fixes to_sval :: "'m \<Rightarrow> sval"
    and of_sval :: "sval \<Rightarrow> 'm"
    and schema :: ty
    and ok :: "'m \<Rightarrow> bool"
    and decl :: api_decl
    and message_id :: "'m \<Rightarrow> u16"
  assumes to_sval_typed: "ok m \<Longrightarrow> has_ty schema (to_sval m)"
    and of_to: "of_sval (to_sval m) = m"
    and to_of: "has_ty schema v \<Longrightarrow> ok (of_sval v) \<and> to_sval (of_sval v) = v"
    and schema_round_trips: "round_trips schema False"
    and schema_declared: "schema_matches schema (api_block decl)"
    and id_first: "\<exists>rest. wire (to_sval m) False = be_bytes 2 (message_id m) @ rest"
begin

lemma decode_wire:
  assumes "ok m" and "length (wire (to_sval m) False @ rest) < usize_bound"
  shows "decode_message schema of_sval (wire (to_sval m) False @ rest) = Inr m"
  using deserialize_wire [OF to_sval_typed [OF assms(1)] schema_round_trips assms(2)]
  by (simp add: decode_message_def of_to)

lemma encode_decode:
  assumes "ok m" and "serialized_len (to_sval m) = Inr n" and "length out = n"
  shows "\<exists>out'. serialize (to_sval m) out = Inr (n, out') \<and> decode_message schema of_sval out' = Inr m"
proof -
  have n: "n = length (wire (to_sval m) False)" "n < usize_bound"
    using assms(2) by (simp_all add: serialized_len_Inr)
  then have "serialize (to_sval m) out = Inr (n, wire (to_sval m) False)"
    using assms by (simp add: serialize_Inr serialized_len_Inr)
  moreover have "decode_message schema of_sval (wire (to_sval m) False @ []) = Inr m"
    using n by (intro decode_wire [OF assms(1)]) simp
  ultimately show ?thesis
    by simp
qed

lemma encode_decode_room:
  assumes "ok m" and "n = length (wire (to_sval m) False)" and "n \<le> length out"
    and "length out < usize_bound"
  shows "\<exists>out'. serialize (to_sval m) out = Inr (n, out') \<and> decode_message schema of_sval out' = Inr m"
proof -
  have "decode_message schema of_sval (wire (to_sval m) False @ drop n out) = Inr m"
    using assms by (intro decode_wire) auto
  with serialize_fitting [OF to_sval_typed [OF assms(1)]] assms(2-4) show ?thesis
    by blast
qed

lemma measured:
  assumes "ok m" and "length (wire (to_sval m) False) < usize_bound"
  shows "serialized_len (to_sval m) = Inr (length (wire (to_sval m) False))"
  using assms has_ty_encodable [OF to_sval_typed] by (simp add: serialized_len_Inr)

lemma decode_ok: "decode_message schema of_sval bs = Inr m \<Longrightarrow> ok m"
proof -
  assume "decode_message schema of_sval bs = Inr m"
  then obtain v d where "deserialize_value schema (new_deserializer bs) = Inr (v, d)" and "m = of_sval v"
    by (auto simp: decode_message_def deserialize_def rbind_Inr)
  then show "ok m"
    using soundD [OF deserialize_value_sound] to_of by blast
qed

lemma encoded_id:
  assumes "serialize (to_sval m) out = Inr (n, out')"
  shows "2 \<le> n \<and> from_be_bytes (take 2 out') = message_id m"
  using assms id_first [of m] by (auto simp: serialize_Inr)

end

section \<open>Instances\<close>

text \<open>Typing turned into existence of the payload, for the proofs that instantiate the contract.\<close>

lemma fixed_sval_inject [simp]: "fixed_sval bs = fixed_sval cs \<longleftrightarrow> bs = cs"
  by (metis fixed_of_sval)

lemma u32s_sval_inject [simp]: "u32s_sval ws = u32s_sval xs \<longleftrightarrow> ws = xs"
  by (metis u32s_of_sval)

lemma typed_iff:
  "has_ty (TInt TyU8) v \<longleftrightarrow> (\<exists>w. v = IntV (U8 w))"
  "has_ty (TInt TyU16) v \<longleftrightarrow> (\<exists>w. v = IntV (U16 w))"
  "has_ty (TInt TyU32) v \<longleftrightarrow> (\<exists>w. v = IntV (U32 w))"
  "has_ty (TInt TyI32) v \<longleftrightarrow> (\<exists>w. v = IntV (I32 w))"
  "has_ty (TInt TyU64) v \<longleftrightarrow> (\<exists>w. v = IntV (U64 w))"
  "has_ty TBool v \<longleftrightarrow> (\<exists>b. v = Bool b)"
  "has_ty TString v \<longleftrightarrow> (\<exists>s. v = Str s \<and> rust_str s \<and> length s < 2 ^ 32)"
  "has_ty (TNewtype t) v \<longleftrightarrow> (\<exists>x. v = Newtype x \<and> has_ty t x)"
  by (auto simp: int_ty_of_iff split: sval.splits)

lemma typed_array_iff:
  "has_ty (fixed_ty n) v \<longleftrightarrow> (\<exists>bs. v = fixed_sval bs \<and> length bs = n)"
  "has_ty (TArray n (TInt TyU32)) v \<longleftrightarrow> (\<exists>ws. v = u32s_sval ws \<and> length ws = n)"
proof -
  show "has_ty (fixed_ty n) v \<longleftrightarrow> (\<exists>bs. v = fixed_sval bs \<and> length bs = n)"
    using typed_fixed [of n v] fixed_sval_typed by (metis length_map)
  show "has_ty (TArray n (TInt TyU32)) v \<longleftrightarrow> (\<exists>ws. v = u32s_sval ws \<and> length ws = n)"
    using typed_u32s [of n v] u32s_sval_typed by (metis length_map)
qed

lemma typed_struct_iff:
  "has_ty (TStruct fs) v \<longleftrightarrow>
     (\<exists>vs. v = Struct (zip (map fst fs) vs) \<and> list_all2 (\<lambda>f. has_ty (snd f)) fs vs)"
proof
  assume "\<exists>vs. v = Struct (zip (map fst fs) vs) \<and> list_all2 (\<lambda>f. has_ty (snd f)) fs vs"
  then obtain vs where v: "v = Struct (zip (map fst fs) vs)" and vs: "list_all2 (\<lambda>f. has_ty (snd f)) fs vs"
    by blast
  from vs have "list_all2 (\<lambda>f g. fst f = fst g \<and> has_ty (snd f) (snd g)) fs (zip (map fst fs) vs)"
    by (induction rule: list_all2_induct) auto
  with v show "has_ty (TStruct fs) v"
    by (simp add: has_ty_struct_iff)
qed (rule typed_struct)

lemma typed_Struct:
  "has_ty (TStruct fs) (Struct gs) \<longleftrightarrow>
     list_all2 (\<lambda>f g. fst f = fst g \<and> has_ty (snd f) (snd g)) fs gs"
  by (simp add: has_ty_struct_iff)

lemmas message_typing = typed_iff typed_array_iff list_all2_Cons1

lemma wire_fixed [simp]: "length (wire (fixed_sval bs) opq) = length bs"
  by (cases opq) (simp_all add: fixed_sval_def comp_def length_concat sum_list_triv)

lemma wire_u32s [simp]: "length (wire (u32s_sval ws) opq) = 4 * length ws"
  by (cases opq) (simp_all add: u32s_sval_def comp_def length_concat sum_list_triv)

section \<open>Properties of fixed-size strings\<close>

text \<open>
  Text without NUL that is shorter than the field survives the fixed-size string
  unchanged; longer text is cut to one byte less than the field.
\<close>

theorem fixed_string_round_trip:
  assumes "CHR 0x00 \<notin> set v" and "0 < n"
  shows "fixed_as_str (fixed_from_str n v) = from_utf8 (take (n - 1) (str_bytes v)) \<and>
     (length v < n \<longrightarrow> rust_str v \<longrightarrow> fixed_as_str (fixed_from_str n v) = Some v \<and>
        fixed_into_string (fixed_from_str n v) = v)"
proof -
  have cut: "take (fixed_end (fixed_from_str n v)) (fixed_from_str n v) = take (n - 1) (str_bytes v)"
    by (simp add: fixed_end_from_str [OF assms]) (simp add: fixed_from_str_layout min_def)
  moreover have "take (n - 1) (str_bytes v) = str_bytes v" if "length v < n"
    using that by simp
  ultimately show ?thesis
    using from_utf8_lossy_agrees [of "str_bytes v" v]
    by (simp add: fixed_as_str_def fixed_into_string_def)
qed

lemma fixed_string_round_trip_witness:
  "fixed_as_str (fixed_from_str 8 ''hammer'') = Some ''hammer''"
  by (rule fixed_string_round_trip [THEN conjunct2, rule_format, THEN conjunct1])
    (simp_all add: utf8_valid_ascii byte_of_char_def)

end
