(* ===== verification/Messages.thy ===== *)
theory Messages
  imports Api_Message
begin

text \<open>
  The messages of \<^verbatim>\<open>memclnt.rs\<close>, \<^verbatim>\<open>control.rs\<close>, \<^verbatim>\<open>vpe.rs\<close> and \<^verbatim>\<open>session.rs\<close> of
  \<^verbatim>\<open>hammer-binary-api-protocol\<close>. Each has its struct as a record, the two directions of its
  derived Serde implementation, its declaration (name, block, service, options) and its trait
  methods, and is interpreted as an \<open>api_message\<close>. Signed fields hold the bit pattern.
\<close>

definition memclnt_create_v2_id :: u16 where
  "memclnt_create_v2_id = 25"

definition memclnt_create_v2_reply_id :: u16 where
  "memclnt_create_v2_reply_id = 26"

datatype interface_index = InterfaceIndex (ifindex: u32)

definition interface_index_name :: string where
  "interface_index_name = ''interface_index''"

definition interface_index_block :: block where
  "interface_index_block = Alias"

lemmas declared_simps = scalar_def array_def string_field_def declared_def declared_ty_def
  primitive_ty_def interface_index_name_def interface_index_block_def

section \<open>Client registration (memclnt.rs)\<close>

subsection \<open>\<^verbatim>\<open>MemclntCreateV2\<close>\<close>

record memclnt_create_v2 =
  mc_id :: u16
  mc_context :: u32
  mc_ctx_quota :: u32
  mc_input_queue :: u64
  mc_name :: bytes
  mc_api_versions :: "u32 list"
  mc_keepalive :: bool

definition memclnt_create_v2_sval :: "memclnt_create_v2 \<Rightarrow> sval" where
  "memclnt_create_v2_sval m = Struct
     [(''id'', IntV (U16 (mc_id m))),
      (''context'', IntV (U32 (mc_context m))),
      (''ctx_quota'', IntV (I32 (mc_ctx_quota m))),
      (''input_queue'', IntV (U64 (mc_input_queue m))),
      (''name'', fixed_sval (mc_name m)),
      (''api_versions'', u32s_sval (mc_api_versions m)),
      (''keepalive'', Bool (mc_keepalive m))]"

definition memclnt_create_v2_ty :: ty where
  "memclnt_create_v2_ty = TStruct
     [(''id'', TInt TyU16),
      (''context'', TInt TyU32),
      (''ctx_quota'', TInt TyI32),
      (''input_queue'', TInt TyU64),
      (''name'', fixed_ty 64),
      (''api_versions'', TArray 8 (TInt TyU32)),
      (''keepalive'', TBool)]"

definition memclnt_create_v2_of :: "sval \<Rightarrow> memclnt_create_v2" where
  "memclnt_create_v2_of v =
     \<lparr>mc_id = u16_of (nth_field v 0),
      mc_context = u32_of (nth_field v 1),
      mc_ctx_quota = i32_of (nth_field v 2),
      mc_input_queue = u64_of (nth_field v 3),
      mc_name = fixed_of (nth_field v 4),
      mc_api_versions = u32s_of (nth_field v 5),
      mc_keepalive = bool_of (nth_field v 6)\<rparr>"

definition memclnt_create_v2_ok :: "memclnt_create_v2 \<Rightarrow> bool" where
  "memclnt_create_v2_ok m \<longleftrightarrow> length (mc_name m) = 64 \<and> length (mc_api_versions m) = 8"

definition memclnt_create_v2_api :: api_decl where
  "memclnt_create_v2_api =
     \<lparr>api_name = ''memclnt_create_v2'',
      api_block = Fields
        [scalar ''context'' ''u32'',
         scalar ''ctx_quota'' ''i32'',
         scalar ''input_queue'' ''u64'',
         string_field ''name'' 64,
         array ''api_versions'' ''u32'' 8,
         scalar ''keepalive'' ''bool''],
      name_crc_len = 26, api_service = replies_with ''memclnt_create_v2'' ''memclnt_create_v2_reply'', api_options = []\<rparr>"

definition memclnt_create_v2_set_request_header :: "u16 \<Rightarrow> u32 \<Rightarrow> u32 \<Rightarrow> memclnt_create_v2 \<Rightarrow> memclnt_create_v2" where
  "memclnt_create_v2_set_request_header i ci ctx m = m\<lparr>mc_id := i, mc_context := ctx\<rparr>"

definition memclnt_create_v2_context :: "memclnt_create_v2 \<Rightarrow> u32 option" where
  "memclnt_create_v2_context m = Some (mc_context m)"

interpretation memclnt_create_v2: api_message memclnt_create_v2_sval memclnt_create_v2_of memclnt_create_v2_ty memclnt_create_v2_ok memclnt_create_v2_api mc_id
proof unfold_locales
  fix m and v
  show "schema_matches memclnt_create_v2_ty (api_block memclnt_create_v2_api)"
    by (simp add: memclnt_create_v2_ty_def memclnt_create_v2_api_def declared_simps)
  show "memclnt_create_v2_ok m \<Longrightarrow> has_ty memclnt_create_v2_ty (memclnt_create_v2_sval m)"
    by (simp add: memclnt_create_v2_sval_def memclnt_create_v2_ty_def memclnt_create_v2_ok_def typed_Struct message_typing del: has_ty.simps)
  show "has_ty memclnt_create_v2_ty v \<Longrightarrow> memclnt_create_v2_ok (memclnt_create_v2_of v) \<and> memclnt_create_v2_sval (memclnt_create_v2_of v) = v"
    by (auto simp: memclnt_create_v2_sval_def memclnt_create_v2_of_def memclnt_create_v2_ty_def memclnt_create_v2_ok_def typed_struct_iff message_typing simp del: has_ty.simps)
qed (simp_all add: memclnt_create_v2_sval_def memclnt_create_v2_of_def memclnt_create_v2_ty_def)

subsection \<open>\<^verbatim>\<open>MemclntCreateV2Reply\<close>\<close>

record memclnt_create_v2_reply =
  mcr_id :: u16
  mcr_context :: u32
  mcr_response :: u32
  mcr_handle :: u64
  mcr_index :: u32
  mcr_message_table :: u64

definition memclnt_create_v2_reply_sval :: "memclnt_create_v2_reply \<Rightarrow> sval" where
  "memclnt_create_v2_reply_sval m = Struct
     [(''id'', IntV (U16 (mcr_id m))),
      (''context'', IntV (U32 (mcr_context m))),
      (''response'', IntV (I32 (mcr_response m))),
      (''handle'', IntV (U64 (mcr_handle m))),
      (''index'', IntV (U32 (mcr_index m))),
      (''message_table'', IntV (U64 (mcr_message_table m)))]"

definition memclnt_create_v2_reply_ty :: ty where
  "memclnt_create_v2_reply_ty = TStruct
     [(''id'', TInt TyU16),
      (''context'', TInt TyU32),
      (''response'', TInt TyI32),
      (''handle'', TInt TyU64),
      (''index'', TInt TyU32),
      (''message_table'', TInt TyU64)]"

definition memclnt_create_v2_reply_of :: "sval \<Rightarrow> memclnt_create_v2_reply" where
  "memclnt_create_v2_reply_of v =
     \<lparr>mcr_id = u16_of (nth_field v 0),
      mcr_context = u32_of (nth_field v 1),
      mcr_response = i32_of (nth_field v 2),
      mcr_handle = u64_of (nth_field v 3),
      mcr_index = u32_of (nth_field v 4),
      mcr_message_table = u64_of (nth_field v 5)\<rparr>"

definition memclnt_create_v2_reply_api :: api_decl where
  "memclnt_create_v2_reply_api =
     \<lparr>api_name = ''memclnt_create_v2_reply'',
      api_block = Fields
        [scalar ''context'' ''u32'',
         scalar ''response'' ''i32'',
         scalar ''handle'' ''u64'',
         scalar ''index'' ''u32'',
         scalar ''message_table'' ''u64''],
      name_crc_len = 32, api_service = None, api_options = []\<rparr>"

definition memclnt_create_v2_reply_context :: "memclnt_create_v2_reply \<Rightarrow> u32 option" where
  "memclnt_create_v2_reply_context m = Some (mcr_context m)"

interpretation memclnt_create_v2_reply: api_message memclnt_create_v2_reply_sval memclnt_create_v2_reply_of memclnt_create_v2_reply_ty "\<lambda>_. True" memclnt_create_v2_reply_api mcr_id
proof unfold_locales
  fix m and v
  show "schema_matches memclnt_create_v2_reply_ty (api_block memclnt_create_v2_reply_api)"
    by (simp add: memclnt_create_v2_reply_ty_def memclnt_create_v2_reply_api_def declared_simps)
  show "True \<Longrightarrow> has_ty memclnt_create_v2_reply_ty (memclnt_create_v2_reply_sval m)"
    by (simp add: memclnt_create_v2_reply_sval_def memclnt_create_v2_reply_ty_def typed_Struct message_typing del: has_ty.simps)
  show "has_ty memclnt_create_v2_reply_ty v \<Longrightarrow> True \<and> memclnt_create_v2_reply_sval (memclnt_create_v2_reply_of v) = v"
    by (auto simp: memclnt_create_v2_reply_sval_def memclnt_create_v2_reply_of_def memclnt_create_v2_reply_ty_def typed_struct_iff message_typing simp del: has_ty.simps)
qed (simp_all add: memclnt_create_v2_reply_sval_def memclnt_create_v2_reply_of_def memclnt_create_v2_reply_ty_def)

subsection \<open>\<^verbatim>\<open>MemclntDelete\<close>\<close>

record memclnt_delete =
  md_id :: u16
  md_index :: u32
  md_handle :: u64
  md_do_cleanup :: bool

definition memclnt_delete_sval :: "memclnt_delete \<Rightarrow> sval" where
  "memclnt_delete_sval m = Struct
     [(''id'', IntV (U16 (md_id m))),
      (''index'', IntV (U32 (md_index m))),
      (''handle'', IntV (U64 (md_handle m))),
      (''do_cleanup'', Bool (md_do_cleanup m))]"

definition memclnt_delete_ty :: ty where
  "memclnt_delete_ty = TStruct
     [(''id'', TInt TyU16),
      (''index'', TInt TyU32),
      (''handle'', TInt TyU64),
      (''do_cleanup'', TBool)]"

definition memclnt_delete_of :: "sval \<Rightarrow> memclnt_delete" where
  "memclnt_delete_of v =
     \<lparr>md_id = u16_of (nth_field v 0),
      md_index = u32_of (nth_field v 1),
      md_handle = u64_of (nth_field v 2),
      md_do_cleanup = bool_of (nth_field v 3)\<rparr>"

definition memclnt_delete_api :: api_decl where
  "memclnt_delete_api =
     \<lparr>api_name = ''memclnt_delete'',
      api_block = Fields
        [scalar ''index'' ''u32'',
         scalar ''handle'' ''u64'',
         scalar ''do_cleanup'' ''bool''],
      name_crc_len = 23, api_service = replies_with ''memclnt_delete'' ''memclnt_delete_reply'', api_options = []\<rparr>"

definition memclnt_delete_set_request_header :: "u16 \<Rightarrow> u32 \<Rightarrow> u32 \<Rightarrow> memclnt_delete \<Rightarrow> memclnt_delete" where
  "memclnt_delete_set_request_header i ci ctx m = m\<lparr>md_id := i\<rparr>"

interpretation memclnt_delete: api_message memclnt_delete_sval memclnt_delete_of memclnt_delete_ty "\<lambda>_. True" memclnt_delete_api md_id
proof unfold_locales
  fix m and v
  show "schema_matches memclnt_delete_ty (api_block memclnt_delete_api)"
    by (simp add: memclnt_delete_ty_def memclnt_delete_api_def declared_simps)
  show "True \<Longrightarrow> has_ty memclnt_delete_ty (memclnt_delete_sval m)"
    by (simp add: memclnt_delete_sval_def memclnt_delete_ty_def typed_Struct message_typing del: has_ty.simps)
  show "has_ty memclnt_delete_ty v \<Longrightarrow> True \<and> memclnt_delete_sval (memclnt_delete_of v) = v"
    by (auto simp: memclnt_delete_sval_def memclnt_delete_of_def memclnt_delete_ty_def typed_struct_iff message_typing simp del: has_ty.simps)
qed (simp_all add: memclnt_delete_sval_def memclnt_delete_of_def memclnt_delete_ty_def)

subsection \<open>\<^verbatim>\<open>MemclntDeleteReply\<close>\<close>

record memclnt_delete_reply =
  mdr_id :: u16
  mdr_response :: u32
  mdr_handle :: u64

definition memclnt_delete_reply_sval :: "memclnt_delete_reply \<Rightarrow> sval" where
  "memclnt_delete_reply_sval m = Struct
     [(''id'', IntV (U16 (mdr_id m))),
      (''response'', IntV (I32 (mdr_response m))),
      (''handle'', IntV (U64 (mdr_handle m)))]"

definition memclnt_delete_reply_ty :: ty where
  "memclnt_delete_reply_ty = TStruct
     [(''id'', TInt TyU16),
      (''response'', TInt TyI32),
      (''handle'', TInt TyU64)]"

definition memclnt_delete_reply_of :: "sval \<Rightarrow> memclnt_delete_reply" where
  "memclnt_delete_reply_of v =
     \<lparr>mdr_id = u16_of (nth_field v 0),
      mdr_response = i32_of (nth_field v 1),
      mdr_handle = u64_of (nth_field v 2)\<rparr>"

definition memclnt_delete_reply_api :: api_decl where
  "memclnt_delete_reply_api =
     \<lparr>api_name = ''memclnt_delete_reply'',
      api_block = Fields
        [scalar ''response'' ''i32'',
         scalar ''handle'' ''u64''],
      name_crc_len = 29, api_service = None, api_options = []\<rparr>"

interpretation memclnt_delete_reply: api_message memclnt_delete_reply_sval memclnt_delete_reply_of memclnt_delete_reply_ty "\<lambda>_. True" memclnt_delete_reply_api mdr_id
proof unfold_locales
  fix m and v
  show "schema_matches memclnt_delete_reply_ty (api_block memclnt_delete_reply_api)"
    by (simp add: memclnt_delete_reply_ty_def memclnt_delete_reply_api_def declared_simps)
  show "True \<Longrightarrow> has_ty memclnt_delete_reply_ty (memclnt_delete_reply_sval m)"
    by (simp add: memclnt_delete_reply_sval_def memclnt_delete_reply_ty_def typed_Struct message_typing del: has_ty.simps)
  show "has_ty memclnt_delete_reply_ty v \<Longrightarrow> True \<and> memclnt_delete_reply_sval (memclnt_delete_reply_of v) = v"
    by (auto simp: memclnt_delete_reply_sval_def memclnt_delete_reply_of_def memclnt_delete_reply_ty_def typed_struct_iff message_typing simp del: has_ty.simps)
qed (simp_all add: memclnt_delete_reply_sval_def memclnt_delete_reply_of_def memclnt_delete_reply_ty_def)

subsection \<open>\<^verbatim>\<open>MemclntKeepalive\<close>\<close>

record memclnt_keepalive =
  mk_id :: u16
  mk_client_index :: u32
  mk_context :: u32

definition memclnt_keepalive_sval :: "memclnt_keepalive \<Rightarrow> sval" where
  "memclnt_keepalive_sval m = Struct
     [(''id'', IntV (U16 (mk_id m))),
      (''client_index'', IntV (U32 (mk_client_index m))),
      (''context'', IntV (U32 (mk_context m)))]"

definition memclnt_keepalive_ty :: ty where
  "memclnt_keepalive_ty = TStruct
     [(''id'', TInt TyU16),
      (''client_index'', TInt TyU32),
      (''context'', TInt TyU32)]"

definition memclnt_keepalive_of :: "sval \<Rightarrow> memclnt_keepalive" where
  "memclnt_keepalive_of v =
     \<lparr>mk_id = u16_of (nth_field v 0),
      mk_client_index = u32_of (nth_field v 1),
      mk_context = u32_of (nth_field v 2)\<rparr>"

definition memclnt_keepalive_api :: api_decl where
  "memclnt_keepalive_api =
     \<lparr>api_name = ''memclnt_keepalive'',
      api_block = Fields
        [scalar ''client_index'' ''u32'',
         scalar ''context'' ''u32''],
      name_crc_len = 26, api_service = replies_with ''memclnt_keepalive'' ''memclnt_keepalive_reply'', api_options = []\<rparr>"

definition memclnt_keepalive_set_request_header :: "u16 \<Rightarrow> u32 \<Rightarrow> u32 \<Rightarrow> memclnt_keepalive \<Rightarrow> memclnt_keepalive" where
  "memclnt_keepalive_set_request_header i ci ctx m = m\<lparr>mk_id := i, mk_client_index := ci, mk_context := ctx\<rparr>"

definition memclnt_keepalive_context :: "memclnt_keepalive \<Rightarrow> u32 option" where
  "memclnt_keepalive_context m = Some (mk_context m)"

interpretation memclnt_keepalive: api_message memclnt_keepalive_sval memclnt_keepalive_of memclnt_keepalive_ty "\<lambda>_. True" memclnt_keepalive_api mk_id
proof unfold_locales
  fix m and v
  show "schema_matches memclnt_keepalive_ty (api_block memclnt_keepalive_api)"
    by (simp add: memclnt_keepalive_ty_def memclnt_keepalive_api_def declared_simps)
  show "True \<Longrightarrow> has_ty memclnt_keepalive_ty (memclnt_keepalive_sval m)"
    by (simp add: memclnt_keepalive_sval_def memclnt_keepalive_ty_def typed_Struct message_typing del: has_ty.simps)
  show "has_ty memclnt_keepalive_ty v \<Longrightarrow> True \<and> memclnt_keepalive_sval (memclnt_keepalive_of v) = v"
    by (auto simp: memclnt_keepalive_sval_def memclnt_keepalive_of_def memclnt_keepalive_ty_def typed_struct_iff message_typing simp del: has_ty.simps)
qed (simp_all add: memclnt_keepalive_sval_def memclnt_keepalive_of_def memclnt_keepalive_ty_def)

subsection \<open>\<^verbatim>\<open>MemclntKeepaliveReply\<close>\<close>

record memclnt_keepalive_reply =
  mkr_id :: u16
  mkr_context :: u32
  mkr_retval :: u32

definition memclnt_keepalive_reply_sval :: "memclnt_keepalive_reply \<Rightarrow> sval" where
  "memclnt_keepalive_reply_sval m = Struct
     [(''id'', IntV (U16 (mkr_id m))),
      (''context'', IntV (U32 (mkr_context m))),
      (''retval'', IntV (I32 (mkr_retval m)))]"

definition memclnt_keepalive_reply_ty :: ty where
  "memclnt_keepalive_reply_ty = TStruct
     [(''id'', TInt TyU16),
      (''context'', TInt TyU32),
      (''retval'', TInt TyI32)]"

definition memclnt_keepalive_reply_of :: "sval \<Rightarrow> memclnt_keepalive_reply" where
  "memclnt_keepalive_reply_of v =
     \<lparr>mkr_id = u16_of (nth_field v 0),
      mkr_context = u32_of (nth_field v 1),
      mkr_retval = i32_of (nth_field v 2)\<rparr>"

definition memclnt_keepalive_reply_api :: api_decl where
  "memclnt_keepalive_reply_api =
     \<lparr>api_name = ''memclnt_keepalive_reply'',
      api_block = Fields
        [scalar ''context'' ''u32'',
         scalar ''retval'' ''i32''],
      name_crc_len = 32, api_service = None, api_options = []\<rparr>"

definition memclnt_keepalive_reply_context :: "memclnt_keepalive_reply \<Rightarrow> u32 option" where
  "memclnt_keepalive_reply_context m = Some (mkr_context m)"

interpretation memclnt_keepalive_reply: api_message memclnt_keepalive_reply_sval memclnt_keepalive_reply_of memclnt_keepalive_reply_ty "\<lambda>_. True" memclnt_keepalive_reply_api mkr_id
proof unfold_locales
  fix m and v
  show "schema_matches memclnt_keepalive_reply_ty (api_block memclnt_keepalive_reply_api)"
    by (simp add: memclnt_keepalive_reply_ty_def memclnt_keepalive_reply_api_def declared_simps)
  show "True \<Longrightarrow> has_ty memclnt_keepalive_reply_ty (memclnt_keepalive_reply_sval m)"
    by (simp add: memclnt_keepalive_reply_sval_def memclnt_keepalive_reply_ty_def typed_Struct message_typing del: has_ty.simps)
  show "has_ty memclnt_keepalive_reply_ty v \<Longrightarrow> True \<and> memclnt_keepalive_reply_sval (memclnt_keepalive_reply_of v) = v"
    by (auto simp: memclnt_keepalive_reply_sval_def memclnt_keepalive_reply_of_def memclnt_keepalive_reply_ty_def typed_struct_iff message_typing simp del: has_ty.simps)
qed (simp_all add: memclnt_keepalive_reply_sval_def memclnt_keepalive_reply_of_def memclnt_keepalive_reply_ty_def)

section \<open>Control (control.rs)\<close>

subsection \<open>\<^verbatim>\<open>ControlPing\<close>\<close>

record control_ping =
  cp_id :: u16
  cp_client_index :: u32
  cp_context :: u32

definition control_ping_sval :: "control_ping \<Rightarrow> sval" where
  "control_ping_sval m = Struct
     [(''id'', IntV (U16 (cp_id m))),
      (''client_index'', IntV (U32 (cp_client_index m))),
      (''context'', IntV (U32 (cp_context m)))]"

definition control_ping_ty :: ty where
  "control_ping_ty = TStruct
     [(''id'', TInt TyU16),
      (''client_index'', TInt TyU32),
      (''context'', TInt TyU32)]"

definition control_ping_of :: "sval \<Rightarrow> control_ping" where
  "control_ping_of v =
     \<lparr>cp_id = u16_of (nth_field v 0),
      cp_client_index = u32_of (nth_field v 1),
      cp_context = u32_of (nth_field v 2)\<rparr>"

definition control_ping_api :: api_decl where
  "control_ping_api =
     \<lparr>api_name = ''control_ping'',
      api_block = Fields
        [scalar ''client_index'' ''u32'',
         scalar ''context'' ''u32''],
      name_crc_len = 21, api_service = replies_with ''control_ping'' ''control_ping_reply'', api_options = []\<rparr>"

definition control_ping_set_request_header :: "u16 \<Rightarrow> u32 \<Rightarrow> u32 \<Rightarrow> control_ping \<Rightarrow> control_ping" where
  "control_ping_set_request_header i ci ctx m = m\<lparr>cp_id := i, cp_client_index := ci, cp_context := ctx\<rparr>"

definition control_ping_context :: "control_ping \<Rightarrow> u32 option" where
  "control_ping_context m = Some (cp_context m)"

interpretation control_ping: api_message control_ping_sval control_ping_of control_ping_ty "\<lambda>_. True" control_ping_api cp_id
proof unfold_locales
  fix m and v
  show "schema_matches control_ping_ty (api_block control_ping_api)"
    by (simp add: control_ping_ty_def control_ping_api_def declared_simps)
  show "True \<Longrightarrow> has_ty control_ping_ty (control_ping_sval m)"
    by (simp add: control_ping_sval_def control_ping_ty_def typed_Struct message_typing del: has_ty.simps)
  show "has_ty control_ping_ty v \<Longrightarrow> True \<and> control_ping_sval (control_ping_of v) = v"
    by (auto simp: control_ping_sval_def control_ping_of_def control_ping_ty_def typed_struct_iff message_typing simp del: has_ty.simps)
qed (simp_all add: control_ping_sval_def control_ping_of_def control_ping_ty_def)

subsection \<open>\<^verbatim>\<open>ControlPingReply\<close>\<close>

record control_ping_reply =
  cpr_id :: u16
  cpr_context :: u32
  cpr_retval :: u32
  cpr_client_index :: u32
  cpr_vpe_pid :: u32

definition control_ping_reply_sval :: "control_ping_reply \<Rightarrow> sval" where
  "control_ping_reply_sval m = Struct
     [(''id'', IntV (U16 (cpr_id m))),
      (''context'', IntV (U32 (cpr_context m))),
      (''retval'', IntV (I32 (cpr_retval m))),
      (''client_index'', IntV (U32 (cpr_client_index m))),
      (''vpe_pid'', IntV (U32 (cpr_vpe_pid m)))]"

definition control_ping_reply_ty :: ty where
  "control_ping_reply_ty = TStruct
     [(''id'', TInt TyU16),
      (''context'', TInt TyU32),
      (''retval'', TInt TyI32),
      (''client_index'', TInt TyU32),
      (''vpe_pid'', TInt TyU32)]"

definition control_ping_reply_of :: "sval \<Rightarrow> control_ping_reply" where
  "control_ping_reply_of v =
     \<lparr>cpr_id = u16_of (nth_field v 0),
      cpr_context = u32_of (nth_field v 1),
      cpr_retval = i32_of (nth_field v 2),
      cpr_client_index = u32_of (nth_field v 3),
      cpr_vpe_pid = u32_of (nth_field v 4)\<rparr>"

definition control_ping_reply_api :: api_decl where
  "control_ping_reply_api =
     \<lparr>api_name = ''control_ping_reply'',
      api_block = Fields
        [scalar ''context'' ''u32'',
         scalar ''retval'' ''i32'',
         scalar ''client_index'' ''u32'',
         scalar ''vpe_pid'' ''u32''],
      name_crc_len = 27, api_service = None, api_options = []\<rparr>"

definition control_ping_reply_context :: "control_ping_reply \<Rightarrow> u32 option" where
  "control_ping_reply_context m = Some (cpr_context m)"

interpretation control_ping_reply: api_message control_ping_reply_sval control_ping_reply_of control_ping_reply_ty "\<lambda>_. True" control_ping_reply_api cpr_id
proof unfold_locales
  fix m and v
  show "schema_matches control_ping_reply_ty (api_block control_ping_reply_api)"
    by (simp add: control_ping_reply_ty_def control_ping_reply_api_def declared_simps)
  show "True \<Longrightarrow> has_ty control_ping_reply_ty (control_ping_reply_sval m)"
    by (simp add: control_ping_reply_sval_def control_ping_reply_ty_def typed_Struct message_typing del: has_ty.simps)
  show "has_ty control_ping_reply_ty v \<Longrightarrow> True \<and> control_ping_reply_sval (control_ping_reply_of v) = v"
    by (auto simp: control_ping_reply_sval_def control_ping_reply_of_def control_ping_reply_ty_def typed_struct_iff message_typing simp del: has_ty.simps)
qed (simp_all add: control_ping_reply_sval_def control_ping_reply_of_def control_ping_reply_ty_def)

section \<open>Version (vpe.rs)\<close>

subsection \<open>\<^verbatim>\<open>ShowVersion\<close>\<close>

record show_version =
  sv_id :: u16
  sv_client_index :: u32
  sv_context :: u32

definition show_version_sval :: "show_version \<Rightarrow> sval" where
  "show_version_sval m = Struct
     [(''id'', IntV (U16 (sv_id m))),
      (''client_index'', IntV (U32 (sv_client_index m))),
      (''context'', IntV (U32 (sv_context m)))]"

definition show_version_ty :: ty where
  "show_version_ty = TStruct
     [(''id'', TInt TyU16),
      (''client_index'', TInt TyU32),
      (''context'', TInt TyU32)]"

definition show_version_of :: "sval \<Rightarrow> show_version" where
  "show_version_of v =
     \<lparr>sv_id = u16_of (nth_field v 0),
      sv_client_index = u32_of (nth_field v 1),
      sv_context = u32_of (nth_field v 2)\<rparr>"

definition show_version_api :: api_decl where
  "show_version_api =
     \<lparr>api_name = ''show_version'',
      api_block = Fields
        [scalar ''client_index'' ''u32'',
         scalar ''context'' ''u32''],
      name_crc_len = 21, api_service = replies_with ''show_version'' ''show_version_reply'', api_options = []\<rparr>"

definition show_version_set_request_header :: "u16 \<Rightarrow> u32 \<Rightarrow> u32 \<Rightarrow> show_version \<Rightarrow> show_version" where
  "show_version_set_request_header i ci ctx m = m\<lparr>sv_id := i, sv_client_index := ci, sv_context := ctx\<rparr>"

definition show_version_context :: "show_version \<Rightarrow> u32 option" where
  "show_version_context m = Some (sv_context m)"

interpretation show_version: api_message show_version_sval show_version_of show_version_ty "\<lambda>_. True" show_version_api sv_id
proof unfold_locales
  fix m and v
  show "schema_matches show_version_ty (api_block show_version_api)"
    by (simp add: show_version_ty_def show_version_api_def declared_simps)
  show "True \<Longrightarrow> has_ty show_version_ty (show_version_sval m)"
    by (simp add: show_version_sval_def show_version_ty_def typed_Struct message_typing del: has_ty.simps)
  show "has_ty show_version_ty v \<Longrightarrow> True \<and> show_version_sval (show_version_of v) = v"
    by (auto simp: show_version_sval_def show_version_of_def show_version_ty_def typed_struct_iff message_typing simp del: has_ty.simps)
qed (simp_all add: show_version_sval_def show_version_of_def show_version_ty_def)

subsection \<open>\<^verbatim>\<open>ShowVersionReply\<close>\<close>

record show_version_reply =
  svr_id :: u16
  svr_context :: u32
  svr_retval :: u32
  svr_program :: bytes
  svr_version :: bytes
  svr_build_date :: bytes
  svr_build_directory :: bytes

definition show_version_reply_sval :: "show_version_reply \<Rightarrow> sval" where
  "show_version_reply_sval m = Struct
     [(''id'', IntV (U16 (svr_id m))),
      (''context'', IntV (U32 (svr_context m))),
      (''retval'', IntV (I32 (svr_retval m))),
      (''program'', fixed_sval (svr_program m)),
      (''version'', fixed_sval (svr_version m)),
      (''build_date'', fixed_sval (svr_build_date m)),
      (''build_directory'', fixed_sval (svr_build_directory m))]"

definition show_version_reply_ty :: ty where
  "show_version_reply_ty = TStruct
     [(''id'', TInt TyU16),
      (''context'', TInt TyU32),
      (''retval'', TInt TyI32),
      (''program'', fixed_ty 32),
      (''version'', fixed_ty 32),
      (''build_date'', fixed_ty 32),
      (''build_directory'', fixed_ty 256)]"

definition show_version_reply_of :: "sval \<Rightarrow> show_version_reply" where
  "show_version_reply_of v =
     \<lparr>svr_id = u16_of (nth_field v 0),
      svr_context = u32_of (nth_field v 1),
      svr_retval = i32_of (nth_field v 2),
      svr_program = fixed_of (nth_field v 3),
      svr_version = fixed_of (nth_field v 4),
      svr_build_date = fixed_of (nth_field v 5),
      svr_build_directory = fixed_of (nth_field v 6)\<rparr>"

definition show_version_reply_ok :: "show_version_reply \<Rightarrow> bool" where
  "show_version_reply_ok m \<longleftrightarrow> length (svr_program m) = 32 \<and> length (svr_version m) = 32 \<and> length (svr_build_date m) = 32 \<and> length (svr_build_directory m) = 256"

definition show_version_reply_api :: api_decl where
  "show_version_reply_api =
     \<lparr>api_name = ''show_version_reply'',
      api_block = Fields
        [scalar ''context'' ''u32'',
         scalar ''retval'' ''i32'',
         string_field ''program'' 32,
         string_field ''version'' 32,
         string_field ''build_date'' 32,
         string_field ''build_directory'' 256],
      name_crc_len = 27, api_service = None, api_options = []\<rparr>"

definition show_version_reply_context :: "show_version_reply \<Rightarrow> u32 option" where
  "show_version_reply_context m = Some (svr_context m)"

interpretation show_version_reply: api_message show_version_reply_sval show_version_reply_of show_version_reply_ty show_version_reply_ok show_version_reply_api svr_id
proof unfold_locales
  fix m and v
  show "schema_matches show_version_reply_ty (api_block show_version_reply_api)"
    by (simp add: show_version_reply_ty_def show_version_reply_api_def declared_simps)
  show "show_version_reply_ok m \<Longrightarrow> has_ty show_version_reply_ty (show_version_reply_sval m)"
    by (simp add: show_version_reply_sval_def show_version_reply_ty_def show_version_reply_ok_def typed_Struct message_typing del: has_ty.simps)
  show "has_ty show_version_reply_ty v \<Longrightarrow> show_version_reply_ok (show_version_reply_of v) \<and> show_version_reply_sval (show_version_reply_of v) = v"
    by (auto simp: show_version_reply_sval_def show_version_reply_of_def show_version_reply_ty_def show_version_reply_ok_def typed_struct_iff message_typing simp del: has_ty.simps)
qed (simp_all add: show_version_reply_sval_def show_version_reply_of_def show_version_reply_ty_def)

section \<open>Application namespaces (session.rs)\<close>

subsection \<open>\<^verbatim>\<open>AppNamespaceAddDel\<close>\<close>

record app_namespace_add_del =
  an_id :: u16
  an_client_index :: u32
  an_context :: u32
  an_secret :: u64
  an_is_add :: bool
  an_sw_if_index :: interface_index
  an_ip4_fib_id :: u32
  an_ip6_fib_id :: u32
  an_namespace_id :: bytes
  an_sock_name :: string

definition app_namespace_add_del_sval :: "app_namespace_add_del \<Rightarrow> sval" where
  "app_namespace_add_del_sval m = Struct
     [(''id'', IntV (U16 (an_id m))),
      (''client_index'', IntV (U32 (an_client_index m))),
      (''context'', IntV (U32 (an_context m))),
      (''secret'', IntV (U64 (an_secret m))),
      (''is_add'', Bool (an_is_add m)),
      (''sw_if_index'', Newtype (IntV (U32 (ifindex (an_sw_if_index m))))),
      (''ip4_fib_id'', IntV (U32 (an_ip4_fib_id m))),
      (''ip6_fib_id'', IntV (U32 (an_ip6_fib_id m))),
      (''namespace_id'', fixed_sval (an_namespace_id m)),
      (''sock_name'', Str (an_sock_name m))]"

definition app_namespace_add_del_ty :: ty where
  "app_namespace_add_del_ty = TStruct
     [(''id'', TInt TyU16),
      (''client_index'', TInt TyU32),
      (''context'', TInt TyU32),
      (''secret'', TInt TyU64),
      (''is_add'', TBool),
      (''sw_if_index'', TNewtype (TInt TyU32)),
      (''ip4_fib_id'', TInt TyU32),
      (''ip6_fib_id'', TInt TyU32),
      (''namespace_id'', fixed_ty 64),
      (''sock_name'', TString)]"

definition app_namespace_add_del_of :: "sval \<Rightarrow> app_namespace_add_del" where
  "app_namespace_add_del_of v =
     \<lparr>an_id = u16_of (nth_field v 0),
      an_client_index = u32_of (nth_field v 1),
      an_context = u32_of (nth_field v 2),
      an_secret = u64_of (nth_field v 3),
      an_is_add = bool_of (nth_field v 4),
      an_sw_if_index = InterfaceIndex (u32_of (newtype_of (nth_field v 5))),
      an_ip4_fib_id = u32_of (nth_field v 6),
      an_ip6_fib_id = u32_of (nth_field v 7),
      an_namespace_id = fixed_of (nth_field v 8),
      an_sock_name = str_of (nth_field v 9)\<rparr>"

definition app_namespace_add_del_ok :: "app_namespace_add_del \<Rightarrow> bool" where
  "app_namespace_add_del_ok m \<longleftrightarrow> length (an_namespace_id m) = 64 \<and> rust_str (an_sock_name m) \<and> length (an_sock_name m) < 2 ^ 32"

definition app_namespace_add_del_api :: api_decl where
  "app_namespace_add_del_api =
     \<lparr>api_name = ''app_namespace_add_del_v4'',
      api_block = Fields
        [scalar ''client_index'' ''u32'',
         scalar ''context'' ''u32'',
         scalar ''secret'' ''u64'',
         scalar ''is_add'' ''bool'',
         declared ''sw_if_index'' interface_index_name interface_index_block,
         scalar ''ip4_fib_id'' ''u32'',
         scalar ''ip6_fib_id'' ''u32'',
         string_field ''namespace_id'' 64,
         string_field ''sock_name'' 0],
      name_crc_len = 33, api_service = replies_with ''app_namespace_add_del_v4'' ''app_namespace_add_del_v4_reply'', api_options = [(''deprecated'', None)]\<rparr>"

definition app_namespace_add_del_set_request_header :: "u16 \<Rightarrow> u32 \<Rightarrow> u32 \<Rightarrow> app_namespace_add_del \<Rightarrow> app_namespace_add_del" where
  "app_namespace_add_del_set_request_header i ci ctx m = m\<lparr>an_id := i, an_client_index := ci, an_context := ctx\<rparr>"

definition app_namespace_add_del_context :: "app_namespace_add_del \<Rightarrow> u32 option" where
  "app_namespace_add_del_context m = Some (an_context m)"

interpretation app_namespace_add_del: api_message app_namespace_add_del_sval app_namespace_add_del_of app_namespace_add_del_ty app_namespace_add_del_ok app_namespace_add_del_api an_id
proof unfold_locales
  fix m and v
  show "schema_matches app_namespace_add_del_ty (api_block app_namespace_add_del_api)"
    by (simp add: app_namespace_add_del_ty_def app_namespace_add_del_api_def declared_simps)
  show "app_namespace_add_del_ok m \<Longrightarrow> has_ty app_namespace_add_del_ty (app_namespace_add_del_sval m)"
    by (simp add: app_namespace_add_del_sval_def app_namespace_add_del_ty_def app_namespace_add_del_ok_def typed_Struct message_typing del: has_ty.simps)
  show "has_ty app_namespace_add_del_ty v \<Longrightarrow> app_namespace_add_del_ok (app_namespace_add_del_of v) \<and> app_namespace_add_del_sval (app_namespace_add_del_of v) = v"
    by (auto simp: app_namespace_add_del_sval_def app_namespace_add_del_of_def app_namespace_add_del_ty_def app_namespace_add_del_ok_def typed_struct_iff message_typing simp del: has_ty.simps)
qed (simp_all add: app_namespace_add_del_sval_def app_namespace_add_del_of_def app_namespace_add_del_ty_def)

subsection \<open>\<^verbatim>\<open>AppNamespaceAddDelReply\<close>\<close>

record app_namespace_add_del_reply =
  anr_id :: u16
  anr_context :: u32
  anr_retval :: u32
  anr_appns_index :: u32

definition app_namespace_add_del_reply_sval :: "app_namespace_add_del_reply \<Rightarrow> sval" where
  "app_namespace_add_del_reply_sval m = Struct
     [(''id'', IntV (U16 (anr_id m))),
      (''context'', IntV (U32 (anr_context m))),
      (''retval'', IntV (I32 (anr_retval m))),
      (''appns_index'', IntV (U32 (anr_appns_index m)))]"

definition app_namespace_add_del_reply_ty :: ty where
  "app_namespace_add_del_reply_ty = TStruct
     [(''id'', TInt TyU16),
      (''context'', TInt TyU32),
      (''retval'', TInt TyI32),
      (''appns_index'', TInt TyU32)]"

definition app_namespace_add_del_reply_of :: "sval \<Rightarrow> app_namespace_add_del_reply" where
  "app_namespace_add_del_reply_of v =
     \<lparr>anr_id = u16_of (nth_field v 0),
      anr_context = u32_of (nth_field v 1),
      anr_retval = i32_of (nth_field v 2),
      anr_appns_index = u32_of (nth_field v 3)\<rparr>"

definition app_namespace_add_del_reply_api :: api_decl where
  "app_namespace_add_del_reply_api =
     \<lparr>api_name = ''app_namespace_add_del_v4_reply'',
      api_block = Fields
        [scalar ''context'' ''u32'',
         scalar ''retval'' ''i32'',
         scalar ''appns_index'' ''u32''],
      name_crc_len = 39, api_service = None, api_options = []\<rparr>"

definition app_namespace_add_del_reply_context :: "app_namespace_add_del_reply \<Rightarrow> u32 option" where
  "app_namespace_add_del_reply_context m = Some (anr_context m)"

interpretation app_namespace_add_del_reply: api_message app_namespace_add_del_reply_sval app_namespace_add_del_reply_of app_namespace_add_del_reply_ty "\<lambda>_. True" app_namespace_add_del_reply_api anr_id
proof unfold_locales
  fix m and v
  show "schema_matches app_namespace_add_del_reply_ty (api_block app_namespace_add_del_reply_api)"
    by (simp add: app_namespace_add_del_reply_ty_def app_namespace_add_del_reply_api_def declared_simps)
  show "True \<Longrightarrow> has_ty app_namespace_add_del_reply_ty (app_namespace_add_del_reply_sval m)"
    by (simp add: app_namespace_add_del_reply_sval_def app_namespace_add_del_reply_ty_def typed_Struct message_typing del: has_ty.simps)
  show "has_ty app_namespace_add_del_reply_ty v \<Longrightarrow> True \<and> app_namespace_add_del_reply_sval (app_namespace_add_del_reply_of v) = v"
    by (auto simp: app_namespace_add_del_reply_sval_def app_namespace_add_del_reply_of_def app_namespace_add_del_reply_ty_def typed_struct_iff message_typing simp del: has_ty.simps)
qed (simp_all add: app_namespace_add_del_reply_sval_def app_namespace_add_del_reply_of_def app_namespace_add_del_reply_ty_def)

section \<open>Return values of the namespace request\<close>

datatype app_namespace_add_del_retval = Invalid | NotSupported

definition retval_try_from :: "u32 \<Rightarrow> u32 + app_namespace_add_del_retval" where
  "retval_try_from retval =
     (if retval = - 19 then Inr Invalid else if retval = - 10 then Inr NotSupported else Inl retval)"

section \<open>Properties of the messages\<close>

lemmas message_sval_defs = memclnt_create_v2_sval_def memclnt_create_v2_reply_sval_def
  memclnt_delete_sval_def memclnt_delete_reply_sval_def memclnt_keepalive_sval_def
  memclnt_keepalive_reply_sval_def control_ping_sval_def control_ping_reply_sval_def
  show_version_sval_def show_version_reply_sval_def app_namespace_add_del_sval_def
  app_namespace_add_del_reply_sval_def

lemma message_sizes:
  "memclnt_create_v2_ok m1 \<Longrightarrow> length (wire (memclnt_create_v2_sval m1) False) = 115"
  "length (wire (memclnt_create_v2_reply_sval m2) False) = 30"
  "length (wire (memclnt_delete_sval m3) False) = 15"
  "length (wire (memclnt_delete_reply_sval m4) False) = 14"
  "length (wire (memclnt_keepalive_sval m5) False) = 10"
  "length (wire (memclnt_keepalive_reply_sval m6) False) = 10"
  "length (wire (control_ping_sval m7) False) = 10"
  "length (wire (control_ping_reply_sval m8) False) = 18"
  "length (wire (show_version_sval m9) False) = 10"
  "show_version_reply_ok m10 \<Longrightarrow> length (wire (show_version_reply_sval m10) False) = 362"
  "app_namespace_add_del_ok m11 \<Longrightarrow>
     length (wire (app_namespace_add_del_sval m11) False) = 99 + length (an_sock_name m11)"
  "length (wire (app_namespace_add_del_reply_sval m12) False) = 14"
  by (simp_all add: message_sval_defs memclnt_create_v2_ok_def show_version_reply_ok_def
      app_namespace_add_del_ok_def)

text \<open>
  C30. Every registration and lifecycle message takes a fixed number of bytes, encodes into any
  buffer that large, and decodes from it to itself.
\<close>

theorem memclnt_messages_round_trip:
  assumes "length out < usize_bound"
  shows "(memclnt_create_v2_ok create \<longrightarrow> 115 \<le> length out \<longrightarrow>
      (\<exists>out'. serialize (memclnt_create_v2_sval create) out = Inr (115, out') \<and>
        decode_message memclnt_create_v2_ty memclnt_create_v2_of out' = Inr create)) \<and>
    (30 \<le> length out \<longrightarrow>
      (\<exists>out'. serialize (memclnt_create_v2_reply_sval created) out = Inr (30, out') \<and>
        decode_message memclnt_create_v2_reply_ty memclnt_create_v2_reply_of out' = Inr created)) \<and>
    (15 \<le> length out \<longrightarrow>
      (\<exists>out'. serialize (memclnt_delete_sval delete) out = Inr (15, out') \<and>
        decode_message memclnt_delete_ty memclnt_delete_of out' = Inr delete)) \<and>
    (14 \<le> length out \<longrightarrow>
      (\<exists>out'. serialize (memclnt_delete_reply_sval deleted) out = Inr (14, out') \<and>
        decode_message memclnt_delete_reply_ty memclnt_delete_reply_of out' = Inr deleted)) \<and>
    (10 \<le> length out \<longrightarrow>
      (\<exists>out'. serialize (memclnt_keepalive_sval alive) out = Inr (10, out') \<and>
        decode_message memclnt_keepalive_ty memclnt_keepalive_of out' = Inr alive)) \<and>
    (10 \<le> length out \<longrightarrow>
      (\<exists>out'. serialize (memclnt_keepalive_reply_sval kept) out = Inr (10, out') \<and>
        decode_message memclnt_keepalive_reply_ty memclnt_keepalive_reply_of out' = Inr kept))"
  using assms
  by (simp_all add: memclnt_create_v2.encode_decode_room memclnt_create_v2_reply.encode_decode_room
      memclnt_delete.encode_decode_room memclnt_delete_reply.encode_decode_room
      memclnt_keepalive.encode_decode_room memclnt_keepalive_reply.encode_decode_room
      message_sizes)

lemma memclnt_messages_round_trip_witness:
  "\<exists>out'. serialize (memclnt_keepalive_sval \<lparr>mk_id = 17, mk_client_index = 3, mk_context = 9\<rparr>) (replicate 12 0) =
       Inr (10, out') \<and>
     decode_message memclnt_keepalive_ty memclnt_keepalive_of out' =
       Inr \<lparr>mk_id = 17, mk_client_index = 3, mk_context = 9\<rparr>"
  by (rule memclnt_messages_round_trip [THEN conjunct2, THEN conjunct2, THEN conjunct2, THEN conjunct2, THEN conjunct1, rule_format]) (simp_all add: usize_bound_def)

text \<open>
  The same for the control, version and namespace messages; only the namespace request
  varies in size, with the text of its socket name.
\<close>

theorem service_messages_round_trip:
  assumes "length out < usize_bound"
  shows "(10 \<le> length out \<longrightarrow>
      (\<exists>out'. serialize (control_ping_sval ping) out = Inr (10, out') \<and>
        decode_message control_ping_ty control_ping_of out' = Inr ping)) \<and>
    (18 \<le> length out \<longrightarrow>
      (\<exists>out'. serialize (control_ping_reply_sval pong) out = Inr (18, out') \<and>
        decode_message control_ping_reply_ty control_ping_reply_of out' = Inr pong)) \<and>
    (10 \<le> length out \<longrightarrow>
      (\<exists>out'. serialize (show_version_sval ver) out = Inr (10, out') \<and>
        decode_message show_version_ty show_version_of out' = Inr ver)) \<and>
    (show_version_reply_ok shown \<longrightarrow> 362 \<le> length out \<longrightarrow>
      (\<exists>out'. serialize (show_version_reply_sval shown) out = Inr (362, out') \<and>
        decode_message show_version_reply_ty show_version_reply_of out' = Inr shown)) \<and>
    (app_namespace_add_del_ok ns \<longrightarrow> 99 + length (an_sock_name ns) \<le> length out \<longrightarrow>
      (\<exists>out'. serialize (app_namespace_add_del_sval ns) out = Inr (99 + length (an_sock_name ns), out') \<and>
        decode_message app_namespace_add_del_ty app_namespace_add_del_of out' = Inr ns)) \<and>
    (14 \<le> length out \<longrightarrow>
      (\<exists>out'. serialize (app_namespace_add_del_reply_sval nsr) out = Inr (14, out') \<and>
        decode_message app_namespace_add_del_reply_ty app_namespace_add_del_reply_of out' = Inr nsr))"
  using assms
  by (simp_all add: control_ping.encode_decode_room control_ping_reply.encode_decode_room
      show_version.encode_decode_room show_version_reply.encode_decode_room
      app_namespace_add_del.encode_decode_room app_namespace_add_del_reply.encode_decode_room
      message_sizes)

lemma service_messages_round_trip_witness:
  "\<exists>out'. serialize (app_namespace_add_del_sval \<lparr>an_id = 1, an_client_index = 2, an_context = 3, an_secret = 4,
        an_is_add = True, an_sw_if_index = InterfaceIndex 5, an_ip4_fib_id = 6, an_ip6_fib_id = 7,
        an_namespace_id = fixed_from_str 64 ''ns'', an_sock_name = ''sk''\<rparr>) (replicate 128 0) = Inr (101, out') \<and>
     decode_message app_namespace_add_del_ty app_namespace_add_del_of out' =
       Inr \<lparr>an_id = 1, an_client_index = 2, an_context = 3, an_secret = 4,
        an_is_add = True, an_sw_if_index = InterfaceIndex 5, an_ip4_fib_id = 6, an_ip6_fib_id = 7,
        an_namespace_id = fixed_from_str 64 ''ns'', an_sock_name = ''sk''\<rparr>"
  using service_messages_round_trip [THEN conjunct2, THEN conjunct2, THEN conjunct2, THEN conjunct2, THEN conjunct1, rule_format, of "replicate 128 0" "\<lparr>an_id = 1, an_client_index = 2, an_context = 3,
        an_secret = 4, an_is_add = True, an_sw_if_index = InterfaceIndex 5, an_ip4_fib_id = 6,
        an_ip6_fib_id = 7, an_namespace_id = fixed_from_str 64 ''ns'', an_sock_name = ''sk''\<rparr>"]
  by (simp add: usize_bound_def app_namespace_add_del_ok_def utf8_valid_ascii byte_of_char_def)

text \<open>
  The request header as the server reads it: the message id and the context in network
  order, the client index in the client's own byte order because the server treats it as opaque.
\<close>

theorem request_header_layout:
  shows "(\<exists>rest. wire (control_ping_sval (control_ping_set_request_header i ci ctx ping)) False =
      be_bytes 2 i @ to_ne_bytes 4 ci @ be_bytes 4 ctx @ rest) \<and>
    (\<exists>rest. wire (show_version_sval (show_version_set_request_header i ci ctx ver)) False =
      be_bytes 2 i @ to_ne_bytes 4 ci @ be_bytes 4 ctx @ rest) \<and>
    (\<exists>rest. wire (memclnt_keepalive_sval (memclnt_keepalive_set_request_header i ci ctx alive)) False =
      be_bytes 2 i @ to_ne_bytes 4 ci @ be_bytes 4 ctx @ rest) \<and>
    (\<exists>rest. wire (app_namespace_add_del_sval (app_namespace_add_del_set_request_header i ci ctx ns)) False =
      be_bytes 2 i @ to_ne_bytes 4 ci @ be_bytes 4 ctx @ rest) \<and>
    (\<exists>rest. wire (memclnt_create_v2_sval (memclnt_create_v2_set_request_header i ci ctx create)) False =
      be_bytes 2 i @ be_bytes 4 ctx @ rest) \<and>
    (\<exists>rest. wire (memclnt_delete_sval (memclnt_delete_set_request_header i ci ctx delete)) False =
      be_bytes 2 i @ be_bytes 4 (md_index delete) @ rest)"
  by (simp_all add: message_sval_defs control_ping_set_request_header_def show_version_set_request_header_def
      memclnt_keepalive_set_request_header_def app_namespace_add_del_set_request_header_def
      memclnt_create_v2_set_request_header_def memclnt_delete_set_request_header_def)

text \<open>
  Whatever bytes arrive, a decoded reply is well formed, and each Rust struct has exactly the
  fields its declared block lists, so the negotiated CRC covers the bytes that are exchanged.
\<close>

theorem decoded_messages_well_formed:
  shows "(decode_message show_version_reply_ty show_version_reply_of bs = Inr shown \<longrightarrow>
      show_version_reply_ok shown) \<and>
    (decode_message memclnt_create_v2_ty memclnt_create_v2_of bs = Inr create \<longrightarrow>
      memclnt_create_v2_ok create) \<and>
    (decode_message app_namespace_add_del_ty app_namespace_add_del_of bs = Inr ns \<longrightarrow>
      app_namespace_add_del_ok ns) \<and>
    (schema_matches show_version_reply_ty (api_block show_version_reply_api)) \<and>
    (schema_matches app_namespace_add_del_ty (api_block app_namespace_add_del_api))"
  by (simp add: show_version_reply.decode_ok memclnt_create_v2.decode_ok app_namespace_add_del.decode_ok
      show_version_reply.schema_declared app_namespace_add_del.schema_declared)

lemma decoded_messages_well_formed_witness:
  "show_version_reply_ok \<lparr>svr_id = 1, svr_context = 2, svr_retval = 0, svr_program = fixed_empty 32,
     svr_version = fixed_empty 32, svr_build_date = fixed_empty 32, svr_build_directory = fixed_empty 256\<rparr>"
proof (rule decoded_messages_well_formed [THEN conjunct1, rule_format])
  let ?m = "\<lparr>svr_id = 1, svr_context = 2, svr_retval = 0, svr_program = fixed_empty 32,
     svr_version = fixed_empty 32, svr_build_date = fixed_empty 32, svr_build_directory = fixed_empty 256\<rparr>"
  have "show_version_reply_ok ?m"
    by (simp add: show_version_reply_ok_def fixed_empty_def)
  then show "decode_message show_version_reply_ty show_version_reply_of
      (wire (show_version_reply_sval ?m) False @ []) = Inr ?m"
    by (rule show_version_reply.decode_wire) (simp add: message_sizes usize_bound_def \<open>show_version_reply_ok ?m\<close>)
qed

end
