(* ===== verification/Message_Table.thy ===== *)
theory Message_Table
  imports Codec
begin

text \<open>
  The server's message table, \<^verbatim>\<open>hammer-binary-api-protocol/src/table.rs\<close>: a count, then
  for each message its id, the length of its name and the name, the two integers in the
  server's compact encoding of likely small integers. The input slice the code advances is
  passed along. The specification is the server's writer.
\<close>

section \<open>Reader\<close>

definition take_table :: "bytes \<Rightarrow> nat \<Rightarrow> codec_error + bytes \<times> bytes" where
  "take_table input' len =
     (if length input' < len then Inl TruncatedTable else Inr (take len input', drop len input'))"

definition read_integer :: "bytes \<Rightarrow> codec_error + nat \<times> bytes" where
  "read_integer input' =
     rbind (take_table input' 1) (\<lambda>(b, input').
       let byte = b ! 0 in
       if byte AND 1 \<noteq> 0 then Inr (unat byte div 2, input')
       else if byte AND 2 \<noteq> 0 then
         rbind (take_table input' 1) (\<lambda>(rest, input').
           Inr (128 + unat (from_le_bytes [byte, rest ! 0] :: u16) div 4, input'))
       else if byte AND 4 \<noteq> 0 then
         rbind (take_table input' 3) (\<lambda>(rest, input').
           Inr (128 + 16384 + unat (from_le_bytes [byte, rest ! 0, rest ! 1, rest ! 2] :: u32) div 8, input'))
       else
         rbind (take_table input' 8) (\<lambda>(bs, input'). Inr (unat (from_le_bytes bs :: u64), input')))"

definition read_entry :: "bytes \<Rightarrow> codec_error + (string \<times> u16) \<times> bytes" where
  "read_entry rem =
     rbind (read_integer rem) (\<lambda>(i, rem).
       if 2 ^ 16 \<le> i then Inl IntegerOutOfRange
       else rbind (read_integer rem) (\<lambda>(len, rem).
         if usize_bound \<le> len then Inl IntegerOutOfRange
         else rbind (take_table rem len) (\<lambda>(bs, rem).
           rbind (ok_or InvalidUtf8 (from_utf8 bs)) (\<lambda>name. Inr ((name, word_of_nat i), rem)))))"

fun read_entries :: "nat \<Rightarrow> bytes \<Rightarrow> codec_error + (string \<times> u16) list \<times> bytes" where
  "read_entries 0 rem = Inr ([], rem)"
| "read_entries (Suc n) rem =
     rbind (read_entry rem) (\<lambda>(e, rem).
       rbind (read_entries n rem) (\<lambda>(es, rem). Inr (e # es, rem)))"

definition deserialize_message_table :: "bytes \<Rightarrow> codec_error + (string \<times> u16) list" where
  "deserialize_message_table input' =
     rbind (take_table input' 4) (\<lambda>(count, rem).
       rbind (read_entries (unat (from_be_bytes count :: u32)) rem) (\<lambda>(es, rem). Inr es))"

section \<open>The server's encoding\<close>

definition encode_integer :: "nat \<Rightarrow> bytes" where
  "encode_integer n =
     (if n < 128 then le_bytes 1 (word_of_nat (2 * n + 1) :: u8)
      else if n < 128 + 16384 then le_bytes 2 (word_of_nat (4 * (n - 128) + 2) :: u16)
      else if n < 128 + 16384 + 2 ^ 29 then le_bytes 4 (word_of_nat (8 * (n - 128 - 16384) + 4) :: u32)
      else 0 # le_bytes 8 (word_of_nat n :: u64))"

definition encode_entry :: "string \<times> u16 \<Rightarrow> bytes" where
  "encode_entry e = encode_integer (unat (snd e)) @ encode_integer (length (fst e)) @ str_bytes (fst e)"

definition encode_table :: "(string \<times> u16) list \<Rightarrow> bytes" where
  "encode_table es = be_bytes 4 (word_of_nat (length es) :: u32) @ concat (map encode_entry es)"

section \<open>The reader inverts the encoding\<close>

text \<open>A reader \<open>consumes\<close> an encoding when it returns its value and leaves what follows it.\<close>

definition consumes :: "(bytes \<Rightarrow> codec_error + 'v \<times> bytes) \<Rightarrow> bytes \<Rightarrow> 'v \<Rightarrow> bool" where
  "consumes r bs v \<longleftrightarrow> (\<forall>rest. r (bs @ rest) = Inr (v, rest))"

lemma le_bytes_2: "le_bytes 2 w = [ucast w, ucast (drop_bit 8 w)]"
  by (simp add: numeral_eq_Suc)

lemma le_bytes_4: "le_bytes 4 w = [ucast w, ucast (drop_bit 8 w), ucast (drop_bit 16 w), ucast (drop_bit 24 w)]"
  by (simp add: numeral_eq_Suc drop_bit_drop_bit)

lemma test_bits:
  fixes b :: u8
  shows "b AND 1 \<noteq> 0 \<longleftrightarrow> bit b 0" "b AND 2 \<noteq> 0 \<longleftrightarrow> bit b 1" "b AND 4 \<noteq> 0 \<longleftrightarrow> bit b 2"
  using bit_iff_and_push_bit_not_eq_0 [of b 0] bit_iff_and_push_bit_not_eq_0 [of b 1]
    bit_iff_and_push_bit_not_eq_0 [of b 2]
  by (simp_all add: push_bit_eq_mult)

lemma bit_low_byte:
  assumes "k < 8" and "8 \<le> LENGTH('a::len)"
  shows "bit (ucast (word_of_nat n :: 'a word) :: u8) k \<longleftrightarrow> odd (n div 2 ^ k)"
proof -
  have "bit (word_of_nat n :: 'a word) k \<longleftrightarrow> bit n k"
    using assms by transfer (simp add: bit_take_bit_iff bit_of_nat_iff_bit)
  with assms have "bit (ucast (word_of_nat n :: 'a word) :: u8) k \<longleftrightarrow> bit n k"
    by (simp add: bit_ucast_iff)
  then show ?thesis
    by (simp only: bit_iff_odd)
qed

lemma unat_fits: "k < 2 ^ LENGTH('a::len) \<Longrightarrow> unat (word_of_nat k :: 'a word) = k"
  by (simp add: unat_of_nat)

text \<open>The three short forms, for any tagged value \<open>k\<close>.\<close>

lemma read_tagged_1:
  assumes "k < 2 ^ 8" and "odd k"
  shows "consumes read_integer (le_bytes 1 (word_of_nat k :: u8)) (k div 2)"
proof -
  have "bit (word_of_nat k :: u8) 0" and "unat (word_of_nat k :: u8) = k"
    using assms bit_low_byte [of 0 k, where 'a = 8] unat_fits [of k, where 'a = 8] by simp_all
  then show ?thesis
    by (simp add: consumes_def read_integer_def take_table_def test_bits)
qed

lemma read_tagged_2:
  assumes "k < 2 ^ 16" and "even k" and "odd (k div 2)"
  shows "consumes read_integer (le_bytes 2 (word_of_nat k :: u16)) (128 + k div 4)"
proof -
  have "\<not> bit (ucast (word_of_nat k :: u16) :: u8) 0" "bit (ucast (word_of_nat k :: u16) :: u8) 1"
    using assms bit_low_byte [of 0 k, where 'a = 16] bit_low_byte [of 1 k, where 'a = 16] by simp_all
  moreover have "unat (from_le_bytes (le_bytes 2 (word_of_nat k :: u16)) :: u16) = k"
    using assms(1) unat_fits [of k, where 'a = 16] by (simp add: from_le_bytes_roundtrip)
  ultimately show ?thesis
    by (simp add: consumes_def read_integer_def take_table_def test_bits le_bytes_2 del: from_le_bytes.simps)
qed

lemma read_tagged_4:
  assumes "k < 2 ^ 32" and "even k" and "even (k div 2)" and "odd (k div 4)"
  shows "consumes read_integer (le_bytes 4 (word_of_nat k :: u32)) (128 + 16384 + k div 8)"
proof -
  have "\<not> bit (ucast (word_of_nat k :: u32) :: u8) 0" "\<not> bit (ucast (word_of_nat k :: u32) :: u8) 1"
    "bit (ucast (word_of_nat k :: u32) :: u8) 2"
    using assms bit_low_byte [of 0 k, where 'a = 32] bit_low_byte [of 1 k, where 'a = 32]
      bit_low_byte [of 2 k, where 'a = 32] by simp_all
  moreover have "unat (from_le_bytes (le_bytes 4 (word_of_nat k :: u32)) :: u32) = k"
    using assms(1) unat_fits [of k, where 'a = 32] by (simp add: from_le_bytes_roundtrip)
  ultimately show ?thesis
    by (simp add: consumes_def read_integer_def take_table_def test_bits le_bytes_4 del: from_le_bytes.simps)
qed

lemma read_integer_small: "n < 128 \<Longrightarrow> consumes read_integer (encode_integer n) n"
  using read_tagged_1 [of "2 * n + 1"] by (simp add: encode_integer_def)

lemma read_integer_medium:
  assumes "128 \<le> n" and "n < 128 + 16384" shows "consumes read_integer (encode_integer n) n"
proof -
  have "consumes read_integer (le_bytes 2 (word_of_nat (4 * (n - 128) + 2) :: u16))
      (128 + (4 * (n - 128) + 2) div 4)"
    using assms by (intro read_tagged_2) auto
  moreover have "128 + (4 * (n - 128) + 2) div 4 = n"
    using assms by simp
  ultimately show ?thesis
    using assms by (simp only: encode_integer_def) simp
qed

lemma read_integer_large:
  assumes "128 + 16384 \<le> n" and "n < 128 + 16384 + 2 ^ 29"
  shows "consumes read_integer (encode_integer n) n"
proof -
  have "consumes read_integer (le_bytes 4 (word_of_nat (8 * (n - 128 - 16384) + 4) :: u32))
      (128 + 16384 + (8 * (n - 128 - 16384) + 4) div 8)"
    using assms by (intro read_tagged_4) auto
  moreover have "128 + 16384 + (8 * (n - 128 - 16384) + 4) div 8 = n"
    using assms by simp
  ultimately show ?thesis
    using assms by (simp only: encode_integer_def) simp
qed

lemma read_integer_huge:
  assumes "128 + 16384 + 2 ^ 29 \<le> n" and "n < 2 ^ 64"
  shows "consumes read_integer (encode_integer n) n"
  using assms
  by (simp add: consumes_def read_integer_def encode_integer_def take_table_def unat_of_nat)

lemma read_integer_consumes: "n < 2 ^ 64 \<Longrightarrow> consumes read_integer (encode_integer n) n"
  using read_integer_small read_integer_medium read_integer_large read_integer_huge
  by (metis not_le)

lemma read_entry_consumes:
  assumes "rust_str (fst e)" and "length (fst e) < usize_bound"
  shows "consumes read_entry (encode_entry e) e"
proof -
  have "unat (snd e) < 2 ^ LENGTH(16)"
    by (rule unsigned_less)
  then have "consumes read_integer (encode_integer (unat (snd e))) (unat (snd e))"
    "consumes read_integer (encode_integer (length (fst e))) (length (fst e))" "unat (snd e) < 65536"
    using assms(2) by (auto intro!: read_integer_consumes simp: usize_bound_def)
  with assms show ?thesis
    by (simp add: consumes_def read_entry_def encode_entry_def take_table_def)
qed

lemma read_entries_consumes:
  assumes "\<forall>e\<in>set es. rust_str (fst e) \<and> length (fst e) < usize_bound"
  shows "consumes (read_entries (length es)) (concat (map encode_entry es)) es"
  using assms
proof (induction es)
  case (Cons e es)
  then show ?case
    using read_entry_consumes [of e] by (simp add: consumes_def)
qed (simp add: consumes_def)

lemma deserialize_encode_table:
  assumes "\<forall>e\<in>set es. rust_str (fst e) \<and> length (fst e) < usize_bound" and "length es < 2 ^ 32"
  shows "deserialize_message_table (encode_table es @ rest) = Inr es"
  using read_entries_consumes [OF assms(1)] assms(2)
  by (simp add: deserialize_message_table_def encode_table_def take_table_def consumes_def unat_of_nat)

section \<open>Truncation\<close>

text \<open>A reader is \<open>local\<close> when bytes after what it read do not change it.\<close>

definition local_reader :: "(bytes \<Rightarrow> codec_error + 'v \<times> bytes) \<Rightarrow> bool" where
  "local_reader r \<longleftrightarrow> (\<forall>bs v rest ext. r bs = Inr (v, rest) \<longrightarrow> r (bs @ ext) = Inr (v, rest @ ext))"

lemma local_readerD: "local_reader r \<Longrightarrow> r bs = Inr (v, rest) \<Longrightarrow> r (bs @ ext) = Inr (v, rest @ ext)"
  by (auto simp: local_reader_def)

lemma take_table_local: "local_reader (\<lambda>bs. take_table bs n)"
  by (auto simp: local_reader_def take_table_def split: if_splits)

lemmas take_table_more = local_readerD [OF take_table_local]

lemma local_reader_bind:
  "local_reader r \<Longrightarrow> (\<And>v. local_reader (k v)) \<Longrightarrow> local_reader (\<lambda>bs. rbind (r bs) (\<lambda>(v, rest). k v rest))"
  unfolding local_reader_def by (fastforce simp: rbind_Inr)

lemma local_reader_if: "local_reader r \<Longrightarrow> local_reader q \<Longrightarrow> local_reader (\<lambda>bs. if c then r bs else q bs)"
  by (cases c) simp_all

lemma local_reader_return [simp]: "local_reader (\<lambda>bs. Inr (v, bs))" "local_reader (\<lambda>bs. Inl e)"
  by (simp_all add: local_reader_def)

lemma read_integer_local: "local_reader read_integer"
  unfolding read_integer_def Let_def
  by (intro local_reader_bind local_reader_if take_table_local local_reader_return)

lemma read_entry_local: "local_reader read_entry"
proof -
  have "local_reader (\<lambda>rem. rbind (ok_or InvalidUtf8 (from_utf8 bs)) (\<lambda>name. Inr ((name, i), rem)))"
    for bs and i :: u16
    by (cases "from_utf8 bs") simp_all
  then show ?thesis
    unfolding read_entry_def
    by (intro local_reader_bind local_reader_if take_table_local local_reader_return read_integer_local)
qed

lemma read_entries_local: "local_reader (read_entries n)"
proof (induction n)
  case (Suc n)
  then show ?case
    unfolding local_reader_def
    by (auto simp: rbind_Inr local_readerD [OF read_entry_local])
qed (simp add: local_reader_def)

section \<open>Properties of the message table\<close>

text \<open>
  C8. The reader gives back every table the server writes, in order, and ignores what follows it.
\<close>

theorem message_table_round_trip:
  assumes "\<forall>e\<in>set es. rust_str (fst e) \<and> length (fst e) < usize_bound" and "length es < 2 ^ 32"
  shows "deserialize_message_table (encode_table es @ rest) = Inr es"
  by (rule deserialize_encode_table [OF assms])

lemma message_table_round_trip_witness:
  "deserialize_message_table (encode_table [(''control_ping_51077d14'', 20), (''x'', 65535)] @ [1, 2]) =
     Inr [(''control_ping_51077d14'', 20), (''x'', 65535)]"
  by (rule message_table_round_trip) (auto simp: utf8_valid_ascii byte_of_char_def usize_bound_def)

text \<open>
  A table lost short anywhere is refused.
\<close>

theorem message_table_truncated:
  assumes "\<forall>e\<in>set es. rust_str (fst e) \<and> length (fst e) < usize_bound" and "length es < 2 ^ 32"
    and "encode_table es = pre @ lost" and "lost \<noteq> []"
  shows "\<exists>e. deserialize_message_table pre = Inl e"
proof (rule ccontr)
  assume "\<not> ?thesis"
  then obtain es' where "deserialize_message_table pre = Inr es'"
    by (cases "deserialize_message_table pre") auto
  then obtain count bs rest where
    head: "take_table pre 4 = Inr (count, bs)" and
    body: "read_entries (unat (from_be_bytes count :: u32)) bs = Inr (es', rest)"
    by (auto simp: deserialize_message_table_def rbind_Inr)
  let ?n = "be_bytes 4 (word_of_nat (length es) :: u32)"
  have "take_table (encode_table es) 4 = Inr (?n, concat (map encode_entry es))"
    by (simp add: encode_table_def take_table_def)
  with head have "count = ?n" and bs: "bs @ lost = concat (map encode_entry es)"
    using take_table_more [OF head, of lost] assms(3) by simp_all
  with body assms(2) have "read_entries (length es) (concat (map encode_entry es)) = Inr (es', rest @ lost)"
    using local_readerD [OF read_entries_local body, of lost] by (simp add: unat_of_nat)
  moreover have "read_entries (length es) (concat (map encode_entry es) @ []) = Inr (es, [])"
    using read_entries_consumes [OF assms(1)] unfolding consumes_def by blast
  ultimately show False
    using assms(4) by simp
qed

lemma message_table_truncated_witness:
  "\<exists>e. deserialize_message_table (butlast (encode_table [(''x'', 7)])) = Inl e"
proof (rule message_table_truncated)
  show "encode_table [(''x'', 7)] = butlast (encode_table [(''x'', 7)]) @ [last (encode_table [(''x'', 7)])]"
    by (intro append_butlast_last_id [symmetric]) (simp add: encode_table_def encode_entry_def)
qed (auto simp: utf8_valid_ascii byte_of_char_def usize_bound_def)

end
