(* ===== verification/Api_Client.thy ===== *)
theory Api_Client
  imports Msg_Buf Messages Message_Table
begin

text \<open>
  The Binary API client, \<^verbatim>\<open>hammer-binary-api-client/src/client.rs\<close>: connecting, sending, receiving,
  invoking a service and disconnecting. The state outside the client is a \<open>link\<close>: the shared heap and
  memory, the queues by address, and the rest of the world. The environment holds the allocator,
  the queue primitives, the clock, and what the other processes do while the client sleeps. The data
  heap is the one found when the region was attached. A loop that never ends is \<open>None\<close>.
\<close>

section \<open>State\<close>

record ('s, 'w) link =
  ln_heap :: "'s heap"
  ln_queues :: "usize \<Rightarrow> svm_queue"
  ln_world :: 'w

abbreviation ln_memory :: "('s, 'w) link \<Rightarrow> memory" where
  "ln_memory l \<equiv> snd (ln_heap l)"

record ('s, 'w) client_env =
  ce_mspace :: "'s mspace"
  ce_queue :: "('s, 'w) link queue_env"
  ce_sleep :: "nat \<Rightarrow> ('s, 'w) link \<Rightarrow> ('s, 'w) link"
  ce_now :: "('s, 'w) link \<Rightarrow> nat"
  ce_backing :: "('s, 'w) link \<Rightarrow> int option \<times> (int + int) \<times> (int + bytes) \<times> map_calls"
  ce_page_size :: usize
  ce_pid :: u32

datatype client_error =
    AlreadyConnected
  | NotConnected
  | ConnectTimeout bytes
  | ClientRegion region_error
  | ClientMemory memory_error
  | ClientQueue queue_error
  | ClientCodec codec_error
  | CreateRejected u32
  | MessageUnavailable string
  | RequestHasNoReply
  | ReplyTypeMismatch string string
  | ResponseTimeout u32
  | UnexpectedMessage u16 u16
  | ContextMismatch u32 u32
  | DisconnectTimeout u32

type_synonym ('s, 'w, 'a) act = "('s, 'w) link \<Rightarrow> ((client_error fault + 'a) \<times> ('s, 'w) link) option"

record client =
  cl_region :: svm_region
  cl_header :: usize
  cl_input_queue :: usize
  cl_client_index :: "u32 option"
  cl_message_ids :: "string \<rightharpoonup> u16"
  cl_context_counter :: u32
  cl_handle_keepalives :: bool

text \<open>
  The items of the \<^verbatim>\<open>Api\<close> trait for one message type. \<^verbatim>\<open>NAME_CRC\<close> is a constant the compiler
  evaluates; the declarations of this crate all evaluate.
\<close>

record 'm api_type =
  at_decl :: api_decl
  at_sval :: "'m \<Rightarrow> sval"
  at_of :: "sval \<Rightarrow> 'm"
  at_ty :: ty
  at_set_request_header :: "u16 \<Rightarrow> u32 \<Rightarrow> u32 \<Rightarrow> 'm \<Rightarrow> 'm"
  at_context :: "'m \<Rightarrow> u32 option"

definition name_crc_const :: "api_decl \<Rightarrow> string" where
  "name_crc_const d = (case api_name_crc d of Inr s \<Rightarrow> s | Inl _ \<Rightarrow> [])"

text \<open>Durations and instants are in nanoseconds.\<close>

definition connect_timeout :: nat where
  "connect_timeout = 10000000000"

definition disconnect_timeout :: nat where
  "disconnect_timeout = 2000000000"

definition receive_interval :: nat where
  "receive_interval = 400000"

section \<open>Sequencing\<close>

definition ret :: "'a \<Rightarrow> ('s, 'w, 'a) act" where
  "ret x = (\<lambda>l. Some (Inr x, l))"

definition fail :: "client_error fault \<Rightarrow> ('s, 'w, 'a) act" where
  "fail e = (\<lambda>l. Some (Inl e, l))"

definition bindc :: "('s, 'w, 'a) act \<Rightarrow> ('a \<Rightarrow> ('s, 'w, 'b) act) \<Rightarrow> ('s, 'w, 'b) act" where
  "bindc m f = (\<lambda>l.
     case m l of
       None \<Rightarrow> None
     | Some (Inl e, l') \<Rightarrow> Some (Inl e, l')
     | Some (Inr x, l') \<Rightarrow> f x l')"

definition of_fault :: "('e \<Rightarrow> client_error) \<Rightarrow> 'e fault \<Rightarrow> client_error fault" where
  "of_fault g f = (case f of Err e \<Rightarrow> Err (g e) | Panic msg \<Rightarrow> Panic msg)"

definition lift_res :: "(client_error fault + 'a) \<Rightarrow> ('s, 'w, 'a) act" where
  "lift_res r = (\<lambda>l. Some (r, l))"

definition on_heap :: "('s heap \<Rightarrow> ('e fault + 'a) \<times> 's heap) \<Rightarrow> ('e \<Rightarrow> client_error) \<Rightarrow> ('s, 'w, 'a) act" where
  "on_heap f g = (\<lambda>l. case f (ln_heap l) of (r, h) \<Rightarrow> Some (map_err (of_fault g) r, l\<lparr>ln_heap := h\<rparr>))"

section \<open>Messages\<close>

definition message_id :: "msg_buf \<Rightarrow> memory \<Rightarrow> client_error fault + u16" where
  "message_id b m =
     map_err (\<lambda>e. Err (ClientCodec e))
       (rbind (msg_bytes b m) (\<lambda>bs. rbind (deserialize (TInt TyU16) bs) (\<lambda>v. Inr (u16_of v))))"

definition committed :: "queue_error fault \<Rightarrow> queue_operation \<Rightarrow> bool" where
  "committed e operation =
     (case e of
        Err (SignalAfterCommit reported _) \<Rightarrow> reported = operation
      | Err (EventSignalAfterCommit reported _) \<Rightarrow> reported = operation
      | _ \<Rightarrow> False)"

definition retryable :: "region_error \<Rightarrow> bool" where
  "retryable e =
     (case e of
        RegionOpen _ (Os n) \<Rightarrow> n = 2 \<or> n = 11
      | RegionNotReady \<Rightarrow> True
      | _ \<Rightarrow> False)"

definition client_message_id :: "client \<Rightarrow> string \<Rightarrow> u16 option" where
  "client_message_id c name = cl_message_ids c name"

function next_context :: "u32 \<Rightarrow> u32 \<times> u32" where
  "next_context counter =
     (let counter' = (counter + 1) AND 0x7FFFFFFF in
      if counter' \<noteq> 0 then (counter', counter' OR 0x80000000) else next_context counter')"
  by pat_completeness auto
termination
  by (relation "measure (\<lambda>c. if (c + 1) AND 0x7FFFFFFF = 0 then 1 else 0)") auto

declare next_context.simps [simp del]

definition free_message :: "('s, 'w) client_env \<Rightarrow> msg_buf \<Rightarrow> ('s, 'w, unit) act" where
  "free_message env b = on_heap (msg_free (ce_mspace env) b) ClientMemory"

definition queue_add_at ::
  "('s, 'w) client_env \<Rightarrow> usize \<Rightarrow> bytes \<Rightarrow> ('s, 'w) link \<Rightarrow> ((queue_error fault + unit) \<times> ('s, 'w) link) option" where
  "queue_add_at env a element l =
     (case queue_add (ce_queue env) element Nowait (ln_queues l a, l) of
        None \<Rightarrow> None
      | Some (res, q, l') \<Rightarrow> Some (res, l'\<lparr>ln_queues := (ln_queues l')(a := q)\<rparr>))"

definition queue_sub_at ::
  "('s, 'w) client_env \<Rightarrow> usize \<Rightarrow> ('s, 'w) link \<Rightarrow> ((queue_error fault + unit) \<times> bytes option \<times> ('s, 'w) link) option" where
  "queue_sub_at env a l =
     (case queue_sub (ce_queue env) 8 Nowait (ln_queues l a, l) of
        None \<Rightarrow> None
      | Some ((res, q, l'), taken) \<Rightarrow> Some (res, taken, l'\<lparr>ln_queues := (ln_queues l')(a := q)\<rparr>))"

section \<open>Sending\<close>

definition send_message :: "('s, 'w) client_env \<Rightarrow> client \<Rightarrow> sval \<Rightarrow> ('s, 'w, unit) act" where
  "send_message env c v =
     bindc (lift_res (map_err (\<lambda>e. Err (ClientCodec e)) (serialized_len v))) (\<lambda>payload_len.
     bindc (on_heap (msg_allocate (ce_mspace env) payload_len) ClientMemory) (\<lambda>allocation.
     bindc (\<lambda>l. case msg_encode v allocation (ln_memory l) of
         Inl e \<Rightarrow> Some (Inl (Err (ClientCodec e)), l)
       | Inr (written, b, m) \<Rightarrow> Some (Inr b, l\<lparr>ln_heap := (fst (ln_heap l), m)\<rparr>)) (\<lambda>allocation.
     \<lambda>l. case queue_add_at env (sh_input_queue (shmem_header_at (ln_memory l) (cl_header c)))
             (to_ne_bytes 8 (of_nat (msg_address allocation) :: u64)) l of
         None \<Rightarrow> None
       | Some (Inr _, l') \<Rightarrow> Some (Inr (), l')
       | Some (Inl e, l') \<Rightarrow>
           if committed e Add then Some (Inr (), l')
           else bindc (free_message env allocation) (\<lambda>_. fail (of_fault ClientQueue e)) l')))"

section \<open>Receiving\<close>

definition keepalive_reply :: "('s, 'w) client_env \<Rightarrow> client \<Rightarrow> memclnt_keepalive \<Rightarrow> ('s, 'w, unit) act" where
  "keepalive_reply env c request =
     bindc (lift_res (ok_or (Err (MessageUnavailable (name_crc_const memclnt_keepalive_reply_api)))
         (client_message_id c (name_crc_const memclnt_keepalive_reply_api)))) (\<lambda>reply_id.
       send_message env c (memclnt_keepalive_reply_sval
         \<lparr>mkr_id = reply_id, mkr_context = mk_client_index request, mkr_retval = 0\<rparr>))"

definition take_decoded ::
  "('s, 'w) client_env \<Rightarrow> ty \<Rightarrow> (sval \<Rightarrow> 'm) \<Rightarrow> msg_buf \<Rightarrow> ('s, 'w, 'm) act" where
  "take_decoded env t of_sval message = (\<lambda>l.
     let decoded = msg_decode t of_sval message (ln_memory l) in
     bindc (free_message env message) (\<lambda>_. lift_res (map_err (\<lambda>e. Err (ClientCodec e)) decoded)) l)"

text \<open>One address taken from the client's queue: its message, or none when it was a keepalive.\<close>

definition accept_message ::
  "('s, 'w) client_env \<Rightarrow> client \<Rightarrow> bytes \<Rightarrow> ('s, 'w, msg_buf option) act" where
  "accept_message env c address =
     bindc (\<lambda>l. Some (map_err (of_fault ClientMemory)
         (msg_from_address (cl_region c) (ln_memory l) (unat (from_ne_bytes address :: u64))), l)) (\<lambda>message.
     bindc (\<lambda>l. Some (message_id message (ln_memory l), l)) (\<lambda>i.
     if cl_handle_keepalives c \<and> Some i = client_message_id c (name_crc_const memclnt_keepalive_api)
     then bindc (take_decoded env memclnt_keepalive_ty memclnt_keepalive_of message) (\<lambda>request.
       bindc (keepalive_reply env c request) (\<lambda>_. ret None))
     else ret (Some message)))"

partial_function (option) receive ::
  "('s, 'w) client_env \<Rightarrow> client \<Rightarrow> nat \<Rightarrow> ('s, 'w) link \<Rightarrow> ((client_error fault + msg_buf option) \<times> ('s, 'w) link) option" where
  "receive env c deadline l =
     (case queue_sub_at env (cl_input_queue c) l of
        None \<Rightarrow> None
      | Some (Inr _, taken, l') \<Rightarrow>
          (case accept_message env c (case taken of None \<Rightarrow> replicate 8 0 | Some bs \<Rightarrow> bs) l' of
             None \<Rightarrow> None
           | Some (Inl e, l'') \<Rightarrow> Some (Inl e, l'')
           | Some (Inr (Some message), l'') \<Rightarrow> Some (Inr (Some message), l'')
           | Some (Inr None, l'') \<Rightarrow> receive env c deadline l'')
      | Some (Inl e, taken, l') \<Rightarrow>
          if e = Err Empty then
            if deadline \<le> ce_now env l' then Some (Inr None, l') else receive env c deadline (ce_sleep env receive_interval l')
          else Some (Inl (of_fault ClientQueue e), l'))"

section \<open>Invoking a service\<close>

definition invoke_target :: "client \<Rightarrow> api_decl \<Rightarrow> api_decl \<Rightarrow> client_error fault + u32 \<times> u16 \<times> u16" where
  "invoke_target c request reply_decl =
     rbind (ok_or (Err NotConnected) (cl_client_index c)) (\<lambda>client_index.
     rbind (ok_or (Err RequestHasNoReply) (api_service request)) (\<lambda>service.
     rbind (ok_or (Err RequestHasNoReply) (reply service)) (\<lambda>expected.
     if expected \<noteq> api_name reply_decl then Inl (Err (ReplyTypeMismatch expected (api_name reply_decl)))
     else
     rbind (ok_or (Err (MessageUnavailable (name_crc_const request)))
         (client_message_id c (name_crc_const request))) (\<lambda>request_id.
     rbind (ok_or (Err (MessageUnavailable (name_crc_const reply_decl)))
         (client_message_id c (name_crc_const reply_decl))) (\<lambda>reply_id.
     Inr (client_index, request_id, reply_id))))))"

definition await_reply :: "('s, 'w) client_env \<Rightarrow> client \<Rightarrow> 'r api_type \<Rightarrow> u16 \<Rightarrow> u32 \<Rightarrow> ('s, 'w, 'r) act" where
  "await_reply env c rp reply_id context' =
     bindc (\<lambda>l. receive env c (ce_now env l + connect_timeout) l) (\<lambda>received.
       case received of
         None \<Rightarrow> fail (Err (ResponseTimeout context'))
       | Some message \<Rightarrow>
           bindc (\<lambda>l. Some (message_id message (ln_memory l), l)) (\<lambda>i.
             if i \<noteq> reply_id
             then bindc (free_message env message) (\<lambda>_. fail (Err (UnexpectedMessage i reply_id)))
             else bindc (take_decoded env (at_ty rp) (at_of rp) message) (\<lambda>answer.
               case at_context rp answer of
                 Some received \<Rightarrow>
                   if received = context' then ret answer else fail (Err (ContextMismatch context' received))
               | None \<Rightarrow> ret answer)))"

definition invoke ::
  "('s, 'w) client_env \<Rightarrow> 'q api_type \<Rightarrow> 'r api_type \<Rightarrow> 'q \<Rightarrow> client \<Rightarrow> ('s, 'w) link \<Rightarrow>
     ((client_error fault + 'r) \<times> client \<times> ('s, 'w) link) option" where
  "invoke env rq rp request c l =
     (case invoke_target c (at_decl rq) (at_decl rp) of
        Inl e \<Rightarrow> Some (Inl e, c, l)
      | Inr (client_index, request_id, reply_id) \<Rightarrow>
          (case next_context (cl_context_counter c) of (counter, context') \<Rightarrow>
             let c' = c\<lparr>cl_context_counter := counter\<rparr>;
                 message = at_sval rq (at_set_request_header rq request_id client_index context' request)
             in map_option (\<lambda>(res, l'). (res, c', l'))
                  (bindc (send_message env c' message) (\<lambda>_. await_reply env c' rp reply_id context') l)))"

section \<open>The client's queue\<close>

definition allocate_client_queue ::
  "('s, 'w) client_env \<Rightarrow> u32 \<Rightarrow> ('s, 'w, usize) act" where
  "allocate_client_queue env response_queue_size =
     (let config = \<lparr>cfg_nels = response_queue_size, cfg_elsize = 8, cfg_consumer_pid = ce_pid env\<rparr> in
      bindc (lift_res (map_err (\<lambda>e. Err (ClientQueue e)) (size_to_alloc config))) (\<lambda>n.
      bindc (lift_res (ok_or (Err (ClientQueue LayoutOverflow)) (from_size_align n 64))) (\<lambda>l.
      bindc (on_heap (allocate_zeroed (ce_mspace env) l) ClientQueue) (\<lambda>allocated.
        case allocated of
          None \<Rightarrow> fail (Err (ClientQueue LayoutOverflow))
        | Some address \<Rightarrow> (\<lambda>st.
            case queue_init address config (load (ln_memory st) (address + queue_header_size) (n - queue_header_size)) of
              Inr q \<Rightarrow> Some (Inr address, st\<lparr>ln_queues := (ln_queues st)(address := q)\<rparr>)
            | Inl (Panic msg) \<Rightarrow> Some (Inl (Panic msg), st)
            | Inl (Err e) \<Rightarrow>
                bindc (on_heap (deallocate (ce_mspace env) address) ClientQueue) (\<lambda>_. fail (Err (ClientQueue e))) st)))))"

text \<open>\<^verbatim>\<open>cleanup\<close> destroys the queue's POSIX objects, which are not part of \<open>svm_queue\<close>.\<close>

definition release_queue :: "('s, 'w) client_env \<Rightarrow> client \<Rightarrow> ('s, 'w, unit) act" where
  "release_queue env c = (\<lambda>st.
     let q = ln_queues st (cl_input_queue c);
         config = \<lparr>cfg_nels = q_maxsize q, cfg_elsize = q_elsize q, cfg_consumer_pid = q_consumer_pid q\<rparr> in
     (case size_to_alloc config of
        Inl _ \<Rightarrow> Some (Inl (Panic ''attached queue geometry is valid''), st)
      | Inr n \<Rightarrow>
          (case from_size_align n 64 of
             None \<Rightarrow> Some (Inl (Panic ''queue layout is valid''), st)
           | Some _ \<Rightarrow> on_heap (deallocate (ce_mspace env) (cl_input_queue c)) ClientQueue st)))"

section \<open>Disconnecting\<close>

partial_function (option) await_delete ::
  "('s, 'w) client_env \<Rightarrow> client \<Rightarrow> nat \<Rightarrow> u16 \<Rightarrow> u32 \<Rightarrow> ('s, 'w) link \<Rightarrow> ((client_error fault + unit) \<times> ('s, 'w) link) option" where
  "await_delete env c deadline delete_reply_id client_index l =
     (case receive env c deadline l of
        None \<Rightarrow> None
      | Some (Inl e, l') \<Rightarrow> Some (Inl e, l')
      | Some (Inr None, l') \<Rightarrow> Some (Inl (Err (DisconnectTimeout client_index)), l')
      | Some (Inr (Some message), l') \<Rightarrow>
          (case message_id message (ln_memory l') of
             Inl e \<Rightarrow> Some (Inl e, l')
           | Inr i \<Rightarrow>
               if i \<noteq> delete_reply_id then
                 (case free_message env message l' of
                    None \<Rightarrow> None
                  | Some (Inl e, l'') \<Rightarrow> Some (Inl e, l'')
                  | Some (Inr _, l'') \<Rightarrow> await_delete env c deadline delete_reply_id client_index l'')
               else
                 bindc (take_decoded env memclnt_delete_reply_ty memclnt_delete_reply_of message) (\<lambda>answer.
                   if sint (mdr_response answer) < 0 then fail (Err (CreateRejected (mdr_response answer))) else ret ()) l'))"

definition disconnect ::
  "('s, 'w) client_env \<Rightarrow> client \<Rightarrow> ('s, 'w) link \<Rightarrow> ((client_error fault + unit) \<times> client \<times> ('s, 'w) link) option" where
  "disconnect env c l =
     (case rbind (ok_or (Err NotConnected) (cl_client_index c)) (\<lambda>client_index.
          rbind (ok_or (Err (MessageUnavailable (name_crc_const memclnt_delete_api)))
              (client_message_id c (name_crc_const memclnt_delete_api))) (\<lambda>delete_id.
          rbind (ok_or (Err (MessageUnavailable (name_crc_const memclnt_delete_reply_api)))
              (client_message_id c (name_crc_const memclnt_delete_reply_api))) (\<lambda>delete_reply_id.
          Inr (client_index, delete_id, delete_reply_id)))) of
        Inl e \<Rightarrow> Some (Inl e, c, l)
      | Inr (client_index, delete_id, delete_reply_id) \<Rightarrow>
          (case bindc (send_message env c (memclnt_delete_sval
                  \<lparr>md_id = delete_id, md_index = client_index, md_handle = 0, md_do_cleanup = False\<rparr>)) (\<lambda>_ st.
                  await_delete env c (ce_now env st + disconnect_timeout) delete_reply_id client_index st) l of
             None \<Rightarrow> None
           | Some (Inl e, l') \<Rightarrow> Some (Inl e, c, l')
           | Some (Inr _, l') \<Rightarrow>
               map_option (\<lambda>(res, l''). (res, c\<lparr>cl_client_index := None, cl_message_ids := Map.empty\<rparr>, l''))
                 (release_queue env c l')))"

section \<open>Connecting\<close>

definition attach_at :: "('s, 'w) client_env \<Rightarrow> bytes \<Rightarrow> ('s, 'w) link \<Rightarrow> region_error fault + svm_region" where
  "attach_at env path l =
     (case ce_backing env l of (opened, stat, pread, calls) \<Rightarrow>
        attach_region path opened stat pread calls (ce_page_size env) (ln_memory l))"

partial_function (option) attach_loop ::
  "('s, 'w) client_env \<Rightarrow> bytes \<Rightarrow> nat \<Rightarrow> ('s, 'w) link \<Rightarrow> ((client_error fault + svm_region) \<times> ('s, 'w) link) option" where
  "attach_loop env path deadline l =
     (case attach_at env path l of
        Inr r \<Rightarrow> Some (Inr r, l)
      | Inl (Panic msg) \<Rightarrow> Some (Inl (Panic msg), l)
      | Inl (Err e) \<Rightarrow>
          if retryable e \<and> ce_now env l < deadline then attach_loop env path deadline (ce_sleep env receive_interval l)
          else Some (Inl (Err (ClientRegion e)), l))"

partial_function (option) header_loop ::
  "('s, 'w) client_env \<Rightarrow> bytes \<Rightarrow> nat \<Rightarrow> svm_region \<Rightarrow> ('s, 'w) link \<Rightarrow> ((client_error fault + usize) \<times> ('s, 'w) link) option" where
  "header_loop env path deadline r l =
     (case user_context r (ln_memory l) of
        Some header \<Rightarrow> Some (Inr header, l)
      | None \<Rightarrow>
          if deadline \<le> ce_now env l then Some (Inl (Err (ConnectTimeout path)), l)
          else header_loop env path deadline r (ce_sleep env receive_interval l))"

partial_function (option) await_create ::
  "('s, 'w) client_env \<Rightarrow> client \<Rightarrow> bytes \<Rightarrow> nat \<Rightarrow> ('s, 'w) link \<Rightarrow> ((client_error fault + memclnt_create_v2_reply) \<times> ('s, 'w) link) option" where
  "await_create env c path deadline l =
     (case receive env c deadline l of
        None \<Rightarrow> None
      | Some (Inl e, l') \<Rightarrow> Some (Inl e, l')
      | Some (Inr None, l') \<Rightarrow> Some (Inl (Err (ConnectTimeout path)), l')
      | Some (Inr (Some message), l') \<Rightarrow>
          (case message_id message (ln_memory l') of
             Inl e \<Rightarrow> Some (Inl e, l')
           | Inr i \<Rightarrow>
               if i \<noteq> memclnt_create_v2_reply_id then
                 (case free_message env message l' of
                    None \<Rightarrow> None
                  | Some (Inl e, l'') \<Rightarrow> Some (Inl e, l'')
                  | Some (Inr _, l'') \<Rightarrow> await_create env c path deadline l'')
               else take_decoded env memclnt_create_v2_reply_ty memclnt_create_v2_reply_of message l'))"

text \<open>What \<^verbatim>\<open>connect\<close> does with the create reply: the message table becomes the map of ids.\<close>

definition finish_connect ::
  "('s, 'w) client_env \<Rightarrow> client \<Rightarrow> memclnt_create_v2_reply \<Rightarrow> ('s, 'w, client) act" where
  "finish_connect env c answer =
     (if sint (mcr_response answer) < 0
      then bindc (release_queue env c) (\<lambda>_. fail (Err (CreateRejected (mcr_response answer))))
      else (\<lambda>l.
        case remaining_from (cl_region c) (ln_memory l) (unat (mcr_message_table answer)) of
          None \<Rightarrow> Some (Inl (Err (ClientMemory MemInvalidHeader)), l)
        | Some table \<Rightarrow>
            (case deserialize_message_table table of
               Inl e \<Rightarrow> Some (Inl (Err (ClientCodec e)), l)
             | Inr entries \<Rightarrow>
                 Some (Inr (c\<lparr>cl_message_ids := map_of (rev entries), cl_client_index := Some (mcr_index answer)\<rparr>), l))))"

definition connect ::
  "('s, 'w) client_env \<Rightarrow> string \<Rightarrow> bytes \<Rightarrow> u32 \<Rightarrow> bool \<Rightarrow> ('s, 'w, client) act" where
  "connect env name api_segment response_queue_size handle_keepalives = (\<lambda>l0.
     let deadline = ce_now env l0 + connect_timeout in
     bindc (attach_loop env api_segment deadline) (\<lambda>region.
     bindc (header_loop env api_segment deadline region) (\<lambda>header_address.
     bindc (\<lambda>l. Some (map_err (of_fault ClientMemory)
         (validate_shmem region (ln_memory l) (ln_queues l) header_address), l)) (\<lambda>_.
     bindc (allocate_client_queue env response_queue_size) (\<lambda>queue.
     let c = \<lparr>cl_region = region, cl_header = header_address, cl_input_queue = queue, cl_client_index = None,
           cl_message_ids = Map.empty, cl_context_counter = 0, cl_handle_keepalives = handle_keepalives\<rparr>;
         request = \<lparr>mc_id = memclnt_create_v2_id, mc_context = 0, mc_ctx_quota = 0, mc_input_queue = of_nat queue,
           mc_name = fixed_from_str 64 name, mc_api_versions = replicate 8 0, mc_keepalive = handle_keepalives\<rparr>
     in
     bindc (send_message env c (memclnt_create_v2_sval request)) (\<lambda>_.
     bindc (await_create env c api_segment deadline) (\<lambda>answer.
     finish_connect env c answer)))))) l0)"

end
