(* ===== verification/Api_Client_Send.thy ===== *)
theory Api_Client_Send
  imports Api_Client
begin

text \<open>
  Sending: what the non-blocking queue operations do to the world around the queue, and that
  \<^verbatim>\<open>send_message\<close> either delivers the whole message or leaves the heap as it was.
\<close>

section \<open>Non-blocking queue operations\<close>

text \<open>The queue primitives leave a part of the world alone.\<close>

definition world_kept :: "('w \<Rightarrow> 'v) \<Rightarrow> 'w queue_env \<Rightarrow> bool" where
  "world_kept f env \<longleftrightarrow>
     (\<forall>st b. f (snd (snd (mutex_lock env b st))) = f (snd st)) \<and>
     (\<forall>st. f (snd (mutex_unlock env st)) = f (snd st)) \<and>
     (\<forall>st. f (snd (snd (notify_all env st))) = f (snd st)) \<and>
     (\<forall>st fd bs. f (snd (snd (event_write env fd bs st))) = f (snd st))"

lemma world_keptD:
  assumes "world_kept f env"
  shows "mutex_lock env b st = (lo, q, w) \<Longrightarrow> f w = f (snd st)"
    and "f (snd (mutex_unlock env st)) = f (snd st)"
    and "notify_all env st = (err, q, w) \<Longrightarrow> f w = f (snd st)"
    and "event_write env fd bs st = (wn, q, w) \<Longrightarrow> f w = f (snd st)"
  using assms unfolding world_kept_def by (metis snd_conv)+

lemma signal_world: "world_kept f env \<Longrightarrow> signal env p op st = (res, q, w) \<Longrightarrow> f w = f (snd st)"
  by (auto simp: signal_def Let_def split: if_splits prod.splits option.splits dest: world_keptD(3,4))

lemma try_lock_outcome:
  assumes "env_ok env" "world_kept f env" "try_lock env (q, w) = (res, q', w')"
  shows "keeps q q' \<and> f w' = f w \<and> (res = Inr \<lparr>lk_guard = True, lk_wait = Nowait\<rparr> \<or> (\<exists>e. res = Inl (Err e) \<and>
     e \<noteq> Empty \<and> \<not> committed (Err e) Add))"
proof -
  obtain lo q1 w1 where lk: "mutex_lock env True (q, w) = (lo, q1, w1)" by (rule prod_cases3)
  note kept = env_okD(1) [OF assms(1) lk] world_keptD(1) [OF assms(2) lk]
  have unlock: "fst (mutex_unlock env (q1, w1)) = q1" "f (snd (mutex_unlock env (q1, w1))) = f w1"
    using env_okD(4) [OF assms(1), of "(q1, w1)"] world_keptD(2) [OF assms(2), of "(q1, w1)"] by simp_all
  show ?thesis
    using assms(3) lk kept unlock
    by (auto simp: try_lock_def acquire_def committed_def split: lock_outcome.splits option.splits prod.splits)
qed

lemma queue_add_nowait_run:
  assumes ok: "env_ok env" and wk: "world_kept f env" and inv: "queue_inv q" and len: "length e = element_size q"
  obtains res q' w' q1 where "queue_add env e Nowait (q, w) = Some (res, q', w')" "queue_inv q'" "f w' = f w"
    "keeps q q1" "if res = Inr () \<or> (\<exists>x. res = Inl x \<and> committed x Add) then contents q' = contents q1 @ [e]
      else q' = q1 \<and> (\<exists>x. res = Inl x)"
proof -
  obtain lres q1 w1 where lk: "try_lock env (q, w) = (lres, q1, w1)" by (rule prod_cases3)
  note lock = try_lock_outcome [OF ok wk lk]
  then have inv1: "queue_inv q1" and len1: "length e = element_size q1"
    using inv len keeps_geometry [of q q1] by (auto simp: keeps_def)
  have valid: "validate_element (element_size q) e = Inr ()" "validate_element (element_size q1) e = Inr ()"
    using len len1 by (simp_all add: validate_element_def validate_element_length_def)
  consider (busy) err where "lres = Inl (Err err)" "\<not> committed (Err err) Add"
    | (held) "lres = Inr \<lparr>lk_guard = True, lk_wait = Nowait\<rparr>" using lock by blast
  then show ?thesis
  proof cases
    case busy
    then show ?thesis
      using lk valid lock inv1 by (intro that [of "Inl (Err err)" q1 w1 q1]) (auto simp: queue_add_def lock_for_def)
  next
    case held
    have run: "queue_add env e Nowait (q, w) =
        map_option (release env) (add_nolock env e \<lparr>lk_guard = True, lk_wait = Nowait\<rparr> (q1, w1))"
      using lk valid held by (simp add: queue_add_def lock_for_def)
    have unlock: "mutex_unlock env (q2, w2) = (q2, snd (mutex_unlock env (q2, w2)))" for q2 w2
      using env_okD(4) [OF ok, of "(q2, w2)"] by (metis fst_conv prod.collapse)
    show ?thesis
    proof (cases "q_cursize q1 = q_maxsize q1")
      case True
      then have "queue_add env e Nowait (q, w) = Some (Inl (Err QueueFull), q1, snd (mutex_unlock env (q1, w1)))"
        using valid unlock [of q1 w1]
        by (simp add: run add_nolock_def wait_until.simps await_change_def release_def)
      then show ?thesis
        using lock inv1 world_keptD(2) [OF wk, of "(q1, w1)"]
        by (intro that [of "Inl (Err QueueFull)" q1 "snd (mutex_unlock env (q1, w1))" q1]) (auto simp: committed_def)
    next
      case False
      then have room: "unat (q_cursize q1) < capacity q1" by (rule not_full [OF inv1])
      obtain res2 q2 w2 where sig: "(if q_cursize q1 = 0 then signal env True Add (write_one e q1, w1)
          else (Inr (), write_one e q1, w1)) = (res2, q2, w2)" by (rule prod_cases3)
      have q2: "q2 = write_one e q1" and fw: "f w2 = f w1"
        using sig signal_queue [OF ok, of True Add "(write_one e q1, w1)"] signal_world [OF wk, of True Add]
        by (auto split: if_splits)
      have res2: "res2 = Inr () \<or> (\<exists>x. res2 = Inl x \<and> committed x Add)"
        using sig signal_result [of env True Add "(write_one e q1, w1)"] by (auto simp: committed_def split: if_splits)
      have "queue_add env e Nowait (q, w) = Some (res2, q2, snd (mutex_unlock env (q2, w2)))"
        using valid False sig unlock [of q2 w2]
        by (simp add: run add_nolock_def wait_until.simps release_def)
      then show ?thesis
        using lock res2 q2 fw world_keptD(2) [OF wk, of "(q2, w2)"] write_one_inv [OF inv1 len1 room]
          write_one_contents [OF inv1 len1 room]
        by (intro that [of res2 q2 "snd (mutex_unlock env (q2, w2))" q1]) auto
    qed
  qed
qed

section \<open>Sending a message\<close>

text \<open>
  The environment of a client whose queues and heap work as promised: while the client is inside a
  queue operation the others keep the queue well formed and do not touch the heap.
\<close>

definition client_env_ok ::
  "('s, 'w) client_env \<Rightarrow> ('s \<Rightarrow> bool) \<Rightarrow> ('s \<Rightarrow> usize \<rightharpoonup> usize) \<Rightarrow> usize \<Rightarrow> usize \<Rightarrow> bool" where
  "client_env_ok env good live lo hi \<longleftrightarrow>
     env_ok (ce_queue env) \<and> world_kept ln_heap (ce_queue env) \<and> mspace_ok (ce_mspace env) good live lo hi"

text \<open>The API header lies in a live block of the heap, and the region spans the heap.\<close>

definition client_ok :: "client \<Rightarrow> usize \<Rightarrow> usize \<Rightarrow> (usize \<rightharpoonup> usize) \<Rightarrow> bool" where
  "client_ok c lo hi L \<longleftrightarrow>
     rg_base (cl_region c) \<le> lo \<and> hi \<le> rg_base (cl_region c) + rg_size (cl_region c) \<and>
     rg_base (cl_region c) + rg_size (cl_region c) < usize_bound \<and>
     (\<exists>b u. L b = Some u \<and> b \<le> cl_header c \<and> cl_header c + shmem_header_bytes \<le> b + u)"

abbreviation input_queue_of :: "client \<Rightarrow> memory \<Rightarrow> usize" where
  "input_queue_of c m \<equiv> sh_input_queue (shmem_header_at m (cl_header c))"

lemma header_unchanged:
  assumes "L b = Some u" "b \<le> cl_header c" "cl_header c + shmem_header_bytes \<le> b + u"
    and "load m' b u = load m b u"
  shows "input_queue_of c m' = input_queue_of c m"
proof -
  have cut: "load m'' (cl_header c + 8) 8 = take 8 (drop (cl_header c + 8 - b) (load m'' b u))" for m''
    using assms(2,3) by (simp add: shmem_header_bytes_def)
  have "load m' (cl_header c + 8) 8 = load m (cl_header c + 8) 8"
    unfolding cut [of m'] cut [of m] assms(4) ..
  then show ?thesis
    by (simp add: shmem_header_at_def load_word_def)
qed

lemma queue_add_at_run:
  assumes ok: "client_env_ok env good live lo hi" and "queue_inv (ln_queues l a)"
    and "length e = element_size (ln_queues l a)"
  obtains res l' q1 where "queue_add_at env a e l = Some (res, l')" "ln_heap l' = ln_heap l"
    "queue_inv (ln_queues l' a)" "keeps (ln_queues l a) q1"
    "if res = Inr () \<or> (\<exists>x. res = Inl x \<and> committed x Add) then contents (ln_queues l' a) = contents q1 @ [e]
     else ln_queues l' a = q1 \<and> (\<exists>x. res = Inl x)"
proof (rule queue_add_nowait_run [of "ce_queue env" ln_heap "ln_queues l a" e l])
  fix res q' w' q1
  assume "queue_add (ce_queue env) e Nowait (ln_queues l a, l) = Some (res, q', w')" "queue_inv q'"
    "ln_heap w' = ln_heap l" "keeps (ln_queues l a) q1"
    "if res = Inr () \<or> (\<exists>x. res = Inl x \<and> committed x Add) then contents q' = contents q1 @ [e]
     else q' = q1 \<and> (\<exists>x. res = Inl x)"
  then show ?thesis
    by (intro that [of res "w'\<lparr>ln_queues := (ln_queues w')(a := q')\<rparr>" q1]) (simp_all add: queue_add_at_def)
qed (use assms in \<open>simp_all add: client_env_ok_def\<close>)

lemma send_to_queue:
  assumes "serialized_len v = Inr n" "ln_heap l = (s, m)" "msg_allocate (ce_mspace env) n (s, m) = (Inr b, s1, m1)"
    and "b = \<lparr>mb_payload = base + 16, mb_payload_len = n, mb_initialized_len = 0\<rparr>"
    and "m2 = store m1 (base + 16) (wire v False)"
  shows "send_message env c v l =
    (case queue_add_at env (input_queue_of c m2) (to_ne_bytes 8 (of_nat (base + 16) :: u64)) (l\<lparr>ln_heap := (s1, m2)\<rparr>) of
       None \<Rightarrow> None
     | Some (Inr _, l') \<Rightarrow> Some (Inr (), l')
     | Some (Inl e, l') \<Rightarrow>
         if committed e Add then Some (Inr (), l')
         else bindc (free_message env \<lparr>mb_payload = base + 16, mb_payload_len = n, mb_initialized_len = n\<rparr>)
           (\<lambda>_. fail (of_fault ClientQueue e)) l')"
  using assms msg_encode_ok [OF assms(1), of b m1]
  by (simp add: send_message_def bindc_def lift_res_def on_heap_def msg_address_def)

lemma send_message_run:
  assumes env: "client_env_ok env good live lo hi" and good: "good (fst (ln_heap l))"
    and c: "client_ok c lo hi (live (fst (ln_heap l)))"
    and a: "a = input_queue_of c (ln_memory l)" and q: "queue_inv (ln_queues l a)" "element_size (ln_queues l a) = 8"
    and ty: "has_ty t v" "round_trips t False" and n: "serialized_len v = Inr n" "n < 2 ^ 32"
  shows "\<exists>res l'. send_message env c v l = Some (res, l') \<and>
    (\<forall>b u. live (fst (ln_heap l)) b = Some u \<longrightarrow> load (ln_memory l') b u = load (ln_memory l) b u) \<and>
    (if res = Inr ()
     then \<exists>q1 address b. keeps (ln_queues l a) q1 \<and>
       contents (ln_queues l' a) = contents q1 @ [to_ne_bytes 8 (address :: u64)] \<and>
       msg_from_address (cl_region c) (ln_memory l') (unat address) = Inr b \<and>
       msg_decode t id b (ln_memory l') = Inr v
     else live (fst (ln_heap l')) = live (fst (ln_heap l)))"
proof -
  obtain s m where h: "ln_heap l = (s, m)" by fastforce
  have ok: "mspace_ok (ce_mspace env) good live lo hi" using env by (simp add: client_env_ok_def)
  obtain ares s1 m1 where alloc: "msg_allocate (ce_mspace env) n (s, m) = (ares, s1, m1)" by (rule prod_cases3)
  note len = wire_length_bound [OF n(1)]
  show ?thesis
  proof (cases ares)
    case (Inl e)
    then have "live s1 = live s" "m1 = m"
      using msg_allocate_failed [OF ok _ alloc [unfolded Inl]] good h by auto
    then show ?thesis
      using alloc h n Inl by (auto simp: send_message_def bindc_def lift_res_def on_heap_def)
  next
    case (Inr b)
    obtain base u where b: "b = \<lparr>mb_payload = base + 16, mb_payload_len = n, mb_initialized_len = 0\<rparr>"
      and heap: "good s1" "live s base = None" "8 dvd base" "0 < base" "16 + n \<le> u" "live s1 = (live s)(base \<mapsto> u)"
      and block: "message_block m1 base n" and fits: "n + 24 \<le> 2 ^ 63"
      and others: "\<And>q v. live s q = Some v \<Longrightarrow> load m1 q v = load m q v"
      using msg_allocate_ok [OF ok _ alloc [unfolded Inr]] good h by (metis fst_conv)
    let ?m = "store m1 (base + 16) (wire v False)"
    let ?b = "\<lparr>mb_payload = base + 16, mb_payload_len = n, mb_initialized_len = n\<rparr>"
    have live1: "live s1 base = Some u" using heap(6) by simp
    have region: "rg_base (cl_region c) \<le> lo" "hi \<le> rg_base (cl_region c) + rg_size (cl_region c)"
        "rg_base (cl_region c) + rg_size (cl_region c) < usize_bound" using c by (simp_all add: client_ok_def)
    note written = message_written [OF ok heap(1) region ty n block live1 heap(5,3) refl refl]
    have kept: "load ?m q w = load m q w" if "live s q = Some w" for q w
      using written(4) [of q w] others [OF that] that heap(2,6) by (cases "q = base") auto
    define l1 where "l1 = l\<lparr>ln_heap := (s1, ?m)\<rparr>"
    have "input_queue_of c ?m = a"
      using c h kept header_unchanged [of "live s" _ _ c ?m m] a by (auto simp: client_ok_def)
    then have run: "send_message env c v l =
        (case queue_add_at env a (to_ne_bytes 8 (of_nat (base + 16) :: u64)) l1 of
           None \<Rightarrow> None
         | Some (Inr _, l') \<Rightarrow> Some (Inr (), l')
         | Some (Inl e, l') \<Rightarrow>
             if committed e Add then Some (Inr (), l')
             else bindc (free_message env ?b) (\<lambda>_. fail (of_fault ClientQueue e)) l')"
      using send_to_queue [OF n(1) h alloc [unfolded Inr] b refl] by (simp add: l1_def)
    have "base + 16 < usize_bound"
      using blocks_okD(3) [OF mspace_okD(1) [OF ok heap(1)] live1] heap(5) region by simp
    then have addr: "unat (of_nat (base + 16) :: u64) = base + 16"
      unfolding unat_of_nat by (simp add: usize_bound_def)
    have "queue_inv (ln_queues l1 a)" "length (to_ne_bytes 8 (of_nat (base + 16) :: u64)) = element_size (ln_queues l1 a)"
      using q by (simp_all add: l1_def)
    then obtain res l' q1 where
      add: "queue_add_at env a (to_ne_bytes 8 (of_nat (base + 16) :: u64)) l1 = Some (res, l')" "ln_heap l' = ln_heap l1"
        "queue_inv (ln_queues l' a)" "keeps (ln_queues l1 a) q1"
        "if res = Inr () \<or> (\<exists>x. res = Inl x \<and> committed x Add)
         then contents (ln_queues l' a) = contents q1 @ [to_ne_bytes 8 (of_nat (base + 16) :: u64)]
         else ln_queues l' a = q1 \<and> (\<exists>x. res = Inl x)"
      by (rule queue_add_at_run [OF env])
    have l': "ln_heap l' = (s1, ?m)" "keeps (ln_queues l a) q1" using add(2,4) by (simp_all add: l1_def)
    show ?thesis
    proof (cases "res = Inr () \<or> (\<exists>x. res = Inl x \<and> committed x Add)")
      case True
      then have "send_message env c v l = Some (Inr (), l')"
        using run add(1) by auto
      moreover have "\<exists>q1 address b. keeps (ln_queues l a) q1 \<and>
          contents (ln_queues l' a) = contents q1 @ [to_ne_bytes 8 (address :: u64)] \<and>
          msg_from_address (cl_region c) (ln_memory l') (unat address) = Inr b \<and> msg_decode t id b (ln_memory l') = Inr v"
        using True add(5) l' written(1,2) addr by (intro exI [of _ q1] exI [of _ "of_nat (base + 16)"] exI [of _ ?b]) auto
      ultimately show ?thesis
        using l'(1) kept h by auto
    next
      case False
      with add(5) obtain x where x: "res = Inl x" "\<not> committed x Add" by auto
      have free: "msg_free (ce_mspace env) ?b (s1, ?m) = ((Inr () :: memory_error fault + unit), free_block (ce_mspace env) base s1, ?m)"
          "live (free_block (ce_mspace env) base s1) = live s"
        using msg_free_ok [OF ok heap(1), of base ?b ?m] live1 fits written(3) heap(2,6) by (auto simp: fun_upd_idem)
      then have "send_message env c v l =
          Some (Inl (of_fault ClientQueue x), l'\<lparr>ln_heap := (free_block (ce_mspace env) base s1, ?m)\<rparr>)"
        using run add(1) l'(1) x by (simp add: free_message_def on_heap_def bindc_def fail_def)
      then show ?thesis
        using free(2) kept h by auto
    qed
  qed
qed

text \<open>
  C2. Sending a well-typed message either delivers it or has no effect on the heap. When it reports
  success, also after a failed wakeup, the server's queue has the message's address behind what was
  in it, and that address decodes to the message. When it reports an error, every block allocated
  on the way has been freed. Live blocks of others keep their contents in both cases.
\<close>

theorem send_message_delivers:
  assumes env: "client_env_ok env good live lo hi" and good: "good (fst (ln_heap l))"
    and c: "client_ok c lo hi (live (fst (ln_heap l)))"
    and a: "a = input_queue_of c (ln_memory l)" and q: "queue_inv (ln_queues l a)" "element_size (ln_queues l a) = 8"
    and ty: "has_ty t v" "round_trips t False" and n: "serialized_len v = Inr n" "n < 2 ^ 32"
  shows "\<exists>res l'. send_message env c v l = Some (res, l') \<and>
    (\<forall>b u. live (fst (ln_heap l)) b = Some u \<longrightarrow> load (ln_memory l') b u = load (ln_memory l) b u) \<and>
    (if res = Inr ()
     then \<exists>q1 address b. keeps (ln_queues l a) q1 \<and>
       contents (ln_queues l' a) = contents q1 @ [to_ne_bytes 8 (address :: u64)] \<and>
       msg_from_address (cl_region c) (ln_memory l') (unat address) = Inr b \<and>
       msg_decode t id b (ln_memory l') = Inr v
     else live (fst (ln_heap l')) = live (fst (ln_heap l)))"
  using assms by (rule send_message_run)

text \<open>A quiet environment: free mutexes, a bump allocator over the addresses 64 to 4096, a clock that sleeping advances.\<close>

definition still_queue_env :: "'w queue_env" where
  "still_queue_env =
     \<lparr>mutex_lock = (\<lambda>_ st. (Standard, st)), mutex_unlock = (\<lambda>st. st),
      condvar_wait = (\<lambda>_ st. (Woken Notified, st)), notify_all = (\<lambda>st. (None, st)),
      event_write = (\<lambda>_ _ st. ((8, 0), st)), others = (\<lambda>st. st), now = (\<lambda>_. 0)\<rparr>"

definition still_env :: "(usize \<times> (usize \<rightharpoonup> usize), nat) client_env" where
  "still_env =
     \<lparr>ce_mspace = bump_mspace 4096, ce_queue = still_queue_env, ce_sleep = (\<lambda>n l. l\<lparr>ln_world := ln_world l + n\<rparr>),
      ce_now = ln_world, ce_backing = (\<lambda>_. (Some 2, Inr 0, Inr [], sample_calls)), ce_page_size = 4096, ce_pid = 1\<rparr>"

lemma still_env_ok: "client_env_ok still_env (bump_good 64 4096) snd 64 4096"
  using bump_mspace_ok [of 4096 64]
  by (simp add: client_env_ok_def still_env_def still_queue_env_def env_ok_def world_kept_def)

definition word_queue :: "u32 \<Rightarrow> bytes \<Rightarrow> svm_queue" where
  "word_queue n bs =
     \<lparr>q_head = 0, q_tail = n, q_cursize = n, q_maxsize = 3, q_elsize = 8, q_consumer_pid = 1,
      q_producer_evtfd = - 1, q_consumer_evtfd = - 1, q_data = bs @ replicate (24 - length bs) 0\<rparr>"

lemma word_queue_inv: "queue_inv (word_queue 0 [])"
  by (simp add: word_queue_def queue_inv_def capacity_def element_size_def)

definition still_link :: "(usize \<times> (usize \<rightharpoonup> usize), nat) link" where
  "still_link =
     \<lparr>ln_heap = ((145, [64 \<mapsto> 80]), store (\<lambda>_. 0) 72 (word_image 8192)), ln_queues = (\<lambda>_. word_queue 0 []), ln_world = 0\<rparr>"

definition still_client :: client where
  "still_client =
     \<lparr>cl_region = \<lparr>rg_base = 64, rg_size = 4032\<rparr>, cl_header = 64, cl_input_queue = 8320, cl_client_index = Some 7,
      cl_message_ids = Map.empty, cl_context_counter = 0, cl_handle_keepalives = True\<rparr>"

lemma still_good: "bump_good 64 4096 (fst (ln_heap still_link))"
  by (auto simp: still_link_def bump_good_def blocks_ok_def split: if_splits)

lemma still_client_ok: "client_ok still_client 64 4096 (snd (fst (ln_heap still_link)))"
  by (auto simp: client_ok_def still_client_def still_link_def usize_bound_def shmem_header_bytes_def)

lemma send_message_delivers_witness:
  "\<exists>res l'. send_message still_env still_client (Tuple [IntV (U16 258), Bool True]) still_link = Some (res, l') \<and>
    (if res = Inr ()
     then \<exists>q1 address b. keeps (word_queue 0 []) q1 \<and>
       contents (ln_queues l' 8192) = contents q1 @ [to_ne_bytes 8 (address :: u64)] \<and>
       msg_from_address (cl_region still_client) (ln_memory l') (unat address) = Inr b \<and>
       msg_decode (TTuple [TInt TyU16, TBool]) id b (ln_memory l') = Inr (Tuple [IntV (U16 258), Bool True])
     else snd (fst (ln_heap l')) = snd (fst (ln_heap still_link)))"
proof -
  have q: "8192 = input_queue_of still_client (ln_memory still_link)" "queue_inv (ln_queues still_link 8192)"
      "element_size (ln_queues still_link 8192) = 8"
    using word_queue_inv
    by (simp_all add: still_client_def still_link_def shmem_header_at_def usize_bound_def element_size_def word_queue_def)
  have n: "serialized_len (Tuple [IntV (U16 258), Bool True]) = Inr 3"
    by (simp add: serialized_len_Inr usize_bound_def)
  have queue: "ln_queues still_link 8192 = word_queue 0 []" by (simp add: still_link_def)
  have ty: "has_ty (TTuple [TInt TyU16, TBool]) (Tuple [IntV (U16 258), Bool True])"
      "round_trips (TTuple [TInt TyU16, TBool]) False" "(3 :: nat) < 2 ^ 32" by simp_all
  from send_message_delivers [OF still_env_ok still_good still_client_ok q ty(1,2) n ty(3), unfolded queue]
  show ?thesis by metis
qed

section \<open>Sending through the message contract\<close>

lemma msg_decode_id: "msg_decode t id b m = Inr v \<Longrightarrow> msg_decode t of_sval b m = Inr (of_sval v)"
  by (auto simp: msg_decode_def rbind_def split: sum.splits prod.splits if_splits)

text \<open>A message type that keeps its contract reaches the server as the value it was.\<close>

context api_message
begin

lemma send_typed:
  assumes env: "client_env_ok env good live lo hi" "good (fst (ln_heap l))" "client_ok c lo hi (live (fst (ln_heap l)))"
    and q: "a = input_queue_of c (ln_memory l)" "queue_inv (ln_queues l a)" "element_size (ln_queues l a) = 8"
    and m: "ok m" "length (wire (to_sval m) False) < 2 ^ 32"
  shows "\<exists>res l'. send_message env c (to_sval m) l = Some (res, l') \<and>
    (if res = Inr ()
     then \<exists>q1 address b. keeps (ln_queues l a) q1 \<and>
       contents (ln_queues l' a) = contents q1 @ [to_ne_bytes 8 (address :: u64)] \<and>
       msg_from_address (cl_region c) (ln_memory l') (unat address) = Inr b \<and>
       msg_decode schema of_sval b (ln_memory l') = Inr m
     else live (fst (ln_heap l')) = live (fst (ln_heap l)))"
proof -
  have n: "serialized_len (to_sval m) = Inr (length (wire (to_sval m) False))"
    using m has_ty_encodable [OF to_sval_typed [OF m(1)]] by (simp add: serialized_len_Inr usize_bound_def)
  obtain res l' where sent: "send_message env c (to_sval m) l = Some (res, l')"
    and post: "if res = Inr ()
     then \<exists>q1 address b. keeps (ln_queues l a) q1 \<and>
       contents (ln_queues l' a) = contents q1 @ [to_ne_bytes 8 (address :: u64)] \<and>
       msg_from_address (cl_region c) (ln_memory l') (unat address) = Inr b \<and>
       msg_decode schema id b (ln_memory l') = Inr (to_sval m)
     else live (fst (ln_heap l')) = live (fst (ln_heap l))"
    using send_message_run [OF env q to_sval_typed [OF m(1)] schema_round_trips n m(2)] by blast
  have "msg_decode schema of_sval b (ln_memory l') = Inr m" if "msg_decode schema id b (ln_memory l') = Inr (to_sval m)" for b
    using msg_decode_id [OF that, of of_sval] by (simp add: of_to)
  with post show ?thesis
    by (intro exI [of _ res] exI [of _ l'] conjI sent) (cases "res = Inr ()"; simp; blast)
qed

end

text \<open>
  Answering a keepalive: when the client reports that it answered, the server's queue ends with the address of
  a message that decodes to a keepalive reply with the id of that type, the client index of the request as its
  context, and return value zero. Otherwise nothing stays allocated.
\<close>

theorem keepalive_answered:
  assumes env: "client_env_ok env good live lo hi" "good (fst (ln_heap l))" "client_ok c lo hi (live (fst (ln_heap l)))"
    and q: "a = input_queue_of c (ln_memory l)" "queue_inv (ln_queues l a)" "element_size (ln_queues l a) = 8"
    and i: "client_message_id c (name_crc_const memclnt_keepalive_reply_api) = Some i"
  shows "\<exists>res l'. keepalive_reply env c request l = Some (res, l') \<and>
    (if res = Inr ()
     then \<exists>q1 address b. keeps (ln_queues l a) q1 \<and>
       contents (ln_queues l' a) = contents q1 @ [to_ne_bytes 8 (address :: u64)] \<and>
       msg_from_address (cl_region c) (ln_memory l') (unat address) = Inr b \<and>
       msg_decode memclnt_keepalive_reply_ty memclnt_keepalive_reply_of b (ln_memory l') =
         Inr \<lparr>mkr_id = i, mkr_context = mk_client_index request, mkr_retval = 0\<rparr>
     else live (fst (ln_heap l')) = live (fst (ln_heap l)))"
proof -
  let ?answer = "\<lparr>mkr_id = i, mkr_context = mk_client_index request, mkr_retval = 0\<rparr>"
  have "keepalive_reply env c request l = send_message env c (memclnt_keepalive_reply_sval ?answer) l"
    using i by (simp add: keepalive_reply_def bindc_def lift_res_def)
  moreover have "length (wire (memclnt_keepalive_reply_sval ?answer) False) < 2 ^ 32"
    by (simp add: message_sizes(6))
  ultimately show ?thesis
    using memclnt_keepalive_reply.send_typed [OF env q TrueI, of ?answer] by simp
qed

definition alive_client :: client where
  "alive_client = still_client\<lparr>cl_message_ids := (\<lambda>_. Some 9)\<rparr>"

lemma keepalive_answered_witness:
  "\<exists>res l'. keepalive_reply still_env alive_client \<lparr>mk_id = 8, mk_client_index = 7, mk_context = 0\<rparr> still_link = Some (res, l') \<and>
    (if res = Inr ()
     then \<exists>q1 address b. keeps (word_queue 0 []) q1 \<and>
       contents (ln_queues l' 8192) = contents q1 @ [to_ne_bytes 8 (address :: u64)] \<and>
       msg_from_address (cl_region alive_client) (ln_memory l') (unat address) = Inr b \<and>
       msg_decode memclnt_keepalive_reply_ty memclnt_keepalive_reply_of b (ln_memory l') =
         Inr \<lparr>mkr_id = 9, mkr_context = 7, mkr_retval = 0\<rparr>
     else snd (fst (ln_heap l')) = snd (fst (ln_heap still_link)))"
proof -
  have c: "client_ok alive_client 64 4096 (snd (fst (ln_heap still_link)))"
    using still_client_ok by (simp add: client_ok_def alive_client_def)
  have q: "8192 = input_queue_of alive_client (ln_memory still_link)" "queue_inv (ln_queues still_link 8192)"
      "element_size (ln_queues still_link 8192) = 8"
    using word_queue_inv
    by (simp_all add: alive_client_def still_client_def still_link_def shmem_header_at_def usize_bound_def element_size_def word_queue_def)
  have i: "client_message_id alive_client (name_crc_const memclnt_keepalive_reply_api) = Some 9"
    by (simp add: alive_client_def client_message_id_def)
  have queue: "ln_queues still_link 8192 = word_queue 0 []" by (simp add: still_link_def)
  have index: "mk_client_index \<lparr>mk_id = 8, mk_client_index = 7, mk_context = 0\<rparr> = 7" by simp
  from keepalive_answered [OF still_env_ok still_good c q i, of "\<lparr>mk_id = 8, mk_client_index = 7, mk_context = 0\<rparr>",
      unfolded queue index]
  show ?thesis .
qed

end
