(* ===== verification/Message_Identities.thy ===== *)
theory Message_Identities
  imports Messages
begin

text \<open>
  The \<^verbatim>\<open>CRC\<close> and \<^verbatim>\<open>NAME_CRC\<close> constants of the messages, evaluated from their declarations: the
  names under which the client looks a message up in the server's table.
\<close>

lemmas crc_text_simps = declared_simps render_block_def render_field_def quoted_def decimal.simps digit_char_def

text \<open>The CRC of each declaration, evaluated on its canonical text.\<close>

lemma memclnt_create_v2_crc: "api_crc memclnt_create_v2_api = Inr 0xc4bd4882"
  by (simp add: api_crc_def crc_of_text crc_eval memclnt_create_v2_api_def crc_text_simps)

lemma memclnt_create_v2_reply_crc: "api_crc memclnt_create_v2_reply_api = Inr 0x42ec4560"
  by (simp add: api_crc_def crc_of_text crc_eval memclnt_create_v2_reply_api_def crc_text_simps)

lemma memclnt_delete_crc: "api_crc memclnt_delete_api = Inr 0x7e1c04e3"
  by (simp add: api_crc_def crc_of_text crc_eval memclnt_delete_api_def crc_text_simps)

lemma memclnt_delete_reply_crc: "api_crc memclnt_delete_reply_api = Inr 0x3d3b6312"
  by (simp add: api_crc_def crc_of_text crc_eval memclnt_delete_reply_api_def crc_text_simps)

lemma memclnt_keepalive_crc: "api_crc memclnt_keepalive_api = Inr 0x51077d14"
  by (simp add: api_crc_def crc_of_text crc_eval memclnt_keepalive_api_def crc_text_simps)

lemma memclnt_keepalive_reply_crc: "api_crc memclnt_keepalive_reply_api = Inr 0xe8d4e804"
  by (simp add: api_crc_def crc_of_text crc_eval memclnt_keepalive_reply_api_def crc_text_simps)

lemma control_ping_crc: "api_crc control_ping_api = Inr 0x51077d14"
  by (simp add: api_crc_def crc_of_text crc_eval control_ping_api_def crc_text_simps)

lemma control_ping_reply_crc: "api_crc control_ping_reply_api = Inr 0xf6b0b8ca"
  by (simp add: api_crc_def crc_of_text crc_eval control_ping_reply_api_def crc_text_simps)

lemma show_version_crc: "api_crc show_version_api = Inr 0x51077d14"
  by (simp add: api_crc_def crc_of_text crc_eval show_version_api_def crc_text_simps)

lemma show_version_reply_crc: "api_crc show_version_reply_api = Inr 0xc919bde1"
  by (simp add: api_crc_def crc_of_text crc_eval show_version_reply_api_def crc_text_simps)

lemma app_namespace_add_del_crc: "api_crc app_namespace_add_del_api = Inr 0x42c1d824"
  by (simp add: api_crc_def crc_of_text crc_eval app_namespace_add_del_api_def crc_text_simps)

lemma app_namespace_add_del_reply_crc: "api_crc app_namespace_add_del_reply_api = Inr 0x85137120"
  by (simp add: api_crc_def crc_of_text crc_eval app_namespace_add_del_reply_api_def crc_text_simps)

lemmas message_crcs = memclnt_create_v2_crc
  memclnt_create_v2_reply_crc
  memclnt_delete_crc
  memclnt_delete_reply_crc
  memclnt_keepalive_crc
  memclnt_keepalive_reply_crc
  control_ping_crc
  control_ping_reply_crc
  show_version_crc
  show_version_reply_crc
  app_namespace_add_del_crc
  app_namespace_add_del_reply_crc

lemmas message_api_defs = memclnt_create_v2_api_def
  memclnt_create_v2_reply_api_def
  memclnt_delete_api_def
  memclnt_delete_reply_api_def
  memclnt_keepalive_api_def
  memclnt_keepalive_reply_api_def
  control_ping_api_def
  control_ping_reply_api_def
  show_version_api_def
  show_version_reply_api_def
  app_namespace_add_del_api_def
  app_namespace_add_del_reply_api_def

lemma first_eight: "[0..<8] = [0, 1, 2, 3, 4, 5, 6, 7]"
  by (simp add: upt_rec)

section \<open>Properties of the messages\<close>

text \<open>
  C29. The identities the server is asked for, one per message: each declaration passes the
  compile-time checks and its CRC prints as follows.
\<close>

theorem message_identities:
  shows "(api_name_crc memclnt_create_v2_api = Inr ''memclnt_create_v2_c4bd4882'') \<and>
    (api_name_crc memclnt_create_v2_reply_api = Inr ''memclnt_create_v2_reply_42ec4560'') \<and>
    (api_name_crc memclnt_delete_api = Inr ''memclnt_delete_7e1c04e3'') \<and>
    (api_name_crc memclnt_delete_reply_api = Inr ''memclnt_delete_reply_3d3b6312'') \<and>
    (api_name_crc memclnt_keepalive_api = Inr ''memclnt_keepalive_51077d14'') \<and>
    (api_name_crc memclnt_keepalive_reply_api = Inr ''memclnt_keepalive_reply_e8d4e804'') \<and>
    (api_name_crc control_ping_api = Inr ''control_ping_51077d14'') \<and>
    (api_name_crc control_ping_reply_api = Inr ''control_ping_reply_f6b0b8ca'') \<and>
    (api_name_crc show_version_api = Inr ''show_version_51077d14'') \<and>
    (api_name_crc show_version_reply_api = Inr ''show_version_reply_c919bde1'') \<and>
    (api_name_crc app_namespace_add_del_api = Inr ''app_namespace_add_del_v4_42c1d824'') \<and>
    (api_name_crc app_namespace_add_del_reply_api = Inr ''app_namespace_add_del_v4_reply_85137120'')"
  by (simp_all add: api_name_crc_def message_crcs name_crc_def hex_digits_def first_eight)
    (simp_all add: message_api_defs)

end
