(* ===== verification/Api_Client_Calls.thy ===== *)
theory Api_Client_Calls
  imports Api_Client_Send Message_Identities
begin

text \<open>
  Requests and replies: the contexts a client uses, when \<^verbatim>\<open>receive\<close> returns and what it loses, what
  \<^verbatim>\<open>invoke\<close> gives for a reply, and the client after \<^verbatim>\<open>disconnect\<close> and \<^verbatim>\<open>connect\<close>.
\<close>

section \<open>Contexts\<close>

lemma low_31_bits: "unat (c :: u32) < 2 ^ 31 \<Longrightarrow> unat ((c + 1) AND 0x7FFFFFFF) = (unat c + 1) mod 2 ^ 31"
proof -
  assume c: "unat c < 2 ^ 31"
  have "(c + 1) AND 0x7FFFFFFF = take_bit 31 (c + 1)"
    by (simp add: take_bit_eq_mask mask_eq_exp_minus_1)
  then have "unat ((c + 1) AND 0x7FFFFFFF) = unat (c + 1) mod 2 ^ 31"
    by (simp only: unsigned_take_bit_eq) (simp add: take_bit_eq_mod)
  moreover have "unat (c + 1) = unat c + 1"
    using c by (simp add: unat_add_lem [THEN iffD1])
  ultimately show ?thesis by simp
qed

lemma next_context_step:
  assumes "unat c < 2 ^ 31"
  shows "unat (fst (next_context c)) = unat c mod (2 ^ 31 - 1) + 1 \<and>
    snd (next_context c) = fst (next_context c) OR 0x80000000"
proof (cases "unat c = 2 ^ 31 - 1")
  case True
  then have "(c + 1) AND 0x7FFFFFFF = 0"
    using low_31_bits [OF assms] by (simp add: unat_eq_0)
  then show ?thesis
    using True by (simp add: next_context.simps [of c] next_context.simps [of 0])
next
  case False
  then have "unat ((c + 1) AND 0x7FFFFFFF) = unat c + 1" and "unat c < 2 ^ 31 - 1"
    using low_31_bits [OF assms] assms by simp_all
  moreover from this(1) have "(c + 1) AND 0x7FFFFFFF \<noteq> 0" by (metis Suc_eq_plus1 nat.distinct(1) unat_0)
  ultimately show ?thesis
    by (simp add: next_context.simps [of c] Let_def)
qed

lemma high_bit: "unat (c :: u32) < 2 ^ 31 \<Longrightarrow> unat (c OR 0x80000000) = 2 ^ 31 + unat c"
proof -
  assume c: "unat c < 2 ^ 31"
  then have "unat (take_bit 31 c) = unat c"
    by (simp only: unsigned_take_bit_eq) (simp add: take_bit_eq_mod)
  then have "take_bit 31 c = c" by (rule unsigned_word_eqI)
  then have "\<not> bit c 31" by (metis bit_take_bit_iff less_irrefl)
  then have "bit (c AND push_bit 31 1) n \<longleftrightarrow> bit (0 :: u32) n" for n
    unfolding bit_and_iff bit_push_bit_iff bit_1_iff by (cases "n = 31") auto
  then have "c AND push_bit 31 1 = 0" by (intro bit_word_eqI) blast
  then have "c OR 0x80000000 = c + 0x80000000"
    by (simp add: disjunctive_add_eq_or)
  then show ?thesis
    using c by (simp add: unat_word_ariths)
qed

definition next_counter :: "u32 \<Rightarrow> u32" where
  "next_counter c = fst (next_context c)"

lemma nth_counter: "unat ((next_counter ^^ k) 0) = (if k = 0 then 0 else (k - 1) mod (2 ^ 31 - 1) + 1)"
proof (induction k)
  case (Suc k)
  let ?c = "(next_counter ^^ k) 0"
  have "unat ?c < 2 ^ 31" using Suc by (simp split: if_splits)
  then have "unat (next_counter ?c) = unat ?c mod (2 ^ 31 - 1) + 1"
    using next_context_step by (simp add: next_counter_def)
  then show ?case using Suc by (cases k) (simp_all add: mod_simps)
qed simp

text \<open>
  C36. The contexts of a client's requests, in the order of the calls: request \<open>k\<close> has the high bit set and counts
  from 1 in the low bits, skipping zero. No two among \<open>2^31 - 1\<close> successive requests share a context.
\<close>

theorem request_contexts:
  "unat (snd (next_context ((next_counter ^^ k) 0))) = 2 ^ 31 + k mod (2 ^ 31 - 1) + 1 \<and>
   (snd (next_context ((next_counter ^^ i) 0)) = snd (next_context ((next_counter ^^ j) 0)) \<longleftrightarrow>
    i mod (2 ^ 31 - 1) = j mod (2 ^ 31 - 1))"
proof -
  have context_of: "unat (snd (next_context ((next_counter ^^ k) 0))) = 2 ^ 31 + (k mod (2 ^ 31 - 1) + 1)" for k
  proof -
    let ?c = "(next_counter ^^ k) 0"
    have "unat ?c < 2 ^ 31" by (simp add: nth_counter)
    then have "snd (next_context ?c) = next_counter ?c OR 0x80000000"
      using next_context_step by (simp add: next_counter_def)
    moreover have "unat (next_counter ?c) = k mod (2 ^ 31 - 1) + 1"
      using nth_counter [of "Suc k"] by simp
    ultimately show ?thesis
      using high_bit [of "next_counter ?c"] by simp
  qed
  have "snd (next_context ((next_counter ^^ i) 0)) = snd (next_context ((next_counter ^^ j) 0)) \<longleftrightarrow>
      unat (snd (next_context ((next_counter ^^ i) 0))) = unat (snd (next_context ((next_counter ^^ j) 0)))"
    by (simp add: word_unat_eq_iff)
  then show ?thesis by (simp only: context_of) simp
qed

section \<open>Receiving\<close>

lemma try_lock_returns: "try_lock env st = (Inr lk, st') \<Longrightarrow> lk = \<lparr>lk_guard = True, lk_wait = Nowait\<rparr>"
  by (auto simp: try_lock_def split: prod.splits sum.splits)

text \<open>Taking without waiting: the mutex is tried once, and an empty queue is reported at once.\<close>

lemma queue_sub_nowait:
  "queue_sub env len Nowait st =
     (case validate_element_length (element_size (fst st)) len of
        Inl e \<Rightarrow> Some ((Inl e, st), None)
      | Inr _ \<Rightarrow>
          (case try_lock env st of
             (Inl e, st') \<Rightarrow> Some ((Inl e, st'), None)
           | (Inr lk, st') \<Rightarrow>
               Some (map_prod (\<lambda>(res, st''). (res, mutex_unlock env st'')) id (sub_nolock env st'))))"
  using try_lock_returns [of env st]
  by (auto simp: queue_sub_def lock_for_def wait_until.simps await_change_def release_def sub_nolock_def Let_def
      split: sum.splits prod.splits)

lemma queue_sub_nowait_run:
  assumes ok: "env_ok env" and wk: "world_kept f env" and inv: "queue_inv q" and len: "n = element_size q"
  obtains res q' w' taken q1 where "queue_sub env n Nowait (q, w) = Some ((res, q', w'), taken)" "queue_inv q'"
    "f w' = f w" "keeps q q1"
    "case taken of None \<Rightarrow> q' = q1 \<and> (\<exists>e. res = Inl e \<and> (e = Err Empty \<longrightarrow> contents q1 = []))
     | Some x \<Rightarrow> contents q1 = x # contents q' \<and> (res = Inr () \<or> (\<exists>e. res = Inl e \<and> committed e Sub))"
proof -
  obtain lres q1 w1 where lk: "try_lock env (q, w) = (lres, q1, w1)" by (rule prod_cases3)
  note lock = try_lock_outcome [OF ok wk lk]
  have valid: "validate_element_length (element_size q) n = Inr ()"
    using len by (simp add: validate_element_length_def)
  have inv1: "queue_inv q1" using lock inv by (simp add: keeps_def)
  show ?thesis
  proof (cases lres)
    case (Inl e)
    then show ?thesis
      using lk valid lock inv1 by (intro that [of "Inl e" q1 w1 None q1]) (auto simp: queue_sub_nowait)
  next
    case (Inr g)
    obtain res q2 w2 taken where sub: "sub_nolock env (q1, w1) = ((res, q2, w2), taken)" by (metis prod.exhaust)
    have res: "taken = Some x \<Longrightarrow> res = Inr () \<or> (\<exists>e. res = Inl e \<and> committed e Sub)" for x
      using sub signal_result [of env False Sub "(snd (read_one q1), w1)"]
      by (auto simp: sub_nolock_def Let_def committed_def split: if_splits prod.splits)
    have fw: "f w2 = f w1"
      using sub signal_world [OF wk, of False Sub "(snd (read_one q1), w1)"]
      by (auto simp: sub_nolock_def Let_def split: if_splits prod.splits)
    have unlock: "mutex_unlock env (q2, w2) = (q2, snd (mutex_unlock env (q2, w2)))"
      using env_okD(4) [OF ok, of "(q2, w2)"] by (metis fst_conv prod.collapse)
    then have "queue_sub env n Nowait (q, w) = Some ((res, q2, snd (mutex_unlock env (q2, w2))), taken)"
      using lk valid sub Inr by (simp add: queue_sub_nowait)
    then show ?thesis
      using sub_nolock_takes [OF ok _ sub] inv1 res fw lock world_keptD(2) [OF wk, of "(q2, w2)"]
      by (intro that [of res q2 "snd (mutex_unlock env (q2, w2))" taken q1]) (auto split: option.splits)
  qed
qed

text \<open>A monotone clock that sleeping advances by what was asked for.\<close>

definition clock_ok :: "('s, 'w) client_env \<Rightarrow> bool" where
  "clock_ok env \<longleftrightarrow>
     (\<forall>n l. ce_now env l + n \<le> ce_now env (ce_sleep env n l)) \<and>
     (\<forall>l qs. ce_now env (l\<lparr>ln_queues := qs\<rparr>) = ce_now env l) \<and>
     (\<forall>st b. ce_now env (snd st) \<le> ce_now env (snd (snd (mutex_lock (ce_queue env) b st)))) \<and>
     (\<forall>st. ce_now env (snd st) \<le> ce_now env (snd (mutex_unlock (ce_queue env) st))) \<and>
     (\<forall>st. ce_now env (snd st) \<le> ce_now env (snd (snd (notify_all (ce_queue env) st)))) \<and>
     (\<forall>st fd bs. ce_now env (snd st) \<le> ce_now env (snd (snd (event_write (ce_queue env) fd bs st))))"

lemma clock_okD:
  assumes "clock_ok env"
  shows "ce_now env l + n \<le> ce_now env (ce_sleep env n l)"
    and "ce_now env (l\<lparr>ln_queues := qs\<rparr>) = ce_now env l"
    and "mutex_lock (ce_queue env) b st = (lo, q, w) \<Longrightarrow> ce_now env (snd st) \<le> ce_now env w"
    and "ce_now env (snd st) \<le> ce_now env (snd (mutex_unlock (ce_queue env) st))"
    and "notify_all (ce_queue env) st = (err, q, w) \<Longrightarrow> ce_now env (snd st) \<le> ce_now env w"
    and "event_write (ce_queue env) fd bs st = (wn, q, w) \<Longrightarrow> ce_now env (snd st) \<le> ce_now env w"
  using assms unfolding clock_ok_def by (metis snd_conv)+

lemma sub_nolock_clock:
  assumes "clock_ok env" "sub_nolock (ce_queue env) st = ((res, q, w), taken)"
  shows "ce_now env (snd st) \<le> ce_now env w"
  using assms(2) clock_okD(5,6) [OF assms(1)]
  by (fastforce simp: sub_nolock_def signal_def Let_def split: if_splits prod.splits option.splits)

lemma try_lock_clock:
  assumes "clock_ok env" "try_lock (ce_queue env) st = (res, q, w)"
  shows "ce_now env (snd st) \<le> ce_now env w"
proof -
  obtain lo q1 w1 where lk: "mutex_lock (ce_queue env) True st = (lo, q1, w1)" by (rule prod_cases3)
  note t = clock_okD(3) [OF assms(1) lk] clock_okD(4) [OF assms(1), of "(q1, w1)"]
  show ?thesis
    using assms(2) lk t le_trans [OF t(1)]
    by (auto simp: try_lock_def acquire_def split: lock_outcome.splits option.splits prod.splits)
qed

lemma queue_sub_at_returns:
  assumes "clock_ok env"
  obtains res taken l' where "queue_sub_at env a l = Some (res, taken, l')" "ce_now env l \<le> ce_now env l'"
proof -
  obtain lres q1 w1 where lk: "try_lock (ce_queue env) (ln_queues l a, l) = (lres, q1, w1)" by (rule prod_cases3)
  obtain res q2 w2 taken where sub: "sub_nolock (ce_queue env) (q1, w1) = ((res, q2, w2), taken)" by (metis prod.exhaust)
  note clock = clock_okD(2) [OF assms] try_lock_clock [OF assms lk] sub_nolock_clock [OF assms sub]
    clock_okD(4) [OF assms, of "(q2, w2)"]
  obtain q3 w3 where unlock: "mutex_unlock (ce_queue env) (q2, w2) = (q3, w3)" by fastforce
  show ?thesis
    using lk sub clock unlock that
    by (cases lres; cases "validate_element_length (element_size (ln_queues l a)) 8")
      (fastforce simp: queue_sub_at_def queue_sub_nowait intro: le_trans)+
qed

text \<open>A client that answers no keepalive: the option is off, or the server has not published that message.\<close>

definition ignores_keepalives :: "client \<Rightarrow> bool" where
  "ignores_keepalives c \<longleftrightarrow> \<not> cl_handle_keepalives c \<or> client_message_id c (name_crc_const memclnt_keepalive_api) = None"

lemma accept_message_kept:
  assumes "ignores_keepalives c"
  shows "accept_message env c address l =
    Some (rbind (map_err (of_fault ClientMemory)
        (msg_from_address (cl_region c) (ln_memory l) (unat (from_ne_bytes address :: u64)))) (\<lambda>message.
      rbind (message_id message (ln_memory l)) (\<lambda>_. Inr (Some message))), l)"
  using assms
  by (auto simp: accept_message_def bindc_def ret_def ignores_keepalives_def split: sum.splits)

lemma receive_returns:
  assumes clock: "clock_ok env" and quiet: "ignores_keepalives c"
  shows "\<exists>res l'. receive env c deadline l = Some (res, l') \<and> (res = Inr None \<longrightarrow> deadline \<le> ce_now env l') \<and>
    (\<forall>b. res = Inr (Some b) \<longrightarrow> (\<exists>i. message_id b (ln_memory l') = Inr i))"
proof (induction "deadline - ce_now env l" arbitrary: l rule: less_induct)
  case less
  obtain res taken l1 where sub: "queue_sub_at env (cl_input_queue c) l = Some (res, taken, l1)" "ce_now env l \<le> ce_now env l1"
    by (rule queue_sub_at_returns [OF clock])
  show ?case
  proof (cases "\<exists>u. res = Inr u")
    case True
    then show ?thesis
      using sub(1) by (subst receive.simps) (auto simp: accept_message_kept [OF quiet] map_err_def rbind_def split: sum.splits)
  next
    case False
    then obtain e where e: "res = Inl e" by (cases res) auto
    show ?thesis
    proof (cases "e = Err Empty \<and> ce_now env l1 < deadline")
      case True
      have later: "ce_now env l1 + receive_interval \<le> ce_now env (ce_sleep env receive_interval l1)"
        by (rule clock_okD(1) [OF clock])
      have step: "receive env c deadline l = receive env c deadline (ce_sleep env receive_interval l1)"
        using sub(1) e True by (subst receive.simps) simp
      show ?thesis
        unfolding step using sub(2) later True by (intro less diff_less_mono2) (simp_all add: receive_interval_def)
    next
      case False
      then show ?thesis
        using sub(1) e by (subst receive.simps) auto
    qed
  qed
qed

lemma send_message_returns: "\<exists>res l'. send_message env c v l = Some (res, l')"
proof -
  have add: "queue_add_at env a e l \<noteq> None" for a e l
    using try_lock_returns [of "ce_queue env" "(ln_queues l a, l)"]
    by (auto simp: queue_add_at_def queue_add_def lock_for_def add_nolock_def wait_until.simps await_change_def
        split: sum.splits prod.splits option.splits)
  have free: "free_message env b l \<noteq> None" for b l
    by (auto simp: free_message_def on_heap_def split: prod.splits)
  show ?thesis
    unfolding send_message_def bindc_def lift_res_def on_heap_def fail_def
    by (auto simp: add free split: sum.splits prod.splits option.splits)
qed

section \<open>Waiting\<close>

text \<open>The two loops of \<^verbatim>\<open>connect\<close> that poll until the deadline.\<close>

lemma attach_loop_returns:
  assumes clock: "clock_ok env"
  shows "\<exists>res l'. attach_loop env path deadline l = Some (res, l') \<and>
    (\<forall>r. res = Inr r \<longrightarrow> attach_at env path l' = Inr r) \<and>
    (\<forall>e. res = Inl (Err (ClientRegion e)) \<longrightarrow> retryable e \<longrightarrow> deadline \<le> ce_now env l')"
proof (induction "deadline - ce_now env l" arbitrary: l rule: less_induct)
  case less
  show ?case
  proof (cases "\<exists>e. attach_at env path l = Inl (Err e) \<and> retryable e \<and> ce_now env l < deadline")
    case True
    then have step: "attach_loop env path deadline l = attach_loop env path deadline (ce_sleep env receive_interval l)"
      by (subst attach_loop.simps) auto
    show ?thesis
      unfolding step using clock_okD(1) [OF clock, of l receive_interval] True
      by (intro less diff_less_mono2) (auto simp: receive_interval_def)
  next
    case False
    then show ?thesis
      by (subst attach_loop.simps) (auto split: sum.splits fault.splits)
  qed
qed

lemma header_loop_returns:
  assumes clock: "clock_ok env"
  shows "\<exists>res l'. header_loop env path deadline r l = Some (res, l') \<and>
    (case res of Inr header \<Rightarrow> user_context r (ln_memory l') = Some header
     | Inl e \<Rightarrow> e = Err (ConnectTimeout path) \<and> user_context r (ln_memory l') = None \<and> deadline \<le> ce_now env l')"
proof (induction "deadline - ce_now env l" arbitrary: l rule: less_induct)
  case less
  show ?case
  proof (cases "user_context r (ln_memory l) = None \<and> ce_now env l < deadline")
    case True
    then have step: "header_loop env path deadline r l = header_loop env path deadline r (ce_sleep env receive_interval l)"
      by (subst header_loop.simps) auto
    show ?thesis
      unfolding step using clock_okD(1) [OF clock, of l receive_interval] True
      by (intro less diff_less_mono2) (auto simp: receive_interval_def)
  next
    case False
    then show ?thesis
      by (subst header_loop.simps) (auto split: option.splits)
  qed
qed

text \<open>
  Waiting ends, and not before its time. With a clock that sleeping advances, attaching the region, waiting for
  the API header, and receiving by a client that answers no keepalive all return; a timeout, or a missing segment,
  is reported only once the deadline has passed.
\<close>

theorem waiting_ends:
  assumes "clock_ok env" "ignores_keepalives c"
  shows "(\<exists>res l'. attach_loop env path deadline l = Some (res, l') \<and>
      (\<forall>e. res = Inl (Err (ClientRegion e)) \<longrightarrow> retryable e \<longrightarrow> deadline \<le> ce_now env l')) \<and>
    (\<exists>res l'. header_loop env path deadline r l = Some (res, l') \<and>
      (case res of Inr header \<Rightarrow> user_context r (ln_memory l') = Some header
       | Inl e \<Rightarrow> e = Err (ConnectTimeout path) \<and> user_context r (ln_memory l') = None \<and> deadline \<le> ce_now env l')) \<and>
    (\<exists>res l'. receive env c deadline l = Some (res, l') \<and> (res = Inr None \<longrightarrow> deadline \<le> ce_now env l'))"
  using attach_loop_returns [OF assms(1), of path deadline l] header_loop_returns [OF assms(1), of path deadline r l]
    receive_returns [OF assms, of deadline l]
  by blast

lemma still_clock_ok: "clock_ok still_env"
  by (simp add: clock_ok_def still_env_def still_queue_env_def)

lemma still_ignores: "ignores_keepalives still_client"
  by (simp add: ignores_keepalives_def still_client_def client_message_id_def)

lemma waiting_ends_witness:
  "(\<exists>res l'. receive still_env still_client 1000000 still_link = Some (res, l')) \<and>
   (\<exists>res l'. header_loop still_env [] 1000000 \<lparr>rg_base = 64, rg_size = 4032\<rparr> still_link = Some (res, l')) \<and>
   (\<exists>res l'. attach_loop still_env [] 1000000 still_link = Some (res, l'))"
  using waiting_ends [OF still_clock_ok still_ignores, of "[]" 1000000 still_link "\<lparr>rg_base = 64, rg_size = 4032\<rparr>"] by blast

section \<open>Invoking a service\<close>

lemma take_decoded_returns:
  "\<exists>res l'. take_decoded env t of_sval b l = Some (res, l') \<and>
     (\<forall>x. res = Inr x \<longrightarrow> msg_decode t of_sval b (ln_memory l) = Inr x)"
  by (auto simp: take_decoded_def bindc_def free_message_def on_heap_def lift_res_def map_err_def Let_def
      split: prod.splits sum.splits)

lemma await_reply_returns:
  assumes "clock_ok env" "ignores_keepalives c"
  shows "\<exists>res l'. await_reply env c rp reply_id context' l = Some (res, l') \<and>
    (\<forall>answer. res = Inr answer \<longrightarrow>
      (\<exists>b l1. receive env c (ce_now env l + connect_timeout) l = Some (Inr (Some b), l1) \<and>
         message_id b (ln_memory l1) = Inr reply_id \<and> msg_decode (at_ty rp) (at_of rp) b (ln_memory l1) = Inr answer \<and>
         (at_context rp answer = None \<or> at_context rp answer = Some context')))"
proof -
  obtain res l1 where rc: "receive env c (ce_now env l + connect_timeout) l = Some (res, l1)"
      "\<forall>b. res = Inr (Some b) \<longrightarrow> (\<exists>i. message_id b (ln_memory l1) = Inr i)"
    using receive_returns [OF assms] by blast
  show ?thesis
  proof (cases "\<exists>b. res = Inr (Some b)")
    case True
    then obtain b i where b: "res = Inr (Some b)" "message_id b (ln_memory l1) = Inr i" using rc(2) by blast
    obtain dres l2 where dec: "take_decoded env (at_ty rp) (at_of rp) b l1 = Some (dres, l2)"
        "\<forall>x. dres = Inr x \<longrightarrow> msg_decode (at_ty rp) (at_of rp) b (ln_memory l1) = Inr x"
      using take_decoded_returns [of env "at_ty rp" "at_of rp" b l1] by blast
    have free: "free_message env b l1 \<noteq> None" by (simp add: free_message_def on_heap_def split: prod.splits)
    show ?thesis
      using rc(1) b dec free
      by (auto simp: await_reply_def bindc_def fail_def ret_def split: sum.splits option.splits)
  next
    case False
    then show ?thesis
      using rc(1) by (auto simp: await_reply_def bindc_def fail_def split: sum.splits option.splits)
  qed
qed

lemma invoke_run:
  assumes clock: "clock_ok env" and quiet: "ignores_keepalives c"
  shows "\<exists>res c' l'. invoke env rq rp request c l = Some (res, c', l') \<and>
    (case invoke_target c (at_decl rq) (at_decl rp) of
       Inl e \<Rightarrow> res = Inl e \<and> c' = c \<and> l' = l
     | Inr (client_index, request_id, reply_id) \<Rightarrow>
         c' = c\<lparr>cl_context_counter := fst (next_context (cl_context_counter c))\<rparr> \<and>
         (\<forall>answer. res = Inr answer \<longrightarrow>
           (\<exists>l1 b l2.
              send_message env c' (at_sval rq (at_set_request_header rq request_id client_index
                (snd (next_context (cl_context_counter c))) request)) l = Some (Inr (), l1) \<and>
              receive env c' (ce_now env l1 + connect_timeout) l1 = Some (Inr (Some b), l2) \<and>
              message_id b (ln_memory l2) = Inr reply_id \<and>
              msg_decode (at_ty rp) (at_of rp) b (ln_memory l2) = Inr answer \<and>
              (at_context rp answer = None \<or> at_context rp answer = Some (snd (next_context (cl_context_counter c)))))))"
proof (cases "invoke_target c (at_decl rq) (at_decl rp)")
  case (Inl e)
  then show ?thesis by (simp add: invoke_def)
next
  case (Inr target)
  obtain client_index request_id reply_id where target: "target = (client_index, request_id, reply_id)"
    by (rule prod_cases3)
  obtain counter context' where ctx: "next_context (cl_context_counter c) = (counter, context')" by fastforce
  define c' where "c' = c\<lparr>cl_context_counter := counter\<rparr>"
  define message where "message = at_sval rq (at_set_request_header rq request_id client_index context' request)"
  have quiet': "ignores_keepalives c'"
    using quiet by (simp add: c'_def ignores_keepalives_def client_message_id_def)
  obtain sres l1 where send: "send_message env c' message l = Some (sres, l1)" using send_message_returns by blast
  have run: "invoke env rq rp request c l = map_option (\<lambda>(res, l'). (res, c', l'))
      (bindc (send_message env c' message) (\<lambda>_. await_reply env c' rp reply_id context') l)"
    using Inr target ctx by (simp add: invoke_def c'_def message_def Let_def)
  show ?thesis
  proof (cases sres)
    case err: (Inl e)
    then show ?thesis
      using run send Inr target ctx by (simp add: bindc_def c'_def)
  next
    case (Inr u)
    obtain res l' where wait: "await_reply env c' rp reply_id context' l1 = Some (res, l')"
        "\<forall>answer. res = Inr answer \<longrightarrow>
          (\<exists>b l2. receive env c' (ce_now env l1 + connect_timeout) l1 = Some (Inr (Some b), l2) \<and>
             message_id b (ln_memory l2) = Inr reply_id \<and> msg_decode (at_ty rp) (at_of rp) b (ln_memory l2) = Inr answer \<and>
             (at_context rp answer = None \<or> at_context rp answer = Some context'))"
      using await_reply_returns [OF clock quiet', of rp reply_id context' l1] by blast
    have "invoke env rq rp request c l = Some (res, c', l')"
      using run send Inr wait(1) by (simp add: bindc_def)
    moreover have "send_message env c' message l = Some (Inr (), l1)" using send Inr by simp
    ultimately show ?thesis
      using wait(2) ctx target \<open>invoke_target c (at_decl rq) (at_decl rp) = Inr target\<close>
      by (auto simp: c'_def message_def)
  qed
qed

text \<open>
  C7. A call of \<^verbatim>\<open>invoke\<close> by a client that answers no keepalive returns. When the service or a message id is missing
  it fails before anything is sent. Otherwise the context counter has advanced, and a reply is returned only when the
  first message received has the id of the reply type, decodes to it, and carries the context of this request.
\<close>

theorem invoke_checks_reply:
  assumes clock: "clock_ok env" and quiet: "ignores_keepalives c"
  shows "\<exists>res c' l'. invoke env rq rp request c l = Some (res, c', l') \<and>
    (case invoke_target c (at_decl rq) (at_decl rp) of
       Inl e \<Rightarrow> res = Inl e \<and> c' = c \<and> l' = l
     | Inr (client_index, request_id, reply_id) \<Rightarrow>
         c' = c\<lparr>cl_context_counter := fst (next_context (cl_context_counter c))\<rparr> \<and>
         (\<forall>answer. res = Inr answer \<longrightarrow>
           (\<exists>l1 b l2.
              send_message env c' (at_sval rq (at_set_request_header rq request_id client_index
                (snd (next_context (cl_context_counter c))) request)) l = Some (Inr (), l1) \<and>
              receive env c' (ce_now env l1 + connect_timeout) l1 = Some (Inr (Some b), l2) \<and>
              message_id b (ln_memory l2) = Inr reply_id \<and>
              msg_decode (at_ty rp) (at_of rp) b (ln_memory l2) = Inr answer \<and>
              (at_context rp answer = None \<or> at_context rp answer = Some (snd (next_context (cl_context_counter c)))))))"
  by (rule invoke_run [OF assms])

text \<open>The \<^verbatim>\<open>Api\<close> instances of the control ping.\<close>

definition control_ping_type :: "control_ping api_type" where
  "control_ping_type =
     \<lparr>at_decl = control_ping_api, at_sval = control_ping_sval, at_of = control_ping_of, at_ty = control_ping_ty,
      at_set_request_header = control_ping_set_request_header, at_context = control_ping_context\<rparr>"

definition control_ping_reply_type :: "control_ping_reply api_type" where
  "control_ping_reply_type =
     \<lparr>at_decl = control_ping_reply_api, at_sval = control_ping_reply_sval, at_of = control_ping_reply_of,
      at_ty = control_ping_reply_ty, at_set_request_header = (\<lambda>_ _ _ m. m), at_context = control_ping_reply_context\<rparr>"

lemma ping_identities:
  "name_crc_const control_ping_api = ''control_ping_51077d14''"
  "name_crc_const control_ping_reply_api = ''control_ping_reply_f6b0b8ca''"
  "name_crc_const memclnt_keepalive_api = ''memclnt_keepalive_51077d14''"
  by (simp_all add: name_crc_const_def api_name_crc_def message_crcs name_crc_def hex_digits_def first_eight)
    (simp_all add: message_api_defs)

lemma ping_service:
  "api_service control_ping_api = replies_with ''control_ping'' ''control_ping_reply''"
  "api_name control_ping_reply_api = ''control_ping_reply''"
  by (simp_all add: control_ping_api_def control_ping_reply_api_def)

definition ping_client :: client where
  "ping_client = still_client
     \<lparr>cl_message_ids := [''control_ping_51077d14'' \<mapsto> 12, ''control_ping_reply_f6b0b8ca'' \<mapsto> 13]\<rparr>"

lemma ping_client_ok: "ignores_keepalives ping_client"
    "invoke_target ping_client (at_decl control_ping_type) (at_decl control_ping_reply_type) = Inr (7, 12, 13)"
proof -
  show "ignores_keepalives ping_client"
    by (simp add: ignores_keepalives_def ping_client_def client_message_id_def ping_identities)
  show "invoke_target ping_client (at_decl control_ping_type) (at_decl control_ping_reply_type) = Inr (7, 12, 13)"
    by (simp add: invoke_target_def ping_client_def client_message_id_def control_ping_type_def control_ping_reply_type_def
        ping_identities ping_service replies_with_def still_client_def)
qed

lemma ping_counter: "cl_context_counter ping_client = 0"
  by (simp add: ping_client_def still_client_def)

lemma invoke_checks_reply_witness:
  "\<exists>res c' l'. invoke still_env control_ping_type control_ping_reply_type
      \<lparr>cp_id = 0, cp_client_index = 0, cp_context = 0\<rparr> ping_client still_link = Some (res, c', l') \<and>
    unat (cl_context_counter c') = 1"
proof -
  have "unat (fst (next_context 0)) = 1" using next_context_step [of 0] by simp
  then show ?thesis
    using invoke_checks_reply [OF still_clock_ok ping_client_ok(1), of control_ping_type control_ping_reply_type
        "\<lparr>cp_id = 0, cp_client_index = 0, cp_context = 0\<rparr>" still_link]
    by (auto simp: ping_client_ok(2) ping_counter)
qed

section \<open>What receiving loses\<close>

text \<open>
  C37. Taking an address can succeed while waking the producers fails. \<^verbatim>\<open>send_message\<close> treats its own queue operation
  as done in that case; \<^verbatim>\<open>receive\<close> reports the error instead. The address has left the full queue, nobody holds it,
  and its block stays allocated: the message is lost.
\<close>

theorem receive_loses_message:
  assumes env: "env_ok (ce_queue env)" "world_kept ln_heap (ce_queue env)"
    and q: "q = ln_queues l (cl_input_queue c)" "queue_inv q" "element_size q = 8" "sint (q_consumer_evtfd q) < 0"
    and full: "q_cursize q = q_maxsize q"
    and free: "mutex_lock (ce_queue env) True (q, l) = (Standard, q, l1)"
    and failed: "fst (notify_all (ce_queue env) (snd (read_one q), l1)) = Some e"
  shows "\<exists>l'. receive env c deadline l = Some (Inl (Err (ClientQueue (SignalAfterCommit Sub e))), l') \<and>
    contents (ln_queues l' (cl_input_queue c)) = tl (contents q) \<and> contents q \<noteq> [] \<and> ln_heap l' = ln_heap l"
proof -
  obtain q2 l2 where notify: "notify_all (ce_queue env) (snd (read_one q), l1) = (Some e, q2, l2)"
    using failed by (metis prod.exhaust fst_conv)
  have q2: "q2 = snd (read_one q)" using env_okD(5) [OF env(1) notify] by simp
  obtain q3 l3 where unlock: "mutex_unlock (ce_queue env) (q2, l2) = (q3, l3)" by fastforce
  have q3: "q3 = q2" using env_okD(4) [OF env(1), of "(q2, l2)"] unlock by simp
  have nonempty: "q_cursize q \<noteq> 0"
    using full queue_invD(1) [OF q(2)] by (auto simp: capacity_def)
  have fd: "q_consumer_evtfd (snd (read_one q)) = q_consumer_evtfd q" by (simp add: read_one_def)
  have heap: "ln_heap l3 = ln_heap l"
    using world_keptD(1) [OF env(2) free] world_keptD(3) [OF env(2) notify] world_keptD(2) [OF env(2), of "(q2, l2)"] unlock
    by simp
  have sub: "sub_nolock (ce_queue env) (q, l1) = ((Inl (Err (SignalAfterCommit Sub e)), q2, l2), Some (fst (read_one q)))"
    using nonempty full q(4) fd notify
    by (cases "read_one q") (simp add: sub_nolock_def signal_def)
  have "queue_sub_at env (cl_input_queue c) l =
      Some (Inl (Err (SignalAfterCommit Sub e)), Some (fst (read_one q)), l3\<lparr>ln_queues := (ln_queues l3)(cl_input_queue c := q3)\<rparr>)"
    using free sub unlock q(3)
    by (simp add: queue_sub_at_def queue_sub_nowait try_lock_def acquire_def validate_element_length_def flip: q(1))
  moreover have "contents q = fst (read_one q) # contents q2"
    using read_one_contents [OF q(2) nonempty] q2 by simp
  ultimately show ?thesis
    using heap q3 by (subst receive.simps) (auto simp: of_fault_def)
qed

definition mute_env :: "(usize \<times> (usize \<rightharpoonup> usize), nat) client_env" where
  "mute_env = still_env\<lparr>ce_queue := still_queue_env\<lparr>notify_all := (\<lambda>st. (Some 22, st))\<rparr>\<rparr>"

definition full_link :: "(usize \<times> (usize \<rightharpoonup> usize), nat) link" where
  "full_link = still_link\<lparr>ln_queues := (\<lambda>_. word_queue 0 []\<lparr>q_cursize := 3, q_tail := 0\<rparr>)\<rparr>"

lemma receive_loses_message_witness:
  "\<exists>l'. receive mute_env still_client 1000000 full_link = Some (Inl (Err (ClientQueue (SignalAfterCommit Sub 22))), l') \<and>
    length (contents (ln_queues l' 8320)) = 2 \<and> ln_heap l' = ln_heap full_link"
proof -
  let ?q = "word_queue 0 []\<lparr>q_cursize := 3, q_tail := 0\<rparr>"
  have env: "env_ok (ce_queue mute_env)" "world_kept ln_heap (ce_queue mute_env)"
    by (simp_all add: mute_env_def still_queue_env_def env_ok_def world_kept_def)
  have q: "?q = ln_queues full_link (cl_input_queue still_client)" "queue_inv ?q" "element_size ?q = 8"
      "sint (q_consumer_evtfd ?q) < 0" "q_cursize ?q = q_maxsize ?q"
    by (simp_all add: full_link_def word_queue_def queue_inv_def capacity_def element_size_def)
  have lock: "mutex_lock (ce_queue mute_env) True (?q, full_link) = (Standard, ?q, full_link)"
      "fst (notify_all (ce_queue mute_env) (snd (read_one ?q), full_link)) = Some 22"
    by (simp_all add: mute_env_def still_queue_env_def)
  have three: "length (contents ?q) = 3" by (simp add: word_queue_def)
  have "cl_input_queue still_client = 8320" by (simp add: still_client_def)
  then show ?thesis
    using receive_loses_message [OF env q lock, of 1000000] three by (auto simp del: length_contents)
qed

text \<open>
  The queue is only tried: when another process holds its mutex for a moment, as a server does while it adds
  the reply, \<^verbatim>\<open>receive\<close> fails at once with \<^verbatim>\<open>LockBusy\<close> whatever its deadline, and the message stays queued for
  the next call.
\<close>

theorem receive_fails_when_contended:
  assumes q: "q = ln_queues l (cl_input_queue c)" "element_size q = 8"
    and held: "mutex_lock (ce_queue env) True (q, l) = (Contended, q', l1)"
  shows "receive env c deadline l =
    Some (Inl (Err (ClientQueue LockBusy)), l1\<lparr>ln_queues := (ln_queues l1)(cl_input_queue c := q')\<rparr>)"
  using assms
  by (subst receive.simps)
    (simp add: queue_sub_at_def queue_sub_nowait try_lock_def acquire_def validate_element_length_def of_fault_def flip: q(1))

definition busy_env :: "(usize \<times> (usize \<rightharpoonup> usize), nat) client_env" where
  "busy_env = still_env\<lparr>ce_queue := still_queue_env\<lparr>mutex_lock := (\<lambda>_ st. (Contended, st))\<rparr>\<rparr>"

lemma receive_fails_when_contended_witness:
  "\<exists>l'. receive busy_env still_client 1000000 full_link = Some (Inl (Err (ClientQueue LockBusy)), l')"
proof -
  let ?q = "ln_queues full_link (cl_input_queue still_client)"
  have "element_size ?q = 8" by (simp add: full_link_def word_queue_def element_size_def)
  moreover have "mutex_lock (ce_queue busy_env) True (?q, full_link) = (Contended, ?q, full_link)"
    by (simp add: busy_env_def still_queue_env_def)
  ultimately show ?thesis
    using receive_fails_when_contended [OF refl, of full_link still_client busy_env _ _ 1000000] by blast
qed

section \<open>Disconnecting and connecting\<close>

lemma release_queue_result:
  "release_queue env c l \<noteq> Some (Inl (Err e), l')"
  "release_queue env c l = Some (Inr u, l') \<Longrightarrow>
     \<exists>s. fst (ln_heap l') = free_block (ce_mspace env) (cl_input_queue c) s"
  by (auto simp: release_queue_def on_heap_def deallocate_def map_err_def of_fault_def Let_def
      split: sum.splits option.splits if_splits fault.splits)

text \<open>
  C19. \<^verbatim>\<open>disconnect\<close>, however the server behaves. When it succeeds the client has no index and no message ids, its
  queue has been given back to the heap, and every later call is refused as not connected without touching
  anything. When it reports an error the client is as connected as before.
\<close>

theorem disconnect_ends_connection:
  "case disconnect env c l of
     None \<Rightarrow> True
   | Some (Inr _, c', l') \<Rightarrow>
       (\<exists>s. fst (ln_heap l') = free_block (ce_mspace env) (cl_input_queue c) s) \<and>
       cl_client_index c' = None \<and> (\<forall>name. client_message_id c' name = None) \<and>
       disconnect env c' l2 = Some (Inl (Err NotConnected), c', l2) \<and>
       invoke env rq rp request c' l2 = Some (Inl (Err NotConnected), c', l2)
   | Some (Inl (Err _), c', l') \<Rightarrow> c' = c
   | Some (Inl (Panic _), c', l') \<Rightarrow> True"
proof (cases "disconnect env c l")
  case (Some out)
  obtain res c' l' where out: "out = (res, c', l')" by (rule prod_cases3)
  have gone: "disconnect env c' l2 = Some (Inl (Err NotConnected), c', l2) \<and>
      invoke env rq rp request c' l2 = Some (Inl (Err NotConnected), c', l2)" if "cl_client_index c' = None"
    using that by (simp add: disconnect_def invoke_def invoke_target_def)
  have result: "(\<forall>u. res = Inr u \<longrightarrow> (\<exists>s. fst (ln_heap l') = free_block (ce_mspace env) (cl_input_queue c) s) \<and>
      c' = c\<lparr>cl_client_index := None, cl_message_ids := Map.empty\<rparr>) \<and> (\<forall>e. res = Inl (Err e) \<longrightarrow> c' = c)"
    using Some out
    using release_queue_result(2) [of env c]
    by (auto simp: disconnect_def release_queue_result(1) split: sum.splits option.splits)
  show ?thesis
  proof (cases res)
    case (Inl e)
    then show ?thesis using Some out result by (simp split: fault.splits)
  next
    case (Inr u)
    with result have "\<exists>s. fst (ln_heap l') = free_block (ce_mspace env) (cl_input_queue c) s"
        "cl_client_index c' = None" "cl_message_ids c' = Map.empty" by auto
    then show ?thesis using Some out Inr gone by (simp add: client_message_id_def)
  qed
qed simp

text \<open>The client's waiting loops only sleep: the states they look at are these.\<close>

definition slept :: "('s, 'w) client_env \<Rightarrow> nat \<Rightarrow> ('s, 'w) link \<Rightarrow> ('s, 'w) link" where
  "slept env k l = (ce_sleep env receive_interval ^^ k) l"

lemma slept_simps [simp]: "slept env 0 l = l" "slept env k (ce_sleep env receive_interval l) = slept env (Suc k) l"
  by (simp_all add: slept_def funpow_swap1)

lemma slept_slept: "slept env k (slept env i l) = slept env (i + k) l"
  by (simp add: slept_def add.commute [of i k] funpow_add)

text \<open>Each loop returns from the first state that lets it, all earlier ones having been worth a retry in time.\<close>

lemma attach_loop_first:
  assumes ret: "attach_loop env path deadline l = Some (Inr r, l')"
  shows "\<exists>i. l' = slept env i l \<and> attach_at env path l' = Inr r \<and>
    (\<forall>k<i. \<exists>e. attach_at env path (slept env k l) = Inl (Err e) \<and> retryable e \<and> ce_now env (slept env k l) < deadline)"
proof -
  let ?first = "\<lambda>env path deadline l y r. \<exists>i. snd y = slept env i l \<and> attach_at env path (snd y) = Inr r \<and>
    (\<forall>k<i. \<exists>e. attach_at env path (slept env k l) = Inl (Err e) \<and> retryable e \<and> ce_now env (slept env k l) < deadline)"
  have "?first env path deadline l (Inr r :: client_error fault + svm_region, l') r"
  proof (rule attach_loop.raw_induct
      [where P = "\<lambda>env path deadline l y. \<forall>r. fst y = Inr r \<longrightarrow> ?first env path deadline l y r",
        OF _ ret, rule_format, of r])
    fix f env path deadline l and y :: "(client_error fault + svm_region) \<times> ('a, 'b) link" and r
    assume IH: "\<And>env path deadline l y r. f env path deadline l = Some y \<Longrightarrow> fst y = Inr r \<Longrightarrow> ?first env path deadline l y r"
      and eq: "(case attach_at env path l of
          Inr r \<Rightarrow> Some (Inr r, l)
        | Inl (Panic msg) \<Rightarrow> Some (Inl (Panic msg), l)
        | Inl (Err e) \<Rightarrow>
            if retryable e \<and> ce_now env l < deadline then f env path deadline (ce_sleep env receive_interval l)
            else Some (Inl (Err (ClientRegion e)), l)) = Some y" and y: "fst y = Inr r"
    show "?first env path deadline l y r"
    proof (cases "attach_at env path l")
      case (Inr r')
      with eq y show ?thesis by (intro exI [of _ 0]) auto
    next
      case (Inl fe)
      then obtain e where e: "attach_at env path l = Inl (Err e)" "retryable e" "ce_now env l < deadline"
        "f env path deadline (ce_sleep env receive_interval l) = Some y"
        using eq y by (auto split: fault.splits if_splits)
      from IH [OF e(4) y] obtain i where "snd y = slept env (Suc i) l" "attach_at env path (snd y) = Inr r"
        "\<forall>k<i. \<exists>e. attach_at env path (slept env (Suc k) l) = Inl (Err e) \<and> retryable e \<and> ce_now env (slept env (Suc k) l) < deadline"
        by auto
      then show ?thesis
        using e by (intro exI [of _ "Suc i"]) (auto simp: All_less_Suc2)
    qed
  qed simp
  then show ?thesis by simp
qed

lemma header_loop_first:
  assumes ret: "header_loop env path deadline r l = Some (Inr header, l')"
  shows "\<exists>j. l' = slept env j l \<and> user_context r (ln_memory l') = Some header \<and>
    (\<forall>k<j. user_context r (ln_memory (slept env k l)) = None \<and> ce_now env (slept env k l) < deadline)"
proof -
  let ?first = "\<lambda>env deadline r l y h. \<exists>j. snd y = slept env j l \<and> user_context r (ln_memory (snd y)) = Some h \<and>
    (\<forall>k<j. user_context r (ln_memory (slept env k l)) = None \<and> ce_now env (slept env k l) < deadline)"
  have "?first env deadline r l (Inr header :: client_error fault + usize, l') header"
  proof (rule header_loop.raw_induct
      [where P = "\<lambda>env path deadline r l y. \<forall>h. fst y = Inr h \<longrightarrow> ?first env deadline r l y h",
        OF _ ret, rule_format, of header])
    fix f env path deadline r l and y :: "(client_error fault + usize) \<times> ('a, 'b) link" and h
    assume IH: "\<And>env path deadline r l y h. f env path deadline r l = Some y \<Longrightarrow> fst y = Inr h \<Longrightarrow> ?first env deadline r l y h"
      and eq: "(case user_context r (ln_memory l) of
          Some header \<Rightarrow> Some (Inr header, l)
        | None \<Rightarrow>
            if deadline \<le> ce_now env l then Some (Inl (Err (ConnectTimeout path)), l)
            else f env path deadline r (ce_sleep env receive_interval l)) = Some y" and y: "fst y = Inr h"
    show "?first env deadline r l y h"
    proof (cases "user_context r (ln_memory l)")
      case (Some h')
      with eq y show ?thesis by (intro exI [of _ 0]) auto
    next
      case None
      then have late: "ce_now env l < deadline" "f env path deadline r (ce_sleep env receive_interval l) = Some y"
        using eq y by (auto split: if_splits)
      from IH [OF late(2) y] obtain j where "snd y = slept env (Suc j) l" "user_context r (ln_memory (snd y)) = Some h"
        "\<forall>k<j. user_context r (ln_memory (slept env (Suc k) l)) = None \<and> ce_now env (slept env (Suc k) l) < deadline"
        by auto
      then show ?thesis
        using None late by (intro exI [of _ "Suc j"]) (auto simp: All_less_Suc2)
    qed
  qed simp
  then show ?thesis by simp
qed

text \<open>A server that can be talked to: a current API header in the region, and the server's queue where it says.\<close>

definition server_ready :: "svm_region \<Rightarrow> ('s, 'w) link \<Rightarrow> usize \<Rightarrow> bool" where
  "server_ready r l header \<longleftrightarrow>
     (let shared = shmem_header_at (ln_memory l) header; a = sh_input_queue shared; q = ln_queues l a in
      header mod 8 = 0 \<and> rg_base r \<le> header \<and> header + 80 \<le> rg_base r + rg_size r \<and> sh_version shared = 2 \<and>
      a mod 64 = 0 \<and> rg_base r \<le> a \<and> a + 120 + capacity q * 8 \<le> rg_base r + rg_size r \<and>
      0 < capacity q \<and> element_size q = 8 \<and> unat (q_head q) < capacity q \<and> unat (q_tail q) < capacity q \<and>
      unat (q_cursize q) \<le> capacity q)"

lemma validate_shmem_ready:
  assumes "validate_shmem r (ln_memory l) (ln_queues l) header = Inr shared"
  shows "server_ready r l header"
  using assms
  by (auto simp: validate_shmem_def server_ready_def Let_def contains_range_iff shmem_header_bytes_def shmem_version_def
      queue_header_size_def queue_attach_iff rbind_Inr split: if_splits)

text \<open>The answer that ends the wait: taken from the client's queue, of the right type, decoded and freed.\<close>

lemma await_create_Inr:
  assumes ret: "await_create env c path deadline l = Some (Inr answer, l')"
  shows "\<exists>l1 message l2. receive env c deadline l1 = Some (Inr (Some message), l2) \<and>
    message_id message (ln_memory l2) = Inr memclnt_create_v2_reply_id \<and>
    take_decoded env memclnt_create_v2_reply_ty memclnt_create_v2_reply_of message l2 = Some (Inr answer, l')"
proof -
  let ?got = "\<lambda>env c deadline y a. \<exists>l1 message l2. receive env c deadline l1 = Some (Inr (Some message), l2) \<and>
    message_id message (ln_memory l2) = Inr memclnt_create_v2_reply_id \<and>
    take_decoded env memclnt_create_v2_reply_ty memclnt_create_v2_reply_of message l2 = Some y"
  have "?got env c deadline (Inr answer, l') answer"
  proof (rule await_create.raw_induct
      [where P = "\<lambda>env c path deadline l y. \<forall>a. fst y = Inr a \<longrightarrow> ?got env c deadline y a",
        OF _ ret, rule_format, of answer])
    fix f env c path deadline l and y :: "(client_error fault + memclnt_create_v2_reply) \<times> ('a, 'b) link" and a
    assume IH: "\<And>env c path deadline l y a. f env c path deadline l = Some y \<Longrightarrow> fst y = Inr a \<Longrightarrow> ?got env c deadline y a"
      and eq: "(case receive env c deadline l of
        None \<Rightarrow> None
      | Some (Inl e, l') \<Rightarrow> Some (Inl e, l')
      | Some (Inr None, l') \<Rightarrow> Some (Inl (Err (ConnectTimeout path)), l')
      | Some (Inr (Some message), l') \<Rightarrow>
          (case message_id message (ln_memory l') of
             Inl e \<Rightarrow> Some (Inl e, l')
           | Inr i \<Rightarrow>
               if i \<noteq> memclnt_create_v2_reply_id then
                 (case free_message env message l' of
                    None \<Rightarrow> None
                  | Some (Inl e, l'') \<Rightarrow> Some (Inl e, l'')
                  | Some (Inr _, l'') \<Rightarrow> f env c path deadline l'')
               else take_decoded env memclnt_create_v2_reply_ty memclnt_create_v2_reply_of message l')) = Some y"
      and y: "fst y = Inr a"
    from eq y obtain message l2 i where got: "receive env c deadline l = Some (Inr (Some message), l2)"
      "message_id message (ln_memory l2) = Inr i"
      by (auto split: option.splits sum.splits)
    show "?got env c deadline y a"
    proof (cases "i = memclnt_create_v2_reply_id")
      case True
      with eq got have "take_decoded env memclnt_create_v2_reply_ty memclnt_create_v2_reply_of message l2 = Some y" by simp
      with got True show ?thesis by blast
    next
      case False
      with eq got y obtain l3 where "f env c path deadline l3 = Some y"
        by (auto split: option.splits sum.splits)
      from IH [OF this y] show ?thesis .
    qed
  qed simp
  then show ?thesis .
qed

lemma bindc_Inr:
  "bindc m f l = Some (Inr y, l') \<longleftrightarrow> (\<exists>x l1. m l = Some (Inr x, l1) \<and> f x l1 = Some (Inr y, l'))"
  by (auto simp: bindc_def split: option.splits sum.splits)

definition create_request :: "string \<Rightarrow> client \<Rightarrow> memclnt_create_v2" where
  "create_request name c =
     \<lparr>mc_id = memclnt_create_v2_id, mc_context = 0, mc_ctx_quota = 0, mc_input_queue = of_nat (cl_input_queue c),
      mc_name = fixed_from_str 64 name, mc_api_versions = replicate 8 0, mc_keepalive = cl_handle_keepalives c\<rparr>"

text \<open>The client while it waits for the answer.\<close>

definition unregistered :: "client \<Rightarrow> client" where
  "unregistered c = c\<lparr>cl_client_index := None, cl_message_ids := Map.empty\<rparr>"

lemma finish_connect_Inr:
  assumes "finish_connect env c0 answer l = Some (Inr c, l')"
  obtains table entries where "0 \<le> sint (mcr_response answer)" "l' = l"
    "remaining_from (cl_region c0) (ln_memory l) (unat (mcr_message_table answer)) = Some table"
    "deserialize_message_table table = Inr entries"
    "c = c0\<lparr>cl_client_index := Some (mcr_index answer), cl_message_ids := map_of (rev entries)\<rparr>"
  using assms that
  by (auto simp: finish_connect_def bindc_Inr fail_def split: if_splits option.splits sum.splits)

text \<open>What a client knows of its connection, and what became of it on the way.\<close>

definition connected ::
  "('s, 'w) client_env \<Rightarrow> string \<Rightarrow> bytes \<Rightarrow> u32 \<Rightarrow> ('s, 'w) link \<Rightarrow> client \<Rightarrow> ('s, 'w) link \<Rightarrow> bool" where
  "connected env name path queue_size l c l' \<longleftrightarrow>
     (let deadline = ce_now env l + connect_timeout in
      \<exists>i j l3 l4 l5 message l6 answer table entries. i \<le> j \<and>
        attach_at env path (slept env i l) = Inr (cl_region c) \<and>
        (\<forall>k<i. \<exists>e. attach_at env path (slept env k l) = Inl (Err e) \<and> retryable e \<and> ce_now env (slept env k l) < deadline) \<and>
        user_context (cl_region c) (ln_memory (slept env j l)) = Some (cl_header c) \<and>
        (\<forall>k. i \<le> k \<longrightarrow> k < j \<longrightarrow> user_context (cl_region c) (ln_memory (slept env k l)) = None) \<and>
        server_ready (cl_region c) (slept env j l) (cl_header c) \<and>
        allocate_client_queue env queue_size (slept env j l) = Some (Inr (cl_input_queue c), l3) \<and>
        send_message env (unregistered c) (memclnt_create_v2_sval (create_request name c)) l3 = Some (Inr (), l4) \<and>
        receive env (unregistered c) deadline l5 = Some (Inr (Some message), l6) \<and>
        message_id message (ln_memory l6) = Inr memclnt_create_v2_reply_id \<and>
        take_decoded env memclnt_create_v2_reply_ty memclnt_create_v2_reply_of message l6 = Some (Inr answer, l') \<and>
        0 \<le> sint (mcr_response answer) \<and> cl_client_index c = Some (mcr_index answer) \<and>
        remaining_from (cl_region c) (ln_memory l') (unat (mcr_message_table answer)) = Some table \<and>
        deserialize_message_table table = Inr entries \<and> cl_message_ids c = map_of (rev entries))"

lemma connect_Inr:
  assumes run: "connect env name path queue_size keepalives l = Some (Inr c, l')"
  shows "cl_context_counter c = 0 \<and> cl_handle_keepalives c = keepalives \<and> connected env name path queue_size l c l'"
proof -
  let ?deadline = "ce_now env l + connect_timeout"
  from run obtain region l1 header l2 ok queue l3 l4 answer l6 c0 where steps:
      "attach_loop env path ?deadline l = Some (Inr region, l1)"
      "header_loop env path ?deadline region l1 = Some (Inr header, l2)"
      "map_err (of_fault ClientMemory) (validate_shmem region (ln_memory l2) (ln_queues l2) header) = Inr ok"
      "allocate_client_queue env queue_size l2 = Some (Inr queue, l3)"
      "c0 = \<lparr>cl_region = region, cl_header = header, cl_input_queue = queue, cl_client_index = None,
         cl_message_ids = Map.empty, cl_context_counter = 0, cl_handle_keepalives = keepalives\<rparr>"
      "send_message env c0 (memclnt_create_v2_sval (create_request name c0)) l3 = Some (Inr (), l4)"
      "await_create env c0 path ?deadline l4 = Some (Inr answer, l6)"
      "finish_connect env c0 answer l6 = Some (Inr c, l')"
    unfolding connect_def Let_def bindc_Inr by (auto simp: create_request_def)
  obtain table entries where found: "0 \<le> sint (mcr_response answer)" "l' = l6"
      "remaining_from (cl_region c0) (ln_memory l6) (unat (mcr_message_table answer)) = Some table"
      "deserialize_message_table table = Inr entries"
      "c = c0\<lparr>cl_client_index := Some (mcr_index answer), cl_message_ids := map_of (rev entries)\<rparr>"
    using steps(8) by (rule finish_connect_Inr)
  obtain i where attached: "l1 = slept env i l" "attach_at env path (slept env i l) = Inr region"
      "\<forall>k<i. \<exists>e. attach_at env path (slept env k l) = Inl (Err e) \<and> retryable e \<and> ce_now env (slept env k l) < ?deadline"
    using attach_loop_first [OF steps(1)] by blast
  obtain d where header: "l2 = slept env (i + d) l" "user_context region (ln_memory l2) = Some header"
      "\<forall>k<d. user_context region (ln_memory (slept env (i + k) l)) = None"
    using header_loop_first [OF steps(2)] unfolding attached(1) slept_slept by blast
  have waited: "\<forall>k. i \<le> k \<longrightarrow> k < i + d \<longrightarrow> user_context region (ln_memory (slept env k l)) = None"
    using header(3) by (metis add_less_cancel_left le_Suc_ex)
  have ready: "server_ready region (slept env (i + d) l) header"
    using steps(3) validate_shmem_ready [of region l2 header] unfolding header(1)
    by (auto simp: map_err_def split: sum.splits)
  obtain l5 message l7 where got: "receive env c0 ?deadline l5 = Some (Inr (Some message), l7)"
      "message_id message (ln_memory l7) = Inr memclnt_create_v2_reply_id"
      "take_decoded env memclnt_create_v2_reply_ty memclnt_create_v2_reply_of message l7 = Some (Inr answer, l6)"
    using await_create_Inr [OF steps(7)] by blast
  have c: "unregistered c = c0" "create_request name c = create_request name c0" "cl_region c = region" "cl_header c = header"
      "cl_input_queue c = queue" "cl_client_index c = Some (mcr_index answer)" "cl_message_ids c = map_of (rev entries)"
      "cl_region c0 = region" "cl_context_counter c = 0" "cl_handle_keepalives c = keepalives"
    using steps(5) found(5) by (simp_all add: unregistered_def create_request_def)
  have "connected env name path queue_size l c l'"
    unfolding connected_def Let_def c
    using attached(2,3) header(2) waited ready steps(4,6) got found(1-4) unfolding header(1) c
    by (intro exI [of _ i] exI [of _ "i + d"] exI [of _ l3] exI [of _ l4] exI [of _ l5] exI [of _ message] exI [of _ l7]
        exI [of _ answer] exI [of _ table] exI [of _ entries]) simp
  with c show ?thesis by simp
qed

text \<open>
  C18. How a client that \<^verbatim>\<open>connect\<close> returns came about. Its region is the one attached at the first attempt that did not
  fail with a retryable error before the deadline, its header address the first the region then published, and in the
  memory as it was at that moment the header there is aligned, inside the region and of the supported version, and names
  an aligned, well-formed server queue of eight-byte elements that fits in the region. The client's queue was allocated
  right then, and the create request with its name and that queue was sent next. A message of the create reply's type
  taken from the queue decoded to an answer that is not negative; the client's index is the answer's, and its message ids
  are the table found at the answer's address, a later entry of a name winning. The context counter starts at zero.
\<close>

theorem connect_result:
  "case connect env name path queue_size keepalives l of
     Some (Inr c, l') \<Rightarrow>
       cl_context_counter c = 0 \<and> cl_handle_keepalives c = keepalives \<and> connected env name path queue_size l c l'
   | _ \<Rightarrow> True"
proof (cases "connect env name path queue_size keepalives l")
  case (Some out)
  then show ?thesis
    using connect_Inr [of env name path queue_size keepalives l "projr (fst out)" "snd out"]
    by (cases out; cases "fst out") simp_all
qed simp

end
