(* ===== verification/Rpc_Services.thy ===== *)
theory Rpc_Services
  imports Api_Client_Calls
begin

text \<open>
  The typed services of \<^verbatim>\<open>hammer-binary-api-rpc\<close>: namespaces (\<^verbatim>\<open>session.rs\<close>) and the version query
  (\<^verbatim>\<open>vpe.rs\<close>). A service borrows the client; its calls thread the client and the link.
\<close>

section \<open>Message types of the services\<close>

definition app_namespace_add_del_type :: "app_namespace_add_del api_type" where
  "app_namespace_add_del_type =
     \<lparr>at_decl = app_namespace_add_del_api, at_sval = app_namespace_add_del_sval, at_of = app_namespace_add_del_of,
      at_ty = app_namespace_add_del_ty, at_set_request_header = app_namespace_add_del_set_request_header,
      at_context = app_namespace_add_del_context\<rparr>"

definition app_namespace_add_del_reply_type :: "app_namespace_add_del_reply api_type" where
  "app_namespace_add_del_reply_type =
     \<lparr>at_decl = app_namespace_add_del_reply_api, at_sval = app_namespace_add_del_reply_sval,
      at_of = app_namespace_add_del_reply_of, at_ty = app_namespace_add_del_reply_ty,
      at_set_request_header = (\<lambda>_ _ _ m. m), at_context = app_namespace_add_del_reply_context\<rparr>"

definition show_version_type :: "show_version api_type" where
  "show_version_type =
     \<lparr>at_decl = show_version_api, at_sval = show_version_sval, at_of = show_version_of, at_ty = show_version_ty,
      at_set_request_header = show_version_set_request_header, at_context = show_version_context\<rparr>"

definition show_version_reply_type :: "show_version_reply api_type" where
  "show_version_reply_type =
     \<lparr>at_decl = show_version_reply_api, at_sval = show_version_reply_sval, at_of = show_version_reply_of,
      at_ty = show_version_reply_ty, at_set_request_header = (\<lambda>_ _ _ m. m), at_context = show_version_reply_context\<rparr>"

section \<open>Namespaces\<close>

datatype app_namespace_error =
    NamespaceClient client_error
  | NamespaceRejected app_namespace_add_del_retval
  | UnknownRetval u32

datatype vpe_error = VpeClient client_error | VpeRejected u32

definition wrap_fault :: "('e \<Rightarrow> 'f) \<Rightarrow> 'e fault \<Rightarrow> 'f fault" where
  "wrap_fault g f = (case f of Err e \<Rightarrow> Err (g e) | Panic msg \<Rightarrow> Panic msg)"

definition namespace_index :: "app_namespace_add_del_reply \<Rightarrow> app_namespace_error fault + u32" where
  "namespace_index answer =
     (if anr_retval answer = 0 then Inr (anr_appns_index answer)
      else case retval_try_from (anr_retval answer) of
        Inr retval \<Rightarrow> Inl (Err (NamespaceRejected retval))
      | Inl retval \<Rightarrow> Inl (Err (UnknownRetval retval)))"

definition add_or_rebind ::
  "('s, 'w) client_env \<Rightarrow> u64 \<Rightarrow> u32 \<Rightarrow> u32 \<Rightarrow> u32 \<Rightarrow> bytes \<Rightarrow> client \<Rightarrow> ('s, 'w) link \<Rightarrow>
     ((app_namespace_error fault + u32) \<times> client \<times> ('s, 'w) link) option" where
  "add_or_rebind env secret sw_if_index ip4_fib_id ip6_fib_id namespace_id c l =
     (let request = \<lparr>an_id = 0, an_client_index = 0, an_context = 0, an_secret = secret, an_is_add = True,
            an_sw_if_index = InterfaceIndex sw_if_index, an_ip4_fib_id = ip4_fib_id, an_ip6_fib_id = ip6_fib_id,
            an_namespace_id = namespace_id, an_sock_name = []\<rparr> in
      map_option (\<lambda>(res, c', l'). (rbind (map_err (wrap_fault NamespaceClient) res) namespace_index, c', l'))
        (invoke env app_namespace_add_del_type app_namespace_add_del_reply_type request c l))"

definition delete_namespace ::
  "('s, 'w) client_env \<Rightarrow> bytes \<Rightarrow> client \<Rightarrow> ('s, 'w) link \<Rightarrow>
     ((app_namespace_error fault + unit) \<times> client \<times> ('s, 'w) link) option" where
  "delete_namespace env namespace_id c l =
     (let request = \<lparr>an_id = 0, an_client_index = 0, an_context = 0, an_secret = 0, an_is_add = False,
            an_sw_if_index = InterfaceIndex (- 1), an_ip4_fib_id = - 1, an_ip6_fib_id = - 1,
            an_namespace_id = namespace_id, an_sock_name = []\<rparr> in
      map_option (\<lambda>(res, c', l').
          (rbind (rbind (map_err (wrap_fault NamespaceClient) res) namespace_index) (\<lambda>_. Inr ()), c', l'))
        (invoke env app_namespace_add_del_type app_namespace_add_del_reply_type request c l))"

section \<open>The version query\<close>

definition show_version_call ::
  "('s, 'w) client_env \<Rightarrow> client \<Rightarrow> ('s, 'w) link \<Rightarrow>
     ((vpe_error fault + show_version_reply) \<times> client \<times> ('s, 'w) link) option" where
  "show_version_call env c l =
     map_option (\<lambda>(res, c', l').
         (rbind (map_err (wrap_fault VpeClient) res) (\<lambda>answer.
            if svr_retval answer \<noteq> 0 then Inl (Err (VpeRejected (svr_retval answer))) else Inr answer), c', l'))
       (invoke env show_version_type show_version_reply_type \<lparr>sv_id = 0, sv_client_index = 0, sv_context = 0\<rparr> c l)"

section \<open>What an answer means\<close>

lemma namespace_index_result:
  "namespace_index answer = Inr index \<longleftrightarrow> sint (anr_retval answer) = 0 \<and> index = anr_appns_index answer"
  "namespace_index answer = Inl e \<Longrightarrow>
     e = Err (NamespaceRejected Invalid) \<and> sint (anr_retval answer) = - 19 \<or>
     e = Err (NamespaceRejected NotSupported) \<and> sint (anr_retval answer) = - 10 \<or>
     e = Err (UnknownRetval (anr_retval answer)) \<and> sint (anr_retval answer) \<notin> {0, - 19, - 10}"
proof -
  have eq: "w = v \<longleftrightarrow> sint w = sint v" for w v :: u32 by (auto intro: signed_word_eqI)
  have neg: "sint (- 19 :: u32) = - 19" "sint (- 10 :: u32) = - 10" by simp_all
  show "namespace_index answer = Inr index \<longleftrightarrow> sint (anr_retval answer) = 0 \<and> index = anr_appns_index answer"
    using eq [of "anr_retval answer" 0] by (auto simp: namespace_index_def split: sum.splits)
  show "namespace_index answer = Inl e \<Longrightarrow>
     e = Err (NamespaceRejected Invalid) \<and> sint (anr_retval answer) = - 19 \<or>
     e = Err (NamespaceRejected NotSupported) \<and> sint (anr_retval answer) = - 10 \<or>
     e = Err (UnknownRetval (anr_retval answer)) \<and> sint (anr_retval answer) \<notin> {0, - 19, - 10}"
    using eq [of "anr_retval answer" 0] eq [of "anr_retval answer" "- 19"] eq [of "anr_retval answer" "- 10"] neg
    by (auto simp: namespace_index_def retval_try_from_def split: sum.splits if_splits)
qed

lemma namespace_types:
  "at_decl app_namespace_add_del_type = app_namespace_add_del_api"
  "at_sval app_namespace_add_del_type = app_namespace_add_del_sval"
  "at_set_request_header app_namespace_add_del_type = app_namespace_add_del_set_request_header"
  "at_decl app_namespace_add_del_reply_type = app_namespace_add_del_reply_api"
  "at_ty app_namespace_add_del_reply_type = app_namespace_add_del_reply_ty"
  "at_of app_namespace_add_del_reply_type = app_namespace_add_del_reply_of"
  "at_context app_namespace_add_del_reply_type = app_namespace_add_del_reply_context"
  by (simp_all add: app_namespace_add_del_type_def app_namespace_add_del_reply_type_def)

text \<open>A namespace call: what it sends, and the answer behind its result.\<close>

lemma namespace_invoke:
  assumes "clock_ok env" "ignores_keepalives c"
  obtains res c' l' where
    "invoke env app_namespace_add_del_type app_namespace_add_del_reply_type request c l = Some (res, c', l')"
    "\<And>answer. res = Inr answer \<Longrightarrow>
      (\<exists>client_index request_id ctx l1 b l2. cl_client_index c = Some client_index \<and>
        cl_message_ids c (name_crc_const app_namespace_add_del_api) = Some request_id \<and>
        send_message env c' (app_namespace_add_del_sval
          (request\<lparr>an_id := request_id, an_client_index := client_index, an_context := ctx\<rparr>)) l = Some (Inr (), l1) \<and>
        receive env c' (ce_now env l1 + connect_timeout) l1 = Some (Inr (Some b), l2) \<and>
        msg_decode app_namespace_add_del_reply_ty app_namespace_add_del_reply_of b (ln_memory l2) = Inr answer \<and>
        anr_context answer = ctx)"
proof -
  obtain res c' l' where run:
      "invoke env app_namespace_add_del_type app_namespace_add_del_reply_type request c l = Some (res, c', l')"
    and meaning: "case invoke_target c app_namespace_add_del_api app_namespace_add_del_reply_api of
       Inl e \<Rightarrow> res = Inl e \<and> c' = c \<and> l' = l
     | Inr (client_index, request_id, reply_id) \<Rightarrow>
         c' = c\<lparr>cl_context_counter := fst (next_context (cl_context_counter c))\<rparr> \<and>
         (\<forall>answer. res = Inr answer \<longrightarrow>
           (\<exists>l1 b l2.
              send_message env c' (app_namespace_add_del_sval (app_namespace_add_del_set_request_header request_id client_index
                (snd (next_context (cl_context_counter c))) request)) l = Some (Inr (), l1) \<and>
              receive env c' (ce_now env l1 + connect_timeout) l1 = Some (Inr (Some b), l2) \<and>
              message_id b (ln_memory l2) = Inr reply_id \<and>
              msg_decode app_namespace_add_del_reply_ty app_namespace_add_del_reply_of b (ln_memory l2) = Inr answer \<and>
              (app_namespace_add_del_reply_context answer = None \<or>
               app_namespace_add_del_reply_context answer = Some (snd (next_context (cl_context_counter c))))))"
    using invoke_run [OF assms, of app_namespace_add_del_type app_namespace_add_del_reply_type request l, unfolded namespace_types]
    by blast
  show ?thesis
  proof (rule that [OF run])
    fix answer
    assume "res = Inr answer"
    moreover obtain client_index request_id reply_id where
      "invoke_target c app_namespace_add_del_api app_namespace_add_del_reply_api = Inr (client_index, request_id, reply_id)"
      using meaning \<open>res = Inr answer\<close> by (auto split: sum.splits)
    moreover from this have "cl_client_index c = Some client_index"
      "cl_message_ids c (name_crc_const app_namespace_add_del_api) = Some request_id"
      by (auto simp: invoke_target_def rbind_def ok_or_def client_message_id_def split: sum.splits option.splits if_splits)
    ultimately show "\<exists>client_index request_id ctx l1 b l2. cl_client_index c = Some client_index \<and>
        cl_message_ids c (name_crc_const app_namespace_add_del_api) = Some request_id \<and>
        send_message env c' (app_namespace_add_del_sval
          (request\<lparr>an_id := request_id, an_client_index := client_index, an_context := ctx\<rparr>)) l = Some (Inr (), l1) \<and>
        receive env c' (ce_now env l1 + connect_timeout) l1 = Some (Inr (Some b), l2) \<and>
        msg_decode app_namespace_add_del_reply_ty app_namespace_add_del_reply_of b (ln_memory l2) = Inr answer \<and>
        anr_context answer = ctx"
      using meaning by (auto simp: app_namespace_add_del_set_request_header_def app_namespace_add_del_reply_context_def)
  qed
qed

text \<open>
  C38. \<^verbatim>\<open>add_or_rebind\<close> returns, and an index it returns is the server's: the request sent asks to add the namespace
  with the caller's secret, interface and tables under the client's own index, and the message received answers
  that very request with return value zero and that index. \<^verbatim>\<open>delete\<close> succeeds only on such an answer too.
\<close>

theorem namespace_calls_answered:
  assumes clock: "clock_ok env" and quiet: "ignores_keepalives c"
  shows "(\<exists>res c' l'. add_or_rebind env secret sw_if_index ip4 ip6 namespace_id c l = Some (res, c', l') \<and>
      (\<forall>index. res = Inr index \<longrightarrow>
        (\<exists>client_index request_id ctx l1 b l2 answer. cl_client_index c = Some client_index \<and>
          send_message env c' (app_namespace_add_del_sval
            \<lparr>an_id = request_id, an_client_index = client_index, an_context = ctx, an_secret = secret, an_is_add = True,
             an_sw_if_index = InterfaceIndex sw_if_index, an_ip4_fib_id = ip4, an_ip6_fib_id = ip6,
             an_namespace_id = namespace_id, an_sock_name = []\<rparr>) l = Some (Inr (), l1) \<and>
          receive env c' (ce_now env l1 + connect_timeout) l1 = Some (Inr (Some b), l2) \<and>
          msg_decode app_namespace_add_del_reply_ty app_namespace_add_del_reply_of b (ln_memory l2) = Inr answer \<and>
          anr_context answer = ctx \<and> sint (anr_retval answer) = 0 \<and> index = anr_appns_index answer))) \<and>
    (\<exists>res c' l'. delete_namespace env namespace_id c l = Some (res, c', l') \<and>
      (res = Inr () \<longrightarrow>
        (\<exists>client_index request_id ctx l1 b l2 answer. cl_client_index c = Some client_index \<and>
          send_message env c' (app_namespace_add_del_sval
            \<lparr>an_id = request_id, an_client_index = client_index, an_context = ctx, an_secret = 0, an_is_add = False,
             an_sw_if_index = InterfaceIndex (- 1), an_ip4_fib_id = - 1, an_ip6_fib_id = - 1,
             an_namespace_id = namespace_id, an_sock_name = []\<rparr>) l = Some (Inr (), l1) \<and>
          receive env c' (ce_now env l1 + connect_timeout) l1 = Some (Inr (Some b), l2) \<and>
          msg_decode app_namespace_add_del_reply_ty app_namespace_add_del_reply_of b (ln_memory l2) = Inr answer \<and>
          anr_context answer = ctx \<and> sint (anr_retval answer) = 0)))"
  (is "?add \<and> ?delete")
proof
  let ?request = "\<lparr>an_id = 0, an_client_index = 0, an_context = 0, an_secret = secret, an_is_add = True,
      an_sw_if_index = InterfaceIndex sw_if_index, an_ip4_fib_id = ip4, an_ip6_fib_id = ip6,
      an_namespace_id = namespace_id, an_sock_name = []\<rparr>"
  show ?add
  proof (rule namespace_invoke [OF assms, of ?request l], goal_cases)
    case (1 res c' l')
    then show ?case
      by (cases res) (fastforce simp: add_or_rebind_def namespace_index_result(1))+
  qed
  let ?request = "\<lparr>an_id = 0, an_client_index = 0, an_context = 0, an_secret = 0, an_is_add = False,
      an_sw_if_index = InterfaceIndex (- 1), an_ip4_fib_id = - 1, an_ip6_fib_id = - 1,
      an_namespace_id = namespace_id, an_sock_name = []\<rparr>"
  show ?delete
  proof (rule namespace_invoke [OF assms, of ?request l], goal_cases)
    case (1 res c' l')
    then show ?case
      by (cases res; cases "namespace_index (projr res)") (fastforce simp: delete_namespace_def namespace_index_result(1))+
  qed
qed

lemma namespace_calls_answered_witness:
  "(\<exists>res c' l'. add_or_rebind still_env 7 1 2 3 (fixed_from_str 64 ''blue'') ping_client still_link = Some (res, c', l')) \<and>
   (\<exists>res c' l'. delete_namespace still_env (fixed_from_str 64 ''blue'') ping_client still_link = Some (res, c', l'))"
  using namespace_calls_answered [OF still_clock_ok ping_client_ok(1), of 7 1 2 3 "fixed_from_str 64 ''blue''" still_link]
  by blast

text \<open>
  The three ways a namespace request is refused: \<^verbatim>\<open>namespace_index\<close> gives the index exactly for return value
  zero, names the two documented refusals, and passes any other value on.
\<close>

lemma namespace_refusals:
  "namespace_index \<lparr>anr_id = i, anr_context = ctx, anr_retval = r, anr_appns_index = x\<rparr> =
     (if sint r = 0 then Inr x
      else if sint r = - 19 then Inl (Err (NamespaceRejected Invalid))
      else if sint r = - 10 then Inl (Err (NamespaceRejected NotSupported))
      else Inl (Err (UnknownRetval r)))"
proof (cases "namespace_index \<lparr>anr_id = i, anr_context = ctx, anr_retval = r, anr_appns_index = x\<rparr>")
  case (Inl e)
  then show ?thesis using namespace_index_result(2) [OF Inl] by auto
next
  case (Inr index)
  then show ?thesis by (simp add: namespace_index_result(1))
qed

end
