(* ===== verification/Api_Client_Replies.thy ===== *)
theory Api_Client_Replies
  imports Api_Client_Calls
begin

text \<open>
  A call that is answered: when the client's queue holds the address of a well-formed reply to the request,
  \<^verbatim>\<open>invoke\<close> takes it, returns it and gives its block back.
\<close>

section \<open>Reading a reply\<close>

lemma deserialize_id:
  assumes "length (be_bytes 2 i @ rest) < usize_bound"
  shows "deserialize (TInt TyU16) (be_bytes 2 (i :: u16) @ rest) = Inr (IntV (U16 i))"
  using deserialize_wire [of "TInt TyU16" "IntV (U16 i)" rest] assms by simp

context api_message
begin

text \<open>The bytes of a message of this type, at the address of a buffer, are read as its id and as the message.\<close>

lemma received:
  assumes m: "ok m" and len: "length (wire (to_sval m) False) < usize_bound"
    and bytes: "load mem (mb_payload b) (mb_payload_len b) = wire (to_sval m) False"
    and whole: "mb_payload_len b \<le> mb_initialized_len b"
  shows "Api_Client.message_id b mem = Inr (message_id m)" "msg_decode schema of_sval b mem = Inr m"
proof -
  show "msg_decode schema of_sval b mem = Inr m"
    using msg_decode_ok [OF to_sval_typed [OF m] schema_round_trips len bytes whole, of of_sval] by (simp add: of_to)
  obtain rest where rest: "wire (to_sval m) False = be_bytes 2 (message_id m) @ rest" using id_first by blast
  have "msg_bytes b mem = Inr (be_bytes 2 (message_id m) @ rest)"
    using bytes whole rest by (simp add: msg_bytes_def)
  moreover have "length (be_bytes 2 (message_id m) @ rest) < usize_bound"
    using len by (simp only: rest)
  ultimately show "Api_Client.message_id b mem = Inr (message_id m)"
    by (simp add: Api_Client.message_id_def deserialize_id)
qed

end

section \<open>Taking an address\<close>

lemma queue_sub_at_head:
  assumes env: "env_ok (ce_queue env)" "\<And>st. ln_heap (snd (mutex_unlock (ce_queue env) st)) = ln_heap (snd st)"
    and size: "element_size (ln_queues l a) = 8"
    and lock: "mutex_lock (ce_queue env) True (ln_queues l a, l) = (Standard, q1, l1)"
    and q1: "queue_inv q1" "contents q1 = x # rest" "length (contents q1) < capacity q1"
  obtains l' where "queue_sub_at env a l = Some (Inr (), Some x, l')" "ln_heap l' = ln_heap l1"
    "contents (ln_queues l' a) = rest" "ln_queues l' a = snd (read_one q1)"
proof -
  obtain res q2 l2 taken where sub: "sub_nolock (ce_queue env) (q1, l1) = ((res, q2, l2), taken)" by (metis prod.exhaust)
  have room: "unat (q_cursize q1) < capacity q1" using q1(3) by simp
  from sub have taken: "res = Inr ()" "taken = Some x" "contents q2 = rest" "l2 = l1"
    using sub_nolock_takes [OF env(1) _ sub] q1(1,2) room by (auto split: option.splits)
  have q2: "q2 = snd (read_one q1)"
    using sub q1(2) room by (auto simp: sub_nolock_def contents_def capacity_def split: if_splits prod.splits)
  obtain l3 where unlock: "mutex_unlock (ce_queue env) (q2, l1) = (q2, l3)" "ln_heap l3 = ln_heap l1"
    using env_okD(4) [OF env(1), of "(q2, l1)"] env(2) [of "(q2, l1)"] by (metis fst_conv snd_conv prod.collapse)
  have "queue_sub_at env a l = Some (Inr (), Some x, l3\<lparr>ln_queues := (ln_queues l3)(a := q2)\<rparr>)"
    using size lock sub taken unlock(1)
    by (simp add: queue_sub_at_def queue_sub_nowait try_lock_def acquire_def validate_element_length_def)
  then show ?thesis
    by (rule that) (use unlock(2) taken(3) q2 in simp_all)
qed

lemma receive_head:
  assumes quiet: "ignores_keepalives c"
    and sub: "queue_sub_at env (cl_input_queue c) l = Some (Inr (), Some (to_ne_bytes 8 (address :: u64)), l')"
    and b: "msg_from_address (cl_region c) (ln_memory l') (unat address) = Inr b"
    and i: "message_id b (ln_memory l') = Inr i"
  shows "receive env c deadline l = Some (Inr (Some b), l')"
  using sub b i by (subst receive.simps) (simp add: accept_message_kept [OF quiet] le_roundtrip_widths)

section \<open>An answered call\<close>

text \<open>What becomes of a reply of the right type: its context decides.\<close>

definition reply_verdict :: "'r api_type \<Rightarrow> u32 \<Rightarrow> 'r \<Rightarrow> client_error fault + 'r" where
  "reply_verdict rp context' answer =
     (case at_context rp answer of
        Some received \<Rightarrow> if received = context' then Inr answer else Inl (Err (ContextMismatch context' received))
      | None \<Rightarrow> Inr answer)"

lemma invoke_judges_head:
  assumes reply: "api_message (at_sval rp) (at_of rp) (at_ty rp) ok (at_decl rp) id_of" "ok answer"
    and env: "env_ok (ce_queue env)" "\<And>st. ln_heap (snd (mutex_unlock (ce_queue env) st)) = ln_heap (snd st)"
    and quiet: "ignores_keepalives c"
    and target: "invoke_target c (at_decl rq) (at_decl rp) = Inr (client_index, request_id, id_of answer)"
    and ctx: "next_context (cl_context_counter c) = (counter, context')"
    and sent: "send_message env (c\<lparr>cl_context_counter := counter\<rparr>)
      (at_sval rq (at_set_request_header rq request_id client_index context' request)) l = Some (Inr (), l1)"
    and queue: "element_size (ln_queues l1 (cl_input_queue c)) = 8"
      "mutex_lock (ce_queue env) True (ln_queues l1 (cl_input_queue c), l1) = (Standard, q, l2)"
      "queue_inv q" "contents q = to_ne_bytes 8 (address :: u64) # rest" "length (contents q) < capacity q"
    and message: "msg_from_address (cl_region c) (ln_memory l2) (unat address) = Inr b"
      "load (ln_memory l2) (mb_payload b) (mb_payload_len b) = wire (at_sval rp answer) False"
      "length (wire (at_sval rp answer) False) < usize_bound"
      "msg_free (ce_mspace env) b (ln_heap l2) = ((Inr () :: memory_error fault + unit), h)"
  shows "\<exists>l'. invoke env rq rp request c l = Some (reply_verdict rp context' answer, c\<lparr>cl_context_counter := counter\<rparr>, l') \<and>
    ln_heap l' = h \<and> contents (ln_queues l' (cl_input_queue c)) = rest"
proof -
  let ?c = "c\<lparr>cl_context_counter := counter\<rparr>"
  obtain l3 where taken: "queue_sub_at env (cl_input_queue c) l1 = Some (Inr (), Some (to_ne_bytes 8 address), l3)"
      "ln_heap l3 = ln_heap l2" "contents (ln_queues l3 (cl_input_queue c)) = rest"
    using queue_sub_at_head [OF env queue] by metis
  have whole: "mb_payload_len b \<le> mb_initialized_len b"
    using message(1) by (auto simp: msg_from_address_def Let_def rbind_Inr split: if_splits)
  have read: "message_id b (ln_memory l3) = Inr (id_of answer)" "msg_decode (at_ty rp) (at_of rp) b (ln_memory l3) = Inr answer"
    using api_message.received [OF reply message(3) _ whole, of "ln_memory l3"] message(2) taken(2) by simp_all
  have "ignores_keepalives ?c" using quiet by (simp add: ignores_keepalives_def client_message_id_def)
  then have rc: "receive env ?c deadline l1 = Some (Inr (Some b), l3)" for deadline
    using taken(1) read(1) message(1) taken(2) by (intro receive_head) simp_all
  have "await_reply env ?c rp (id_of answer) context' l1 =
      Some (reply_verdict rp context' answer, l3\<lparr>ln_heap := h\<rparr>)"
    using rc read message(4) taken(2)
    by (simp add: await_reply_def bindc_def take_decoded_def free_message_def on_heap_def lift_res_def ret_def fail_def
        reply_verdict_def Let_def split: option.splits)
  then show ?thesis
    using target ctx sent taken(3) by (simp add: invoke_def bindc_def Let_def)
qed

text \<open>
  C10. The client's side of a successful call. The request has been sent; when the client then gets the mutex of its
  queue, possibly after the server has used it, the queue starts with the address of a message of the reply type that
  carries the id of that type and the context of the request. Then \<^verbatim>\<open>invoke\<close> returns that message, the address is gone
  from the queue and the block is back in the heap.
\<close>

theorem invoke_returns_reply:
  assumes reply: "api_message (at_sval rp) (at_of rp) (at_ty rp) ok (at_decl rp) id_of" "ok answer"
    and env: "env_ok (ce_queue env)" "\<And>st. ln_heap (snd (mutex_unlock (ce_queue env) st)) = ln_heap (snd st)"
    and quiet: "ignores_keepalives c"
    and target: "invoke_target c (at_decl rq) (at_decl rp) = Inr (client_index, request_id, id_of answer)"
    and ctx: "next_context (cl_context_counter c) = (counter, context')" "at_context rp answer = Some context'"
    and sent: "send_message env (c\<lparr>cl_context_counter := counter\<rparr>)
      (at_sval rq (at_set_request_header rq request_id client_index context' request)) l = Some (Inr (), l1)"
    and queue: "element_size (ln_queues l1 (cl_input_queue c)) = 8"
      "mutex_lock (ce_queue env) True (ln_queues l1 (cl_input_queue c), l1) = (Standard, q, l2)"
      "queue_inv q" "contents q = to_ne_bytes 8 (address :: u64) # rest" "length (contents q) < capacity q"
    and message: "msg_from_address (cl_region c) (ln_memory l2) (unat address) = Inr b"
      "load (ln_memory l2) (mb_payload b) (mb_payload_len b) = wire (at_sval rp answer) False"
      "length (wire (at_sval rp answer) False) < usize_bound"
      "msg_free (ce_mspace env) b (ln_heap l2) = ((Inr () :: memory_error fault + unit), h)"
  shows "\<exists>l'. invoke env rq rp request c l = Some (Inr answer, c\<lparr>cl_context_counter := counter\<rparr>, l') \<and>
    ln_heap l' = h \<and> contents (ln_queues l' (cl_input_queue c)) = rest"
  using invoke_judges_head [OF reply env quiet target ctx(1) sent queue message] ctx(2) by (simp add: reply_verdict_def)

text \<open>A reply that is already queued, in a block of its own behind the API header.\<close>

definition ping_answer :: control_ping_reply where
  "ping_answer = \<lparr>cpr_id = 13, cpr_context = 0x80000001, cpr_retval = 0, cpr_client_index = 7, cpr_vpe_pid = 99\<rparr>"

definition reply_memory :: memory where
  "reply_memory =
     store (store (store (\<lambda>_. 0) 72 (word_image 8192)) 168 (be_bytes 4 (18 :: u32))) 176
       (wire (control_ping_reply_sval ping_answer) False)"

definition reply_link :: "(usize \<times> (usize \<rightharpoonup> usize), nat) link" where
  "reply_link =
     \<lparr>ln_heap = ((201, [64 \<mapsto> 80, 160 \<mapsto> 40]), reply_memory),
      ln_queues = (\<lambda>a. if a = 8320 then word_queue 1 (to_ne_bytes 8 (176 :: u64)) else word_queue 0 []),
      ln_world = 0\<rparr>"

lemma ping_answer_length: "length (wire (control_ping_reply_sval ping_answer) False) = 18"
  by (rule message_sizes(8))

definition sent_memory :: "bytes \<Rightarrow> memory" where
  "sent_memory bs =
     store (store (store (store (store reply_memory 208 (replicate 26 0)) 208 (replicate 8 0)) 220 (replicate 4 0)) 216
       (be_bytes 4 (10 :: u32))) 224 bs"

lemma sent_memory_reads:
  assumes "length bs = 10"
  shows "load (sent_memory bs) 176 18 = wire (control_ping_reply_sval ping_answer) False"
    and "load (sent_memory bs) 168 4 = be_bytes 4 (18 :: u32)"
    and "load (sent_memory bs) 160 8 = replicate 8 0"
    and "load (sent_memory bs) 72 8 = word_image 8192"
proof -
  have below: "load (sent_memory bs) p n = load reply_memory p n" if "p + n \<le> 208" for p n
    using that by (simp add: sent_memory_def load_store_other)
  show "load (sent_memory bs) 176 18 = wire (control_ping_reply_sval ping_answer) False"
    using ping_answer_length by (simp add: below reply_memory_def load_store_at)
  show "load (sent_memory bs) 168 4 = be_bytes 4 (18 :: u32)"
    by (simp add: below reply_memory_def load_store_other load_store_at ping_answer_length)
  show "load (sent_memory bs) 160 8 = replicate 8 0"
    by (simp add: below reply_memory_def load_store_other ping_answer_length) (simp add: load_def numeral_eq_Suc)
  show "load (sent_memory bs) 72 8 = word_image 8192"
    by (simp add: below reply_memory_def load_store_other load_store_at ping_answer_length)
qed

lemma ping_sent:
  assumes v: "serialized_len v = Inr 10"
  shows "send_message still_env (ping_client\<lparr>cl_context_counter := n\<rparr>) v reply_link =
    Some (Inr (), reply_link
      \<lparr>ln_heap := ((235, [64 \<mapsto> 80, 160 \<mapsto> 40, 208 \<mapsto> 26]), sent_memory (wire v False)),
       ln_queues := (ln_queues reply_link)(8192 := write_one (to_ne_bytes 8 (224 :: u64)) (word_queue 0 []))\<rparr>)"
proof -
  let ?b = "\<lparr>mb_payload = 224, mb_payload_len = 10, mb_initialized_len = 0\<rparr>"
  let ?m1 = "store (store (store (store reply_memory 208 (replicate 26 0)) 208 (replicate 8 0)) 220 (replicate 4 0)) 216
       (be_bytes 4 (10 :: u32))"
  have layout: "msg_layout 10 = (Inr \<lparr>lay_size = 26, lay_align = 8\<rparr> :: memory_error fault + layout)"
    by (simp add: msg_layout_Inr)
  have fits: "from_size_align 26 (max 8 min_heap_alignment) = Some \<lparr>lay_size = 26, lay_align = 8\<rparr>"
    using layout
    by (simp add: msg_layout_def msg_prefix_def min_heap_alignment_def ok_or_def split: if_splits option.splits)
  have zeroed: "allocate_zeroed (ce_mspace still_env) \<lparr>lay_size = 26, lay_align = 8\<rparr> ((201, [64 \<mapsto> 80, 160 \<mapsto> 40]), reply_memory) =
      ((Inr (Some 208) :: memory_error fault + usize option), (235, [64 \<mapsto> 80, 160 \<mapsto> 40, 208 \<mapsto> 26]),
       store reply_memory 208 (replicate 26 0))"
    by (simp add: allocate_zeroed_def allocate_def fits) (simp add: still_env_def bump_mspace_def)
  have alloc: "msg_allocate (ce_mspace still_env) 10 ((201, [64 \<mapsto> 80, 160 \<mapsto> 40]), reply_memory) =
      (Inr ?b, (235, [64 \<mapsto> 80, 160 \<mapsto> 40, 208 \<mapsto> 26]), ?m1)"
    by (simp add: msg_allocate_def layout zeroed msg_prefix_def msg_timestamp_offset_def msg_length_offset_def Let_def)
  have len: "length (wire v False) = 10" using wire_length_bound [OF v] by simp
  have a: "input_queue_of (ping_client\<lparr>cl_context_counter := n\<rparr>) (sent_memory (wire v False)) = 8192"
    using sent_memory_reads(4) [OF len]
    by (simp add: ping_client_def still_client_def shmem_header_at_def load_word_def usize_bound_def)
  have geometry: "validate_element 8 (to_ne_bytes 8 (224 :: u64)) = Inr ()"
    by (simp add: validate_element_def validate_element_length_def)
  have "queue_add_at still_env 8192 (to_ne_bytes 8 (224 :: u64)) l =
      Some (Inr (), l\<lparr>ln_queues := (ln_queues l)(8192 := write_one (to_ne_bytes 8 (224 :: u64)) (word_queue 0 []))\<rparr>)"
    if "ln_queues l 8192 = word_queue 0 []" for l
  proof -
    have q: "element_size (word_queue 0 []) = 8" "q_cursize (word_queue 0 []) = 0" "q_maxsize (word_queue 0 []) = 3"
        "\<And>e. q_producer_evtfd (write_one e (word_queue 0 [])) = - 1"
      by (simp_all add: word_queue_def element_size_def write_one_def Let_def)
    show ?thesis
      using that geometry q
      by (simp add: queue_add_at_def queue_add_def lock_for_def try_lock_def acquire_def add_nolock_def wait_until.simps
          release_def signal_def still_env_def still_queue_env_def)
  qed
  then show ?thesis
    using send_to_queue [OF v _ alloc, of reply_link 208 "sent_memory (wire v False)" "ping_client\<lparr>cl_context_counter := n\<rparr>"] a
    by (simp add: reply_link_def sent_memory_def)
qed

lemma reply_queue: "queue_inv (word_queue 1 (to_ne_bytes 8 (176 :: u64)))"
    "contents (word_queue 1 (to_ne_bytes 8 (176 :: u64))) = [to_ne_bytes 8 (176 :: u64)]"
    "element_size (word_queue 1 (to_ne_bytes 8 (176 :: u64))) = 8" "capacity (word_queue 1 (to_ne_bytes 8 (176 :: u64))) = 3"
  by (simp_all add: word_queue_def queue_inv_def capacity_def element_size_def contents_def slot_bytes_def)

lemma first_context: "next_context 0 = (1, 0x80000001)"
  by (simp add: next_context.simps [of 0])

definition ping_request :: control_ping where
  "ping_request = \<lparr>cp_id = 0, cp_client_index = 0, cp_context = 0\<rparr>"

abbreviation ping_message :: "u32 \<Rightarrow> sval" where
  "ping_message context' \<equiv> at_sval control_ping_type (at_set_request_header control_ping_type 12 7 context' ping_request)"

text \<open>The link once the request has been sent: the server has not taken it yet, the reply is in the client's queue.\<close>

definition sent_link :: "u32 \<Rightarrow> (usize \<times> (usize \<rightharpoonup> usize), nat) link" where
  "sent_link context' = reply_link
      \<lparr>ln_heap := ((235, [64 \<mapsto> 80, 160 \<mapsto> 40, 208 \<mapsto> 26]), sent_memory (wire (ping_message context') False)),
       ln_queues := (ln_queues reply_link)(8192 := write_one (to_ne_bytes 8 (224 :: u64)) (word_queue 0 []))\<rparr>"

abbreviation ping_buf :: msg_buf where
  "ping_buf \<equiv> \<lparr>mb_payload = 176, mb_payload_len = 18, mb_initialized_len = 18\<rparr>"

lemma ping_length: "serialized_len (ping_message context') = Inr 10"
  by (simp add: control_ping_type_def serialized_len_Inr message_sizes(7) usize_bound_def)
    (simp add: control_ping_sval_def)

lemma ping_fields: "cl_input_queue ping_client = 8320" "cl_region ping_client = \<lparr>rg_base = 64, rg_size = 4032\<rparr>"
  by (simp_all add: ping_client_def still_client_def)

lemma ping_reply_contract:
  "api_message (at_sval control_ping_reply_type) (at_of control_ping_reply_type) (at_ty control_ping_reply_type)
     (\<lambda>_. True) (at_decl control_ping_reply_type) cpr_id"
  by (simp add: control_ping_reply_type_def control_ping_reply.api_message_axioms)

lemma ping_env: "env_ok (ce_queue still_env)" "\<And>st. ln_heap (snd (mutex_unlock (ce_queue still_env) st)) = ln_heap (snd st)"
  using still_env_ok by (simp_all add: client_env_ok_def still_env_def still_queue_env_def)

lemma ping_exchange:
  shows "send_message still_env (ping_client\<lparr>cl_context_counter := n\<rparr>) (ping_message context') reply_link = Some (Inr (), sent_link context')"
    and "ln_queues (sent_link context') 8320 = word_queue 1 (to_ne_bytes 8 (176 :: u64))"
    and "msg_from_address (cl_region ping_client) (ln_memory (sent_link context')) (unat (176 :: u64)) = Inr ping_buf"
    and "load (ln_memory (sent_link context')) (mb_payload ping_buf) (mb_payload_len ping_buf) =
      wire (at_sval control_ping_reply_type ping_answer) False"
    and "length (wire (at_sval control_ping_reply_type ping_answer) False) < usize_bound"
    and "msg_free (ce_mspace still_env) ping_buf (ln_heap (sent_link context')) =
      ((Inr () :: memory_error fault + unit), (235, [64 \<mapsto> 80, 208 \<mapsto> 26]), sent_memory (wire (ping_message context') False))"
proof -
  have bs: "length (wire (ping_message context') False) = 10" using wire_length_bound [OF ping_length] by simp
  note reads = sent_memory_reads [OF bs]
  have layout: "msg_layout 18 = (Inr \<lparr>lay_size = 34, lay_align = 8\<rparr> :: memory_error fault + layout)"
    by (simp add: msg_layout_Inr)
  have heap: "ln_heap (sent_link context') =
      ((235, [64 \<mapsto> 80, 160 \<mapsto> 40, 208 \<mapsto> 26]), sent_memory (wire (ping_message context') False))"
    by (simp add: sent_link_def)
  show "send_message still_env (ping_client\<lparr>cl_context_counter := n\<rparr>) (ping_message context') reply_link = Some (Inr (), sent_link context')"
    using ping_sent [OF ping_length] by (simp add: sent_link_def)
  show "ln_queues (sent_link context') 8320 = word_queue 1 (to_ne_bytes 8 (176 :: u64))"
    by (simp add: sent_link_def reply_link_def)
  show "msg_from_address (cl_region ping_client) (ln_memory (sent_link context')) (unat (176 :: u64)) = Inr ping_buf"
    using reads(2) by (simp add: msg_from_address_def heap ping_fields msg_prefix_def msg_length_offset_def contains_range_iff
        usize_bound_def be_roundtrip_widths checked_sub_def)
  show "load (ln_memory (sent_link context')) (mb_payload ping_buf) (mb_payload_len ping_buf) =
      wire (at_sval control_ping_reply_type ping_answer) False"
      "length (wire (at_sval control_ping_reply_type ping_answer) False) < usize_bound"
    using reads(1) ping_answer_length by (simp_all add: heap control_ping_reply_type_def usize_bound_def)
  show "msg_free (ce_mspace still_env) ping_buf (ln_heap (sent_link context')) =
      ((Inr () :: memory_error fault + unit), (235, [64 \<mapsto> 80, 208 \<mapsto> 26]), sent_memory (wire (ping_message context') False))"
    using reads(3) layout
    by (simp add: msg_free_def heap msg_prefix_def load_word_def deallocate_def is_heap_object_def still_env_def bump_mspace_def
        fun_upd_twist)
qed

lemma invoke_returns_reply_witness:
  "\<exists>l'. invoke still_env control_ping_type control_ping_reply_type ping_request ping_client reply_link =
      Some (Inr ping_answer, ping_client\<lparr>cl_context_counter := 1\<rparr>, l') \<and>
    snd (fst (ln_heap l')) = [64 \<mapsto> 80, 208 \<mapsto> 26] \<and> contents (ln_queues l' 8320) = []"
proof -
  have target: "invoke_target ping_client (at_decl control_ping_type) (at_decl control_ping_reply_type) = Inr (7, 12, cpr_id ping_answer)"
    using ping_client_ok(2) by (simp add: ping_answer_def)
  have "\<exists>l'. invoke still_env control_ping_type control_ping_reply_type ping_request ping_client reply_link =
      Some (Inr ping_answer, ping_client\<lparr>cl_context_counter := 1\<rparr>, l') \<and>
    ln_heap l' = ((235, [64 \<mapsto> 80, 208 \<mapsto> 26]), sent_memory (wire (ping_message 0x80000001) False)) \<and>
    contents (ln_queues l' (cl_input_queue ping_client)) = []"
    by (rule invoke_returns_reply [OF ping_reply_contract TrueI ping_env ping_client_ok(1) target _ _ ping_exchange(1) _ _ _ _ _
          ping_exchange(3-6), where q = "ln_queues (sent_link 0x80000001) 8320"])
      (simp_all add: ping_counter first_context control_ping_reply_type_def control_ping_reply_context_def ping_answer_def
        ping_fields ping_exchange(2) reply_queue, simp add: still_env_def still_queue_env_def)
  then show ?thesis by (auto simp: ping_fields)
qed

text \<open>
  C21. A reply to an earlier request, left behind when that call timed out, answers the next call: when it is the first
  message in the queue, \<^verbatim>\<open>invoke\<close> takes it, frees it and fails with \<^verbatim>\<open>ContextMismatch\<close>, although what follows in the
  queue, the answer to this request too, is still there. That answer is the stale reply of the call after it.
\<close>

theorem stale_reply_fails_call:
  assumes reply: "api_message (at_sval rp) (at_of rp) (at_ty rp) ok (at_decl rp) id_of" "ok answer"
    and env: "env_ok (ce_queue env)" "\<And>st. ln_heap (snd (mutex_unlock (ce_queue env) st)) = ln_heap (snd st)"
    and quiet: "ignores_keepalives c"
    and target: "invoke_target c (at_decl rq) (at_decl rp) = Inr (client_index, request_id, id_of answer)"
    and ctx: "next_context (cl_context_counter c) = (counter, context')" "at_context rp answer = Some earlier" "earlier \<noteq> context'"
    and sent: "send_message env (c\<lparr>cl_context_counter := counter\<rparr>)
      (at_sval rq (at_set_request_header rq request_id client_index context' request)) l = Some (Inr (), l1)"
    and queue: "element_size (ln_queues l1 (cl_input_queue c)) = 8"
      "mutex_lock (ce_queue env) True (ln_queues l1 (cl_input_queue c), l1) = (Standard, q, l2)"
      "queue_inv q" "contents q = to_ne_bytes 8 (address :: u64) # rest" "length (contents q) < capacity q"
    and message: "msg_from_address (cl_region c) (ln_memory l2) (unat address) = Inr b"
      "load (ln_memory l2) (mb_payload b) (mb_payload_len b) = wire (at_sval rp answer) False"
      "length (wire (at_sval rp answer) False) < usize_bound"
      "msg_free (ce_mspace env) b (ln_heap l2) = ((Inr () :: memory_error fault + unit), h)"
  shows "\<exists>l'. invoke env rq rp request c l =
      Some (Inl (Err (ContextMismatch context' earlier)), c\<lparr>cl_context_counter := counter\<rparr>, l') \<and>
    ln_heap l' = h \<and> contents (ln_queues l' (cl_input_queue c)) = rest"
  using invoke_judges_head [OF reply env quiet target ctx(1) sent queue message] ctx(2,3) by (simp add: reply_verdict_def)

lemma client_message_id_counter: "client_message_id (c\<lparr>cl_context_counter := n\<rparr>) = client_message_id c"
  by (simp add: fun_eq_iff client_message_id_def)

lemma second_context: "next_context 1 = (2, 0x80000002)"
  by (simp add: next_context.simps [of 1])

lemma stale_reply_fails_call_witness:
  "\<exists>l'. invoke still_env control_ping_type control_ping_reply_type ping_request (ping_client\<lparr>cl_context_counter := 1\<rparr>) reply_link =
      Some (Inl (Err (ContextMismatch 0x80000002 0x80000001)), ping_client\<lparr>cl_context_counter := 2\<rparr>, l') \<and>
    snd (fst (ln_heap l')) = [64 \<mapsto> 80, 208 \<mapsto> 26]"
proof -
  let ?c = "ping_client\<lparr>cl_context_counter := 1\<rparr>"
  have c: "ignores_keepalives ?c"
      "invoke_target ?c (at_decl control_ping_type) (at_decl control_ping_reply_type) = Inr (7, 12, cpr_id ping_answer)"
    using ping_client_ok
    by (simp_all add: ignores_keepalives_def invoke_target_def client_message_id_counter ping_answer_def
        cong: if_cong)
  have sent: "send_message still_env (?c\<lparr>cl_context_counter := 2\<rparr>) (ping_message 0x80000002) reply_link = Some (Inr (), sent_link 0x80000002)"
    using ping_exchange(1) [of 2] by simp
  have address: "msg_from_address (cl_region ?c) (ln_memory (sent_link 0x80000002)) (unat (176 :: u64)) = Inr ping_buf"
    using ping_exchange(3) by simp
  have "\<exists>l'. invoke still_env control_ping_type control_ping_reply_type ping_request ?c reply_link =
      Some (Inl (Err (ContextMismatch 0x80000002 0x80000001)), ?c\<lparr>cl_context_counter := 2\<rparr>, l') \<and>
    ln_heap l' = ((235, [64 \<mapsto> 80, 208 \<mapsto> 26]), sent_memory (wire (ping_message 0x80000002) False)) \<and>
    contents (ln_queues l' (cl_input_queue ?c)) = []"
    by (rule stale_reply_fails_call [OF ping_reply_contract TrueI ping_env c _ _ _ sent _ _ _ _ _ address
          ping_exchange(4-6), where q = "ln_queues (sent_link 0x80000002) 8320"])
      (simp_all add: second_context control_ping_reply_type_def control_ping_reply_context_def ping_answer_def
        ping_fields ping_exchange(2) reply_queue, simp add: still_env_def still_queue_env_def)
  then show ?thesis by auto
qed

end
