(* ===== verification/Api_Client_Liveness.thy ===== *)
theory Api_Client_Liveness
  imports Api_Client_Replies
begin

text \<open>
  When the client's calls return. Its loops check the deadline only when the queue is empty, so a
  bound on what the server still posts is needed besides a clock that advances: with it every call
  returns, and an endless supply of other messages keeps \<^verbatim>\<open>disconnect\<close> running past its deadline.
\<close>

section \<open>Errors that are not timeouts\<close>

text \<open>The errors that report that waiting was in vain: the timeouts, and a segment that is still not there.\<close>

primrec is_timeout :: "client_error \<Rightarrow> bool" where
  "is_timeout AlreadyConnected = False"
| "is_timeout NotConnected = False"
| "is_timeout (ConnectTimeout path) = True"
| "is_timeout (ClientRegion e) = retryable e"
| "is_timeout (ClientMemory e) = False"
| "is_timeout (ClientQueue e) = False"
| "is_timeout (ClientCodec e) = False"
| "is_timeout (CreateRejected response) = False"
| "is_timeout (MessageUnavailable name) = False"
| "is_timeout RequestHasNoReply = False"
| "is_timeout (ReplyTypeMismatch expected actual) = False"
| "is_timeout (ResponseTimeout context') = True"
| "is_timeout (UnexpectedMessage i expected) = False"
| "is_timeout (ContextMismatch expected received) = False"
| "is_timeout (DisconnectTimeout client_index) = True"

primrec untimed_fault :: "client_error fault \<Rightarrow> bool" where
  "untimed_fault (Err e) = (\<not> is_timeout e)"
| "untimed_fault (Panic msg) = True"

definition untimed :: "(client_error fault + 'a) \<Rightarrow> bool" where
  "untimed res = (case res of Inl e \<Rightarrow> untimed_fault e | Inr _ \<Rightarrow> True)"

lemma untimed_simps [simp]:
  "untimed (Inr x)" "untimed (Inl e) = untimed_fault e"
  "untimed_fault (of_fault ClientMemory f1)" "untimed_fault (of_fault ClientQueue f2)"
  "untimed (map_err (of_fault ClientMemory) r1)" "untimed (map_err (\<lambda>e. Err (ClientCodec e)) r2)"
  by (auto simp: untimed_def of_fault_def map_err_def split: sum.splits fault.splits)

lemma free_untimed: "free_message env b l = Some (res, l') \<Longrightarrow> untimed res"
  by (auto simp: free_message_def on_heap_def split: prod.splits)

lemma message_id_untimed [simp]: "untimed (message_id b m)"
  by (simp add: message_id_def)

lemma take_decoded_untimed: "take_decoded env t of_sval b l = Some (res, l') \<Longrightarrow> untimed res"
  using free_untimed [of env b l]
  by (auto simp: take_decoded_def bindc_def lift_res_def Let_def split: option.splits sum.splits)

lemma send_untimed: "send_message env c v l = Some (res, l') \<Longrightarrow> untimed res"
  using free_untimed [of env]
  by (auto simp: send_message_def bindc_def lift_res_def on_heap_def fail_def map_err_def of_fault_def
      split: option.splits sum.splits prod.splits if_splits fault.splits)

lemma keepalive_untimed: "keepalive_reply env c request l = Some (res, l') \<Longrightarrow> untimed res"
  using send_untimed [of env c]
  by (auto simp: keepalive_reply_def bindc_def lift_res_def ok_or_def split: option.splits sum.splits)

lemma bindc_untimed:
  assumes "bindc m f l = Some (res, l')" and "\<And>mres l1. m l = Some (mres, l1) \<Longrightarrow> untimed mres"
    and "\<And>x l1. m l = Some (Inr x, l1) \<Longrightarrow> f x l1 = Some (res, l') \<Longrightarrow> untimed res"
  shows "untimed res"
  using assms by (auto simp: bindc_def split: option.splits sum.splits)

lemma accept_untimed: "accept_message env c address l = Some (res, l') \<Longrightarrow> untimed res"
  unfolding accept_message_def
  by (erule bindc_untimed; (erule bindc_untimed)?; (simp split: if_splits)?)
    (auto simp: ret_def dest: keepalive_untimed take_decoded_untimed elim!: bindc_untimed)

section \<open>A finite supply of messages\<close>

text \<open>
  \<open>good\<close> is kept by everything the client does while it waits; \<open>pending\<close> bounds the messages the client can
  still take. Answering a keepalive does not fill the client's own queue.
\<close>

locale finite_supply =
  fixes env :: "('s, 'w) client_env"
    and c :: client
    and good :: "('s, 'w) link \<Rightarrow> bool"
    and pending :: "('s, 'w) link \<Rightarrow> nat"
  assumes clock: "clock_ok env"
    and slept: "good l \<Longrightarrow> good (ce_sleep env n l) \<and> pending (ce_sleep env n l) \<le> pending l"
    and taken: "good l \<Longrightarrow> queue_sub_at env (cl_input_queue c) l = Some (res, element, l') \<Longrightarrow>
      good l' \<and> pending l' \<le> pending l \<and> (res = Inr () \<longrightarrow> pending l' < pending l)"
    and freed: "good l \<Longrightarrow> free_message env b l = Some (fres, l') \<Longrightarrow> good l' \<and> pending l' \<le> pending l"
    and answered: "good l \<Longrightarrow> \<not> ignores_keepalives c \<Longrightarrow> keepalive_reply env c request l = Some (ares, l') \<Longrightarrow>
      good l' \<and> pending l' \<le> pending l"
begin

lemma decoded:
  assumes "good l"
  shows "\<exists>res l'. take_decoded env t of_sval b l = Some (res, l') \<and> good l' \<and> pending l' \<le> pending l"
proof -
  obtain fres l' where "free_message env b l = Some (fres, l')"
    by (cases "msg_free (ce_mspace env) b (ln_heap l) :: (memory_error fault + unit) \<times> 's heap")
      (simp add: free_message_def on_heap_def)
  then show ?thesis
    using freed [OF assms] by (cases fres) (auto simp: take_decoded_def bindc_def lift_res_def Let_def)
qed

lemma keepalive_returns:
  assumes "good l" "\<not> ignores_keepalives c"
  shows "\<exists>res l'. keepalive_reply env c request l = Some (res, l') \<and> good l' \<and> pending l' \<le> pending l"
proof -
  have "keepalive_reply env c request l \<noteq> None"
    using send_message_returns [of env c]
    by (auto simp: keepalive_reply_def bindc_def lift_res_def split: sum.splits)
  then show ?thesis
    using answered [OF assms] by (cases "keepalive_reply env c request l") auto
qed

lemma accepted:
  assumes "good l"
  shows "\<exists>res l'. accept_message env c address l = Some (res, l') \<and> good l' \<and> pending l' \<le> pending l \<and>
    (\<forall>b. res = Inr (Some b) \<longrightarrow> (\<exists>i. message_id b (ln_memory l') = Inr i))"
proof (cases "ignores_keepalives c")
  case True
  then show ?thesis
    using assms by (auto simp: accept_message_kept map_err_def rbind_def split: sum.splits)
next
  case False
  consider (bad) res where "accept_message env c address l = Some (Inl res, l)"
    | (kept) b i where "accept_message env c address l = Some (Inr (Some b), l)" "message_id b (ln_memory l) = Inr i"
    | (keepalive) b where "accept_message env c address l =
        bindc (take_decoded env memclnt_keepalive_ty memclnt_keepalive_of b) (\<lambda>request.
          bindc (keepalive_reply env c request) (\<lambda>_. ret None)) l"
  proof (cases "msg_from_address (cl_region c) (ln_memory l) (unat (from_ne_bytes address :: u64))")
    case msg: (Inr b)
    show ?thesis
    proof (cases "message_id b (ln_memory l)")
      case (Inr i)
      then have "accept_message env c address l =
          (if cl_handle_keepalives c \<and> Some i = client_message_id c (name_crc_const memclnt_keepalive_api)
           then bindc (take_decoded env memclnt_keepalive_ty memclnt_keepalive_of b) (\<lambda>request.
             bindc (keepalive_reply env c request) (\<lambda>_. ret None)) l
           else Some (Inr (Some b), l))"
        using msg by (simp add: accept_message_def bindc_def ret_def)
      then show ?thesis using that Inr by (metis (full_types))
    qed (use msg that in \<open>auto simp: accept_message_def bindc_def\<close>)
  qed (use that in \<open>auto simp: accept_message_def bindc_def\<close>)
  then show ?thesis
  proof cases
    case keepalive
    obtain dres l1 where d: "take_decoded env memclnt_keepalive_ty memclnt_keepalive_of b l = Some (dres, l1)"
        "good l1" "pending l1 \<le> pending l"
      using decoded [OF assms] by blast
    show ?thesis
    proof (cases dres)
      case (Inr request)
      obtain ares l2 where "keepalive_reply env c request l1 = Some (ares, l2)" "good l2" "pending l2 \<le> pending l1"
        using keepalive_returns [OF d(2) False] by blast
      then show ?thesis
        using keepalive d Inr by (cases ares) (auto simp: bindc_def ret_def)
    qed (use keepalive d in \<open>auto simp: bindc_def\<close>)
  qed (use assms in auto)
qed

text \<open>Each pass takes a message, or sleeps closer to the deadline, or returns.\<close>

lemma receive_ends:
  assumes "good l"
  shows "\<exists>res l'. receive env c deadline l = Some (res, l') \<and> good l' \<and> pending l' \<le> pending l \<and> untimed res \<and>
    (res = Inr None \<longrightarrow> deadline \<le> ce_now env l') \<and>
    (\<forall>b. res = Inr (Some b) \<longrightarrow> pending l' < pending l \<and> (\<exists>i. message_id b (ln_memory l') = Inr i))"
  using assms
proof (induction l rule: wf_induct_rule [OF wf_inv_image [OF wf_lex_prod [OF wf_less_than wf_less_than],
      of "\<lambda>l. (pending l, deadline - ce_now env l)"]])
  case (1 l)
  note IH = 1(1) and good = 1(2)
  obtain res element l1 where sub: "queue_sub_at env (cl_input_queue c) l = Some (res, element, l1)" "ce_now env l \<le> ce_now env l1"
    by (rule queue_sub_at_returns [OF clock])
  note step = taken [OF good sub(1)]
  show ?case
  proof (cases res)
    case (Inr u)
    define address where "address = (case element of None \<Rightarrow> replicate 8 0 | Some bs \<Rightarrow> bs)"
    obtain ares l2 where acc: "accept_message env c address l1 = Some (ares, l2)" "good l2" "pending l2 \<le> pending l1"
        "\<forall>b. ares = Inr (Some b) \<longrightarrow> (\<exists>i. message_id b (ln_memory l2) = Inr i)"
      using accepted [of l1 address] step by blast
    have less: "pending l2 < pending l" using acc(3) step Inr by simp
    show ?thesis
    proof (cases "ares = Inr None")
      case True
      then have "receive env c deadline l = receive env c deadline l2"
        using sub(1) Inr acc(1) by (subst receive.simps) (simp add: address_def)
      then show ?thesis
        using IH [OF _ acc(2)] less by (auto simp: in_inv_image)
    next
      case False
      then show ?thesis
        using sub(1) Inr acc less accept_untimed [OF acc(1)]
        by (subst receive.simps) (auto simp: address_def split: sum.splits option.splits)
    qed
  next
    case (Inl e)
    show ?thesis
    proof (cases "e = Err Empty \<and> ce_now env l1 < deadline")
      case True
      let ?l2 = "ce_sleep env receive_interval l1"
      have later: "deadline - ce_now env ?l2 < deadline - ce_now env l"
        using clock_okD(1) [OF clock, of l1 receive_interval] sub(2) True
        by (intro diff_less_mono2) (simp_all add: receive_interval_def)
      have kept: "good ?l2" "pending ?l2 \<le> pending l" using slept [of l1] step by (auto intro: le_trans)
      have "receive env c deadline l = receive env c deadline ?l2"
        using sub(1) Inl True by (subst receive.simps) simp
      then show ?thesis
        using IH [OF _ kept(1)] kept(2) later by (fastforce simp: in_inv_image)
    next
      case False
      then show ?thesis
        using sub(1) Inl step by (subst receive.simps) auto
    qed
  qed
qed

lemma free_returns:
  assumes "good l"
  obtains fres l' where "free_message env b l = Some (fres, l')" "good l'" "pending l' \<le> pending l"
proof -
  obtain fres l' where free: "free_message env b l = Some (fres, l')"
    by (cases "msg_free (ce_mspace env) b (ln_heap l) :: (memory_error fault + unit) \<times> 's heap")
      (simp add: free_message_def on_heap_def)
  then show ?thesis using that freed [OF assms free] by blast
qed

text \<open>What one call of \<^verbatim>\<open>receive\<close> brings the loops around it: a message that uses up the supply, or an end.\<close>

lemma next_message:
  assumes "good l"
  obtains (message) b j l1 fres l2 where "receive env c deadline l = Some (Inr (Some b), l1)" "good l1"
      "message_id b (ln_memory l1) = Inr j" "free_message env b l1 = Some (fres, l2)" "untimed fres"
      "good l2" "pending l2 < pending l"
    | (stop) res l1 where "receive env c deadline l = Some (res, l1)" "untimed res" "\<forall>b. res \<noteq> Inr (Some b)"
      "res = Inr None \<longrightarrow> deadline \<le> ce_now env l1"
proof -
  obtain res l1 where rc: "receive env c deadline l = Some (res, l1)" "good l1" "untimed res"
      "res = Inr None \<longrightarrow> deadline \<le> ce_now env l1"
      "\<forall>b. res = Inr (Some b) \<longrightarrow> pending l1 < pending l \<and> (\<exists>i. message_id b (ln_memory l1) = Inr i)"
    using receive_ends [OF assms] by blast
  show ?thesis
  proof (cases "\<exists>b. res = Inr (Some b)")
    case True
    then obtain b j where b: "res = Inr (Some b)" "message_id b (ln_memory l1) = Inr j" "pending l1 < pending l"
      using rc(5) by blast
    obtain fres l2 where free: "free_message env b l1 = Some (fres, l2)" "good l2" "pending l2 \<le> pending l1"
      by (rule free_returns [OF rc(2)])
    then show ?thesis
      using message [OF _ rc(2) b(2) free(1) free_untimed [OF free(1)] free(2)] rc(1) b(1,3) by simp
  qed (use rc stop in blast)
qed

lemma await_delete_ends:
  assumes "good l"
  shows "\<exists>res l'. await_delete env c deadline i client_index l = Some (res, l') \<and>
    (untimed res \<or> res = Inl (Err (DisconnectTimeout client_index)) \<and> deadline \<le> ce_now env l')"
  using assms
proof (induction "pending l" arbitrary: l rule: less_induct)
  case less
  from less.prems show ?case
  proof (rule next_message [of l deadline])
    fix b j l1 fres l2
    assume step: "receive env c deadline l = Some (Inr (Some b), l1)" "good l1" "message_id b (ln_memory l1) = Inr j"
        "free_message env b l1 = Some (fres, l2)" "untimed fres" "good l2" "pending l2 < pending l"
    obtain dres l3 where dec: "take_decoded env memclnt_delete_reply_ty memclnt_delete_reply_of b l1 = Some (dres, l3)"
      using decoded [OF step(2)] by blast
    show ?thesis
      using step dec take_decoded_untimed [OF dec] less.hyps [OF step(7,6)]
      by (subst await_delete.simps) (auto simp: bindc_def fail_def ret_def split: sum.splits)
  next
    fix res l1
    assume "receive env c deadline l = Some (res, l1)" "untimed res" "\<forall>b. res \<noteq> Inr (Some b)"
      "res = Inr None \<longrightarrow> deadline \<le> ce_now env l1"
    then show ?thesis by (subst await_delete.simps) (auto split: sum.splits option.splits)
  qed
qed

lemma await_create_ends:
  assumes "good l"
  shows "\<exists>res l'. await_create env c path deadline l = Some (res, l') \<and>
    (untimed res \<or> res = Inl (Err (ConnectTimeout path)) \<and> deadline \<le> ce_now env l')"
  using assms
proof (induction "pending l" arbitrary: l rule: less_induct)
  case less
  from less.prems show ?case
  proof (rule next_message [of l deadline])
    fix b j l1 fres l2
    assume step: "receive env c deadline l = Some (Inr (Some b), l1)" "good l1" "message_id b (ln_memory l1) = Inr j"
        "free_message env b l1 = Some (fres, l2)" "untimed fres" "good l2" "pending l2 < pending l"
    obtain dres l3 where dec: "take_decoded env memclnt_create_v2_reply_ty memclnt_create_v2_reply_of b l1 = Some (dres, l3)"
      using decoded [OF step(2)] by blast
    show ?thesis
      using step dec take_decoded_untimed [OF dec] less.hyps [OF step(7,6)]
      by (subst await_create.simps) (auto split: sum.splits)
  next
    fix res l1
    assume "receive env c deadline l = Some (res, l1)" "untimed res" "\<forall>b. res \<noteq> Inr (Some b)"
      "res = Inr None \<longrightarrow> deadline \<le> ce_now env l1"
    then show ?thesis by (subst await_create.simps) (auto split: sum.splits option.splits)
  qed
qed

lemma await_reply_ends:
  assumes "good l"
  shows "\<exists>res l'. await_reply env c rp i context' l = Some (res, l') \<and>
    (untimed res \<or> res = Inl (Err (ResponseTimeout context')) \<and> ce_now env l + connect_timeout \<le> ce_now env l')"
  using assms
proof (rule next_message [of l "ce_now env l + connect_timeout"])
  fix b j l1 fres l2
  assume step: "receive env c (ce_now env l + connect_timeout) l = Some (Inr (Some b), l1)" "good l1"
      "message_id b (ln_memory l1) = Inr j" "free_message env b l1 = Some (fres, l2)" "untimed fres"
  obtain dres l3 where dec: "take_decoded env (at_ty rp) (at_of rp) b l1 = Some (dres, l3)"
    using decoded [OF step(2)] by blast
  show ?thesis
    using step dec take_decoded_untimed [OF dec]
    by (auto simp: await_reply_def bindc_def fail_def ret_def split: sum.splits option.splits)
next
  fix res l1
  assume "receive env c (ce_now env l + connect_timeout) l = Some (res, l1)" "untimed res" "\<forall>b. res \<noteq> Inr (Some b)"
    "res = Inr None \<longrightarrow> ce_now env l + connect_timeout \<le> ce_now env l1"
  then show ?thesis
    by (auto simp: await_reply_def bindc_def fail_def split: sum.splits option.splits)
qed

end

section \<open>Posts within a budget\<close>

text \<open>
  The other processes add at most \<open>budget\<close> elements, whichever queue is looked at: while the client sleeps, while it
  takes a mutex, and while it signals. Neither the heap nor the queues are part of the budget.
\<close>

definition posts_bounded :: "('s, 'w) client_env \<Rightarrow> (('s, 'w) link \<Rightarrow> nat) \<Rightarrow> bool" where
  "posts_bounded env budget \<longleftrightarrow>
     (\<forall>n l a. budget (ce_sleep env n l) + unat (q_cursize (ln_queues (ce_sleep env n l) a)) \<le>
        budget l + unat (q_cursize (ln_queues l a))) \<and>
     (\<forall>l qs. budget (l\<lparr>ln_queues := qs\<rparr>) = budget l) \<and> (\<forall>l h. budget (l\<lparr>ln_heap := h\<rparr>) = budget l) \<and>
     (\<forall>b q l lo q' l'. mutex_lock (ce_queue env) b (q, l) = (lo, q', l') \<longrightarrow>
        budget l' + unat (q_cursize q') \<le> budget l + unat (q_cursize q)) \<and>
     (\<forall>st. budget (snd (mutex_unlock (ce_queue env) st)) \<le> budget (snd st)) \<and>
     (\<forall>st. budget (snd (snd (notify_all (ce_queue env) st))) \<le> budget (snd st)) \<and>
     (\<forall>fd bs st. budget (snd (snd (event_write (ce_queue env) fd bs st))) \<le> budget (snd st))"

lemma posts_boundedD:
  assumes "posts_bounded env budget"
  shows "budget (ce_sleep env n l) + unat (q_cursize (ln_queues (ce_sleep env n l) a)) \<le> budget l + unat (q_cursize (ln_queues l a))"
    and "budget (l\<lparr>ln_queues := qs\<rparr>) = budget l" and "budget (l\<lparr>ln_heap := h\<rparr>) = budget l"
    and "mutex_lock (ce_queue env) b (q, l) = (lo, q', l') \<Longrightarrow> budget l' + unat (q_cursize q') \<le> budget l + unat (q_cursize q)"
    and "budget (snd (mutex_unlock (ce_queue env) st)) \<le> budget (snd st)"
    and "notify_all (ce_queue env) st = (err, q1, l1) \<Longrightarrow> budget l1 \<le> budget (snd st)"
    and "event_write (ce_queue env) fd bs st = (wn, q2, l2) \<Longrightarrow> budget l2 \<le> budget (snd st)"
  using assms unfolding posts_bounded_def by (blast | metis snd_conv)+

lemma signal_posts:
  assumes "posts_bounded env budget" "signal (ce_queue env) p op st = (res, q, l)"
  shows "budget l \<le> budget (snd st)"
  using assms(2) posts_boundedD(6,7) [OF assms(1)]
  by (auto simp: signal_def Let_def split: if_splits prod.splits option.splits)

lemma sub_nolock_posts:
  assumes env: "env_ok (ce_queue env)" "posts_bounded env budget"
    and sub: "sub_nolock (ce_queue env) (q, l) = ((res, q', l'), element)"
  shows "budget l' + unat (q_cursize q') + (if res = Inr () then 1 else 0) \<le> budget l + unat (q_cursize q)"
proof (cases "q_cursize q = 0")
  case False
  obtain x q1 where read: "read_one q = (x, q1)" by fastforce
  obtain sres q2 l2 where sig: "signal (ce_queue env) False Sub (q1, l) = (sres, q2, l2)" by (rule prod_cases3)
  have "q2 = q1" "budget l2 \<le> budget l"
    using signal_queue [OF env(1) sig] signal_posts [OF env(2) sig] by simp_all
  moreover have "unat (q_cursize q1) + 1 = unat (q_cursize q)"
    using read_one_geometry(4) [of q] read cursize_dec [OF False] False by (simp add: unat_gt_0)
  ultimately show ?thesis
    using sub sig False read by (auto simp: sub_nolock_def split: if_splits)
qed (use sub in \<open>auto simp: sub_nolock_def\<close>)

lemma queue_sub_at_posts:
  assumes env: "env_ok (ce_queue env)" "posts_bounded env budget" and sub: "queue_sub_at env a l = Some (res, element, l')"
  shows "budget l' + unat (q_cursize (ln_queues l' a)) + (if res = Inr () then 1 else 0) \<le>
    budget l + unat (q_cursize (ln_queues l a))"
proof -
  obtain lo q1 l1 where lk: "mutex_lock (ce_queue env) True (ln_queues l a, l) = (lo, q1, l1)" by (rule prod_cases3)
  obtain sres q2 l2 taken where sn: "sub_nolock (ce_queue env) (q1, l1) = ((sres, q2, l2), taken)" by (metis prod.exhaust)
  have unlock: "\<exists>l3. mutex_unlock (ce_queue env) (q, l) = (q, l3) \<and> budget l3 \<le> budget l" for q l
    using env_okD(4) [OF env(1), of "(q, l)"] posts_boundedD(5) [OF env(2), of "(q, l)"] by (metis fst_conv snd_conv prod.collapse)
  obtain l3 l4 where u: "mutex_unlock (ce_queue env) (q1, l1) = (q1, l3)" "budget l3 \<le> budget l1"
      "mutex_unlock (ce_queue env) (q2, l2) = (q2, l4)" "budget l4 \<le> budget l2"
    using unlock [of q1 l1] unlock [of q2 l2] by blast
  show ?thesis
    using sub lk sn u posts_boundedD(2) [OF env(2)] posts_boundedD(4) [OF env(2) lk] sub_nolock_posts [OF env sn]
    by (auto simp: queue_sub_at_def queue_sub_nowait try_lock_def acquire_def
        split: sum.splits lock_outcome.splits option.splits)
qed

text \<open>A client that answers no keepalive, in an environment with a clock and a budget.\<close>

locale polling_client =
  fixes env :: "('s, 'w) client_env" and c :: client and budget :: "('s, 'w) link \<Rightarrow> nat"
  assumes timed: "clock_ok env" and queues: "env_ok (ce_queue env)" and posts: "posts_bounded env budget"
    and quiet: "ignores_keepalives c"

sublocale polling_client \<subseteq> pool: finite_supply env c "\<lambda>_. True"
  "\<lambda>l. budget l + unat (q_cursize (ln_queues l (cl_input_queue c)))"
proof unfold_locales
  show "clock_ok env" by (rule timed)
  show "True \<and> budget (ce_sleep env n l) + unat (q_cursize (ln_queues (ce_sleep env n l) (cl_input_queue c)))
      \<le> budget l + unat (q_cursize (ln_queues l (cl_input_queue c)))" for n l
    using posts_boundedD(1) [OF posts] by simp
  show "True \<and> budget l' + unat (q_cursize (ln_queues l' (cl_input_queue c)))
      \<le> budget l + unat (q_cursize (ln_queues l (cl_input_queue c))) \<and>
    (res = Inr () \<longrightarrow> budget l' + unat (q_cursize (ln_queues l' (cl_input_queue c)))
      < budget l + unat (q_cursize (ln_queues l (cl_input_queue c))))"
    if "queue_sub_at env (cl_input_queue c) l = Some (res, element, l')" for l l' res element
    using queue_sub_at_posts [OF queues posts that] by (simp split: if_splits)
  show "True \<and> budget l' + unat (q_cursize (ln_queues l' (cl_input_queue c)))
      \<le> budget l + unat (q_cursize (ln_queues l (cl_input_queue c)))"
    if "free_message env b l = Some (fres, l')" for l l' b fres
    using that posts_boundedD(3) [OF posts] by (auto simp: free_message_def on_heap_def split: prod.splits)
qed (use quiet in simp)

context polling_client
begin

lemma supplied:
  "finite_supply env c (\<lambda>_. True) (\<lambda>l. budget l + unat (q_cursize (ln_queues l (cl_input_queue c))))"
  by (rule pool.finite_supply_axioms)

end

interpretation still: polling_client still_env still_client "\<lambda>_. 0"
  by unfold_locales
    (use still_env_ok still_clock_ok still_ignores in
      \<open>auto simp: client_env_ok_def posts_bounded_def still_env_def still_queue_env_def\<close>)

section \<open>Calls end\<close>

text \<open>An action that has returned, and gave up waiting only in a state that is late.\<close>

definition ended :: "(('s, 'w) link \<Rightarrow> bool) \<Rightarrow> ((client_error fault + 'a) \<times> ('s, 'w) link) option \<Rightarrow> bool" where
  "ended late out \<longleftrightarrow> (\<exists>res l'. out = Some (res, l') \<and> (untimed res \<or> late l'))"

lemma ended_Some [simp]: "ended late (Some (res, l)) \<longleftrightarrow> untimed res \<or> late l"
  by (simp add: ended_def)

lemma ended_bindc:
  assumes "ended late (m l)" and "\<And>x l1. m l = Some (Inr x, l1) \<Longrightarrow> ended late (f x l1)"
  shows "ended late (bindc m f l)"
proof -
  obtain res l1 where m: "m l = Some (res, l1)" "untimed res \<or> late l1" using assms(1) by (auto simp: ended_def)
  show ?thesis
  proof (cases res)
    case (Inl e)
    then show ?thesis using m by (auto simp: bindc_def)
  next
    case (Inr x)
    then show ?thesis using m assms(2) [of x l1] by (simp add: bindc_def)
  qed
qed

lemma ended_simps [simp]:
  "ended late (lift_res r l) \<longleftrightarrow> untimed r \<or> late l" "ended late (on_heap g ClientMemory l)" "ended late (on_heap g' ClientQueue l)"
  "ended late (fail e l) \<longleftrightarrow> untimed_fault e \<or> late l"
  "ended late (ret x l)"
  by (auto simp: lift_res_def on_heap_def fail_def ret_def map_err_def split: prod.splits sum.splits)

lemma send_ended: "ended late (send_message env c v l)"
  using send_message_returns [of env c v l] send_untimed by (auto simp: ended_def)

lemma release_queue_ended: "ended late (release_queue env c l)"
  by (simp add: release_queue_def Let_def split: sum.splits option.splits)

lemma allocate_client_queue_ended: "ended late (allocate_client_queue env n l)"
  unfolding allocate_client_queue_def Let_def
  by (intro ended_bindc)
    (auto simp: map_err_def ok_or_def intro!: ended_bindc split: option.splits sum.splits fault.splits)

lemma attach_loop_ended:
  assumes clock: "clock_ok env"
  shows "ended (\<lambda>l'. deadline \<le> ce_now env l') (attach_loop env path deadline l)"
proof (induction "deadline - ce_now env l" arbitrary: l rule: less_induct)
  case less
  show ?case
  proof (cases "\<exists>e. attach_at env path l = Inl (Err e) \<and> retryable e \<and> ce_now env l < deadline")
    case True
    then have step: "attach_loop env path deadline l = attach_loop env path deadline (ce_sleep env receive_interval l)"
      by (subst attach_loop.simps) auto
    show ?thesis
      unfolding step using clock_okD(1) [OF clock, of l receive_interval] True
      by (intro less diff_less_mono2) (auto simp: receive_interval_def)
  next
    case False
    then show ?thesis
      by (subst attach_loop.simps) (auto split: sum.splits fault.splits)
  qed
qed

lemma header_loop_ended:
  assumes clock: "clock_ok env"
  shows "ended (\<lambda>l'. deadline \<le> ce_now env l') (header_loop env path deadline r l)"
proof (induction "deadline - ce_now env l" arbitrary: l rule: less_induct)
  case less
  show ?case
  proof (cases "user_context r (ln_memory l) = None \<and> ce_now env l < deadline")
    case True
    then have step: "header_loop env path deadline r l = header_loop env path deadline r (ce_sleep env receive_interval l)"
      by (subst header_loop.simps) auto
    show ?thesis
      unfolding step using clock_okD(1) [OF clock, of l receive_interval] True
      by (intro less diff_less_mono2) (auto simp: receive_interval_def)
  next
    case False
    then show ?thesis
      by (subst header_loop.simps) (auto split: option.splits)
  qed
qed

lemma finish_connect_ended: "ended late (finish_connect env c answer l)"
proof (cases "sint (mcr_response answer) < 0")
  case True
  then show ?thesis
    unfolding finish_connect_def by (auto intro!: ended_bindc release_queue_ended)
next
  case False
  then show ?thesis
    by (simp add: finish_connect_def split: option.splits sum.splits)
qed

context finite_supply
begin

lemma create_ended: "good l \<Longrightarrow> ended (\<lambda>l'. deadline \<le> ce_now env l') (await_create env c path deadline l)"
  using await_create_ends unfolding ended_def by blast

lemma delete_ended: "good l \<Longrightarrow> ended (\<lambda>l'. deadline \<le> ce_now env l') (await_delete env c deadline i client_index l)"
  using await_delete_ends unfolding ended_def by blast

lemma reply_ended:
  "good l \<Longrightarrow> ended (\<lambda>l'. ce_now env l + connect_timeout \<le> ce_now env l') (await_reply env c rp i context' l)"
  using await_reply_ends unfolding ended_def by blast

end

text \<open>
  C15. With a clock that sleeping advances, and other processes that add finitely many messages to a queue, \<^verbatim>\<open>connect\<close>
  returns. That the segment is missing or not ready, or that the header or the answer did not appear in time, is
  reported only once ten seconds have passed.
\<close>

theorem connect_ends:
  assumes clock: "clock_ok env" and queues: "env_ok (ce_queue env)" and posts: "posts_bounded env budget"
  shows "\<exists>res l'. connect env name path queue_size keepalives l = Some (res, l') \<and>
    (untimed res \<or> ce_now env l + connect_timeout \<le> ce_now env l')"
proof -
  let ?late = "\<lambda>l'. ce_now env l + connect_timeout \<le> ce_now env l'"
  have answer: "ended ?late (await_create env c path (ce_now env l + connect_timeout) l1)" if "cl_message_ids c = Map.empty" for c l1
  proof -
    have "ignores_keepalives c" using that by (simp add: ignores_keepalives_def client_message_id_def)
    then have "polling_client env c budget" using assms by (intro polling_client.intro)
    from finite_supply.create_ended [OF polling_client.supplied [OF this]] show ?thesis by simp
  qed
  have "ended ?late (connect env name path queue_size keepalives l)"
    unfolding connect_def Let_def
    by (intro ended_bindc attach_loop_ended [OF clock] header_loop_ended [OF clock] allocate_client_queue_ended send_ended
        finish_connect_ended answer) simp_all
  then show ?thesis by (simp add: ended_def)
qed

lemma still_queues: "env_ok (ce_queue still_env)"
  using still_env_ok by (simp add: client_env_ok_def)

lemma connect_ends_witness:
  "\<exists>res l'. connect still_env ''cli'' [] 8 True still_link = Some (res, l') \<and>
    (untimed res \<or> ce_now still_env still_link + connect_timeout \<le> ce_now still_env l')"
  by (rule connect_ends [OF still_clock_ok still_queues still.posts])

section \<open>Invoking and disconnecting\<close>

lemma send_counter: "send_message env (c\<lparr>cl_context_counter := n\<rparr>) v = send_message env c v"
  by (simp add: send_message_def)

lemma supply_counter:
  assumes "finite_supply env c good pending"
  shows "finite_supply env (c\<lparr>cl_context_counter := n\<rparr>) good pending"
proof -
  have same: "ignores_keepalives (c\<lparr>cl_context_counter := n\<rparr>) = ignores_keepalives c"
      "keepalive_reply env (c\<lparr>cl_context_counter := n\<rparr>) request = keepalive_reply env c request" for request
    by (simp_all add: ignores_keepalives_def keepalive_reply_def client_message_id_def send_counter)
  have input: "cl_input_queue (c\<lparr>cl_context_counter := n\<rparr>) = cl_input_queue c" by simp
  show ?thesis
    by (rule finite_supply.intro, unfold same input)
      (fact finite_supply.clock [OF assms] finite_supply.slept [OF assms] finite_supply.taken [OF assms]
        finite_supply.freed [OF assms] finite_supply.answered [OF assms])+
qed

lemma ended_later: "ended late out \<Longrightarrow> (\<And>l'. late l' \<Longrightarrow> late' l') \<Longrightarrow> ended late' out"
  by (auto simp: ended_def)

lemma invoke_target_untimed: "invoke_target c rq rp = Inl e \<Longrightarrow> untimed_fault e"
  by (auto simp: invoke_target_def rbind_def ok_or_def split: sum.splits option.splits if_splits)

text \<open>The first message was sent, and \<open>timeout\<close> has passed since.\<close>

definition late_after :: "('s, 'w) client_env \<Rightarrow> client \<Rightarrow> nat \<Rightarrow> ('s, 'w) link \<Rightarrow> ('s, 'w) link \<Rightarrow> bool" where
  "late_after env c timeout l l' \<longleftrightarrow>
     (\<exists>v l1. send_message env c v l = Some (Inr (), l1) \<and> ce_now env l1 + timeout \<le> ce_now env l')"

lemma invoke_ended:
  assumes served: "finite_supply env c good pending"
    and sent: "\<And>v res l1. send_message env c v l = Some (res, l1) \<Longrightarrow> good l1"
  shows "\<exists>res c' l'. invoke env rq rp request c l = Some (res, c', l') \<and> (untimed res \<or> late_after env c connect_timeout l l')"
proof (cases "invoke_target c (at_decl rq) (at_decl rp)")
  case (Inl e)
  then show ?thesis using invoke_target_untimed [OF Inl] by (simp add: invoke_def)
next
  case (Inr target)
  obtain client_index request_id i where target: "target = (client_index, request_id, i)" by (rule prod_cases3)
  obtain n context' where ctx: "next_context (cl_context_counter c) = (n, context')" by fastforce
  let ?v = "at_sval rq (at_set_request_header rq request_id client_index context' request)"
  have "ended (late_after env c connect_timeout l)
      (bindc (send_message env c ?v) (\<lambda>_. await_reply env (c\<lparr>cl_context_counter := n\<rparr>) rp i context') l)"
  proof (rule ended_bindc [OF send_ended])
    fix u l1 assume run: "send_message env c ?v l = Some (Inr u, l1)"
    show "ended (late_after env c connect_timeout l) (await_reply env (c\<lparr>cl_context_counter := n\<rparr>) rp i context' l1)"
      by (rule ended_later [OF finite_supply.reply_ended [OF supply_counter [OF served] sent [OF run]]])
        (use run in \<open>auto simp: late_after_def\<close>)
  qed
  then show ?thesis
    using Inr target ctx by (auto simp: invoke_def Let_def send_counter ended_def)
qed

lemma disconnect_ended:
  assumes served: "finite_supply env c good pending"
    and sent: "\<And>v res l1. send_message env c v l = Some (res, l1) \<Longrightarrow> good l1"
  shows "\<exists>res c' l'. disconnect env c l = Some (res, c', l') \<and> (untimed res \<or> late_after env c disconnect_timeout l l')"
proof -
  have deleted: "ended (late_after env c disconnect_timeout l)
      (bindc (send_message env c v) (\<lambda>_ st. await_delete env c (ce_now env st + disconnect_timeout) i client_index st) l)"
    for v i client_index
  proof (rule ended_bindc [OF send_ended])
    fix u l1 assume run: "send_message env c v l = Some (Inr u, l1)"
    show "ended (late_after env c disconnect_timeout l) (await_delete env c (ce_now env l1 + disconnect_timeout) i client_index l1)"
      by (rule ended_later [OF finite_supply.delete_ended [OF served sent [OF run]]])
        (use run in \<open>auto simp: late_after_def\<close>)
  qed
  have released: "\<exists>res l'. release_queue env c l1 = Some (res, l') \<and> untimed res" for l1
    using release_queue_ended [of "\<lambda>_. False" env c l1] by (simp add: ended_def)
  define target where "target = rbind (ok_or (Err NotConnected) (cl_client_index c)) (\<lambda>client_index.
      rbind (ok_or (Err (MessageUnavailable (name_crc_const memclnt_delete_api)))
          (client_message_id c (name_crc_const memclnt_delete_api))) (\<lambda>delete_id.
      rbind (ok_or (Err (MessageUnavailable (name_crc_const memclnt_delete_reply_api)))
          (client_message_id c (name_crc_const memclnt_delete_reply_api))) (\<lambda>delete_reply_id.
      Inr (client_index, delete_id, delete_reply_id))))"
  show ?thesis
  proof (cases target)
    case (Inl e)
    then have "untimed_fault e"
      by (auto simp: target_def rbind_def ok_or_def split: sum.splits option.splits)
    with Inl show ?thesis by (auto simp: disconnect_def simp flip: target_def)
  next
    case (Inr t)
    obtain client_index delete_id i where t: "t = (client_index, delete_id, i)" by (rule prod_cases3)
    let ?v = "memclnt_delete_sval \<lparr>md_id = delete_id, md_index = client_index, md_handle = 0, md_do_cleanup = False\<rparr>"
    obtain res l1 where run: "bindc (send_message env c ?v) (\<lambda>_ st.
          await_delete env c (ce_now env st + disconnect_timeout) i client_index st) l = Some (res, l1)"
        "untimed res \<or> late_after env c disconnect_timeout l l1"
      using deleted [of ?v i client_index] by (auto simp: ended_def)
    show ?thesis
      using run released [of l1] Inr t by (cases res) (auto simp: disconnect_def simp flip: target_def)
  qed
qed

text \<open>
  C14. While the server posts finitely many messages, \<^verbatim>\<open>invoke\<close> and \<^verbatim>\<open>disconnect\<close> return, also for a client that answers
  keepalives; the contract is that of \<open>finite_supply\<close>, kept by the message sent first. A timeout is reported only when
  ten, respectively two, seconds have passed since the request was sent.
\<close>

theorem calls_end:
  assumes served: "finite_supply env c good pending"
    and sent: "\<And>v res l1. send_message env c v l = Some (res, l1) \<Longrightarrow> good l1"
  shows "(\<exists>res c' l'. invoke env rq rp request c l = Some (res, c', l') \<and> (untimed res \<or> late_after env c connect_timeout l l')) \<and>
    (\<exists>res c' l'. disconnect env c l = Some (res, c', l') \<and> (untimed res \<or> late_after env c disconnect_timeout l l'))"
  by (intro conjI invoke_ended [OF assms] disconnect_ended [OF assms])

text \<open>
  A client that answers keepalives, with one waiting in its queue. The server's queue is at the address 8192 named in
  the API header; whatever is freed or allocated, the lowest byte of that address stays zero, so the answers never go
  to the client's own queue at 8320.
\<close>

definition heartbeat_client :: client where
  "heartbeat_client = still_client
     \<lparr>cl_message_ids := [''control_ping_51077d14'' \<mapsto> 12, ''control_ping_reply_f6b0b8ca'' \<mapsto> 13,
        name_crc_const memclnt_keepalive_api \<mapsto> 8, name_crc_const memclnt_keepalive_reply_api \<mapsto> 9]\<rparr>"

definition heartbeat_link :: "(usize \<times> (usize \<rightharpoonup> usize), nat) link" where
  "heartbeat_link = reply_link
     \<lparr>ln_heap := ((201, [64 \<mapsto> 80, 160 \<mapsto> 40]), store (store reply_memory 168 (be_bytes 4 (10 :: u32))) 176
        (wire (memclnt_keepalive_sval \<lparr>mk_id = 8, mk_client_index = 7, mk_context = 0\<rparr>) False))\<rparr>"

definition apart :: "(usize \<times> (usize \<rightharpoonup> usize)) heap \<Rightarrow> bool" where
  "apart h \<longleftrightarrow> snd h 72 = 0 \<and> 145 \<le> fst (fst h)"

lemma store_elsewhere: "x < a \<Longrightarrow> store m a bs x = m x" "m x = 0 \<Longrightarrow> store m a (replicate n 0) x = 0"
  by (auto simp: store_def)

lemma apart_allocate:
  assumes "apart h" "msg_allocate (bump_mspace hi) n h = (res, h')"
  shows "apart h' \<and> (\<forall>b. res = Inr b \<longrightarrow> 145 \<le> mb_payload b)"
proof -
  have aligned: "145 \<le> (k + 8 - 1) div 8 * 8" if "145 \<le> k" for k :: nat
    using round_up [of 8 k] that by simp
  show ?thesis
    using assms aligned [of "fst (fst h)"]
    by (auto simp: apart_def msg_allocate_def allocate_zeroed_def allocate_def bump_mspace_def msg_layout_Inr
        min_heap_alignment_def from_size_align_def store_elsewhere Let_def msg_prefix_def
        split: sum.splits option.splits prod.splits if_splits)
qed

lemma apart_free: "apart h \<Longrightarrow> msg_free (bump_mspace hi) b h = (res, h') \<Longrightarrow> apart h'"
  by (auto simp: apart_def msg_free_def deallocate_def bump_mspace_def store_elsewhere Let_def
      split: if_splits sum.splits)

lemma apart_header:
  assumes "apart h" "cl_header c = 64"
  shows "input_queue_of c (snd h) \<noteq> 8320"
proof
  assume eq: "input_queue_of c (snd h) = 8320"
  have "load (snd h) 72 8 = 0 # load (snd h) 73 7"
    using assms(1) by (simp add: apart_def load_def upt_rec)
  then have "(from_ne_bytes (load (snd h) 72 8) :: u64) = ucast (0 :: u8) OR push_bit 8 (from_ne_bytes (load (snd h) 73 7))"
    by simp
  then have low: "(ucast (from_ne_bytes (load (snd h) 72 8) :: u64) :: u8) = 0"
    using ucast_or_push_bit_8 [where b = "0 :: u8" and x = "from_ne_bytes (load (snd h) 73 7) :: u64"] by simp
  have "unat (from_ne_bytes (load (snd h) 72 8) :: u64) = unat (8320 :: u64)"
    using eq assms(2) by (simp add: shmem_header_at_def load_word_def)
  then have "(from_ne_bytes (load (snd h) 72 8) :: u64) = 8320" by (rule unsigned_word_eqI)
  with low show False by simp
qed

lemma still_takes: "queue_sub_at still_env a l = Some (res, element, l') \<Longrightarrow> ln_heap l' = ln_heap l"
  by (auto simp: queue_sub_at_def queue_sub_nowait try_lock_def acquire_def sub_nolock_def signal_def still_env_def
      still_queue_env_def Let_def split: sum.splits if_splits prod.splits)

lemma still_adds:
  "queue_add_at still_env a e l = Some (res, l') \<Longrightarrow> ln_heap l' = ln_heap l \<and> (\<forall>b. b \<noteq> a \<longrightarrow> ln_queues l' b = ln_queues l b)"
  by (auto simp: queue_add_at_def queue_add_def lock_for_def try_lock_def acquire_def add_nolock_def wait_until.simps
      await_change_def release_def signal_def still_env_def still_queue_env_def Let_def
      split: sum.splits if_splits prod.splits)

lemma apart_send:
  assumes "apart (ln_heap l)" "cl_header c = 64" "send_message still_env c v l = Some (res, l')"
  shows "apart (ln_heap l') \<and> ln_queues l' 8320 = ln_queues l 8320"
proof (cases "serialized_len v")
  case (Inl e)
  then show ?thesis using assms by (auto simp: send_message_def bindc_def lift_res_def)
next
  case len: (Inr n)
  obtain ares h1 where alloc: "msg_allocate (ce_mspace still_env) n (ln_heap l) = (ares, h1)" by (rule prod.exhaust)
  then have h1: "apart h1" "\<forall>b. ares = Inr b \<longrightarrow> 145 \<le> mb_payload b"
    using apart_allocate [OF assms(1)] by (auto simp: still_env_def)
  show ?thesis
  proof (cases ares)
    case (Inl e)
    then show ?thesis using assms alloc len h1 by (auto simp: send_message_def bindc_def lift_res_def on_heap_def)
  next
    case (Inr b)
    show ?thesis
    proof (cases "msg_encode v b (snd h1)")
      case enc: (Inl e)
      then show ?thesis
        using assms alloc len h1 Inr by (auto simp: send_message_def bindc_def lift_res_def on_heap_def)
    next
      case enc: (Inr out)
      obtain k b2 m where out: "out = (k, b2, m)" by (rule prod_cases3)
      then have m: "apart (fst h1, m)"
        using enc out h1 Inr by (auto simp: apart_def msg_encode_def rbind_Inr store_elsewhere)
      let ?l = "l\<lparr>ln_heap := (fst h1, m)\<rparr>"
      obtain qres l2 where add: "queue_add_at still_env (input_queue_of c m) (to_ne_bytes 8 (of_nat (msg_address b2) :: u64)) ?l = Some (qres, l2)"
        using assms(3) alloc len Inr enc out
        by (auto simp: send_message_def bindc_def lift_res_def on_heap_def split: option.splits)
      have "input_queue_of c m \<noteq> 8320" using apart_header [OF m assms(2)] by simp
      then have l2: "ln_heap l2 = (fst h1, m)" "ln_queues l2 8320 = ln_queues l 8320"
        using still_adds [OF add] by auto
      obtain fres h3 where free: "msg_free (ce_mspace still_env) b2 (ln_heap l2) = ((fres :: memory_error fault + unit), h3)"
        by (rule prod.exhaust)
      then have "apart h3" using apart_free [of "ln_heap l2" 4096 b2 fres h3] m l2(1) by (simp add: still_env_def)
      then show ?thesis
        using assms(3) alloc len Inr enc out add l2 m free
        by (cases fres; cases qres)
          (auto simp: send_message_def bindc_def lift_res_def on_heap_def free_message_def fail_def split: if_splits)
    qed
  qed
qed

lemma heartbeat_fields: "cl_header heartbeat_client = 64" "cl_input_queue heartbeat_client = 8320"
  by (simp_all add: heartbeat_client_def still_client_def)

interpretation heartbeat: finite_supply still_env heartbeat_client "\<lambda>l. apart (ln_heap l)"
  "\<lambda>l. unat (q_cursize (ln_queues l 8320))"
proof unfold_locales
  show "clock_ok still_env" by (rule still_clock_ok)
  show "apart (ln_heap (ce_sleep still_env n l)) \<and>
      unat (q_cursize (ln_queues (ce_sleep still_env n l) 8320)) \<le> unat (q_cursize (ln_queues l 8320))"
    if "apart (ln_heap l)" for n l
    using that by (simp add: still_env_def)
  show "apart (ln_heap l') \<and> unat (q_cursize (ln_queues l' 8320)) \<le> unat (q_cursize (ln_queues l 8320)) \<and>
      (res = Inr () \<longrightarrow> unat (q_cursize (ln_queues l' 8320)) < unat (q_cursize (ln_queues l 8320)))"
    if "apart (ln_heap l)" "queue_sub_at still_env (cl_input_queue heartbeat_client) l = Some (res, element, l')"
    for l res element l'
    using that still_takes [OF that(2)] queue_sub_at_posts [OF still_queues still.posts that(2)]
    by (simp add: heartbeat_fields split: if_splits)
  show "apart (ln_heap l') \<and> unat (q_cursize (ln_queues l' 8320)) \<le> unat (q_cursize (ln_queues l 8320))"
    if "apart (ln_heap l)" "free_message still_env b l = Some (fres, l')" for l b fres l'
    using that apart_free [of "ln_heap l" 4096 b]
    by (auto simp: free_message_def on_heap_def still_env_def split: prod.splits)
  show "apart (ln_heap l') \<and> unat (q_cursize (ln_queues l' 8320)) \<le> unat (q_cursize (ln_queues l 8320))"
    if "apart (ln_heap l)" "keepalive_reply still_env heartbeat_client request l = Some (ares, l')" for l request ares l'
    using that(2) apart_send [OF that(1) heartbeat_fields(1)] that(1)
    by (auto simp: keepalive_reply_def bindc_def lift_res_def split: sum.splits)
qed

lemma heartbeat_apart: "apart (ln_heap heartbeat_link)"
proof -
  have "le_bytes 8 (8192 :: u64) ! 0 = 0"
    using le_bytes.simps(2) [of 7 "8192 :: u64"] by simp
  then show ?thesis
    by (simp add: apart_def heartbeat_link_def reply_memory_def store_elsewhere) (simp add: store_def word_image_def)
qed

lemma calls_end_witness:
  "(\<exists>res c' l'. invoke still_env control_ping_type control_ping_reply_type ping_request heartbeat_client heartbeat_link = Some (res, c', l')) \<and>
   (\<exists>res c' l'. disconnect still_env heartbeat_client heartbeat_link = Some (res, c', l'))"
  using calls_end [OF heartbeat.finite_supply_axioms, of heartbeat_link control_ping_type control_ping_reply_type
      ping_request] apart_send [OF heartbeat_apart heartbeat_fields(1)]
  by blast

section \<open>An endless supply\<close>

text \<open>
  C22. The deadline of \<^verbatim>\<open>disconnect\<close> is looked at only when the queue is empty: as long as every look into the queue finds
  another message that is not the delete reply, the loop that waits for that reply does not return, whatever the
  deadline and the clock. The same loop waits in \<^verbatim>\<open>connect\<close>.
\<close>

theorem disconnect_outlasts_deadline:
  assumes flood: "\<And>l. busy l \<Longrightarrow> \<exists>b j l1 l2. receive env c deadline l = Some (Inr (Some b), l1) \<and>
      message_id b (ln_memory l1) = Inr j \<and> j \<noteq> i \<and> free_message env b l1 = Some (Inr (), l2) \<and> busy l2"
    and "busy l"
  shows "await_delete env c deadline i client_index l = None"
proof (rule ccontr)
  assume "await_delete env c deadline i client_index l \<noteq> None"
  then obtain y where ret: "await_delete env c deadline i client_index l = Some y" by blast
  have "\<not> busy l"
  proof (rule await_delete.raw_induct [where P = "\<lambda>env' c' deadline' i' client_index' l y.
        env' = env \<longrightarrow> c' = c \<longrightarrow> deadline' = deadline \<longrightarrow> i' = i \<longrightarrow> \<not> busy l", OF _ ret, rule_format])
    fix f env' c' deadline' i' client_index' l y
    assume IH: "\<And>env' c' deadline' i' client_index' l y. f env' c' deadline' i' client_index' l = Some y \<Longrightarrow>
          env' = env \<Longrightarrow> c' = c \<Longrightarrow> deadline' = deadline \<Longrightarrow> i' = i \<Longrightarrow> \<not> busy l"
      and step: "(case receive env' c' deadline' l of
          None \<Rightarrow> None
        | Some (Inl e, l') \<Rightarrow> Some (Inl e, l')
        | Some (Inr None, l') \<Rightarrow> Some (Inl (Err (DisconnectTimeout client_index')), l')
        | Some (Inr (Some message), l') \<Rightarrow>
            (case message_id message (ln_memory l') of
               Inl e \<Rightarrow> Some (Inl e, l')
             | Inr j \<Rightarrow>
                 if j \<noteq> i' then
                   (case free_message env' message l' of
                      None \<Rightarrow> None
                    | Some (Inl e, l'') \<Rightarrow> Some (Inl e, l'')
                    | Some (Inr _, l'') \<Rightarrow> f env' c' deadline' i' client_index' l'')
                 else
                   bindc (take_decoded env' memclnt_delete_reply_ty memclnt_delete_reply_of message) (\<lambda>answer.
                     if sint (mdr_response answer) < 0 then fail (Err (CreateRejected (mdr_response answer))) else ret ()) l')) = Some y"
      and same: "env' = env" "c' = c" "deadline' = deadline" "i' = i"
    show "\<not> busy l"
    proof
      assume "busy l"
      then obtain b j l1 l2 where "receive env c deadline l = Some (Inr (Some b), l1)"
          "message_id b (ln_memory l1) = Inr j" "j \<noteq> i" "free_message env b l1 = Some (Inr (), l2)" "busy l2"
        using flood by blast
      with step same IH [of env c deadline i client_index' l2 y] show False by simp
    qed
  qed simp_all
  with assms(2) show False by simp
qed

text \<open>A server that has put another reply into the client's queue each time the client gets its mutex.\<close>

definition flood_heap :: "(usize \<times> (usize \<rightharpoonup> usize)) heap" where
  "flood_heap = ((201, [64 \<mapsto> 80, 160 \<mapsto> 40]), sent_memory (replicate 10 0))"

definition flood_env :: "(usize \<times> (usize \<rightharpoonup> usize), nat) client_env" where
  "flood_env = still_env\<lparr>ce_queue := still_queue_env
     \<lparr>mutex_lock := (\<lambda>_ (q, l). (Standard, word_queue 1 (to_ne_bytes 8 (176 :: u64)), l\<lparr>ln_heap := flood_heap\<rparr>))\<rparr>\<rparr>"

lemma flood_receives:
  assumes "element_size (ln_queues l 8320) = 8"
  shows "\<exists>b j l1 l2. receive flood_env ping_client deadline l = Some (Inr (Some b), l1) \<and>
    message_id b (ln_memory l1) = Inr j \<and> j \<noteq> 5 \<and> free_message flood_env b l1 = Some (Inr (), l2) \<and>
    element_size (ln_queues l2 8320) = 8"
proof -
  let ?q = "word_queue 1 (to_ne_bytes 8 (176 :: u64))"
  let ?l1 = "l\<lparr>ln_heap := flood_heap, ln_queues := (ln_queues l)(8320 := snd (read_one ?q))\<rparr>"
  note reads = sent_memory_reads [of "replicate 10 0"]
  have read: "fst (read_one ?q) = to_ne_bytes 8 (176 :: u64)" "q_cursize ?q = 1" "q_maxsize ?q = 3"
    using read_one_contents [OF reply_queue(1)] reply_queue(2) by (simp_all add: word_queue_def)
  then have taken: "queue_sub_at flood_env (cl_input_queue ping_client) l = Some (Inr (), Some (to_ne_bytes 8 (176 :: u64)), ?l1)"
    using assms by (cases "read_one ?q") (simp add: ping_fields queue_sub_at_def queue_sub_nowait try_lock_def acquire_def
        validate_element_length_def sub_nolock_def flood_env_def still_env_def still_queue_env_def)
  have memory: "snd flood_heap = sent_memory (replicate 10 0)" by (simp add: flood_heap_def)
  have address: "msg_from_address (cl_region ping_client) (ln_memory ?l1) (unat (176 :: u64)) = Inr ping_buf"
    using reads(2) by (simp add: msg_from_address_def memory ping_fields msg_prefix_def msg_length_offset_def contains_range_iff
        usize_bound_def be_roundtrip_widths checked_sub_def)
  have i: "message_id ping_buf (ln_memory ?l1) = Inr 13"
    using control_ping_reply.received(1) [where m = ping_answer and b = ping_buf and mem = "snd flood_heap"] reads(1) ping_answer_length
    by (simp add: memory usize_bound_def ping_answer_def)
  have layout: "msg_layout 18 = (Inr \<lparr>lay_size = 34, lay_align = 8\<rparr> :: memory_error fault + layout)"
    by (simp add: msg_layout_Inr)
  have "free_message flood_env ping_buf ?l1 = Some (Inr (), ?l1\<lparr>ln_heap := ((201, [64 \<mapsto> 80]), sent_memory (replicate 10 0))\<rparr>)"
    using reads(3) layout
    by (simp add: free_message_def on_heap_def msg_free_def flood_heap_def flood_env_def msg_prefix_def load_word_def
        deallocate_def is_heap_object_def still_env_def bump_mspace_def fun_upd_twist)
  moreover have "receive flood_env ping_client deadline l = Some (Inr (Some ping_buf), ?l1)"
    by (rule receive_head [OF ping_client_ok(1) taken address i])
  moreover have "element_size (snd (read_one ?q)) = 8" using reply_queue(3) by simp
  ultimately show ?thesis
    using i by - (rule exI [of _ ping_buf], rule exI [of _ 13], rule exI [of _ ?l1], auto)
qed

lemma flood_clock: "clock_ok flood_env"
  by (auto simp: clock_ok_def flood_env_def still_env_def still_queue_env_def)

lemma disconnect_outlasts_deadline_witness:
  "clock_ok flood_env \<and> await_delete flood_env ping_client 2000000000 5 7 reply_link = None"
proof (intro conjI flood_clock)
  show "await_delete flood_env ping_client 2000000000 5 7 reply_link = None"
    by (rule disconnect_outlasts_deadline [where busy = "\<lambda>l. element_size (ln_queues l 8320) = 8", OF flood_receives])
      (simp_all add: reply_link_def reply_queue)
qed

end
