(* ===== verification/Api_Client_Connect.thy ===== *)
theory Api_Client_Connect
  imports Api_Client_Replies
begin

text \<open>
  Connecting step by step: the client's queue in the shared heap, a connection the server accepts, and what
  stays allocated when the create request cannot be sent.
\<close>

section \<open>The client's queue\<close>

lemma allocate_client_queue_ok:
  assumes ok: "mspace_ok (ce_mspace env) good live lo hi" and good: "good (fst (ln_heap l))"
    and run: "allocate_client_queue env n l = Some (Inr a, l')"
  obtains u q where "good (fst (ln_heap l'))" "live (fst (ln_heap l)) a = None" "120 + unat n * 8 \<le> u"
    "live (fst (ln_heap l')) = (live (fst (ln_heap l)))(a \<mapsto> u)" "a mod 64 = 0"
    "\<forall>b v. live (fst (ln_heap l)) b = Some v \<longrightarrow> load (ln_memory l') b v = load (ln_memory l) b v"
    "ln_queues l' = (ln_queues l)(a := q)" "queue_inv q" "contents q = []" "capacity q = unat n" "element_size q = 8"
proof -
  obtain s m where h: "ln_heap l = (s, m)" by fastforce
  define config where "config = \<lparr>cfg_nels = n, cfg_elsize = (8 :: u32), cfg_consumer_pid = ce_pid env\<rparr>"
  have layout: "unat n * 8 + 120 < usize_bound" using layout_fits [of n 8] by simp
  obtain k where size: "size_to_alloc config = Inr k"
    using run by (auto simp: allocate_client_queue_def config_def [symmetric] bindc_def lift_res_def Let_def map_err_def split: sum.splits)
  then have k: "k = 120 + unat n * 8"
    using layout by (auto simp: size_to_alloc_def config_def rbind_Inr checked_mul_def checked_add_def queue_header_size_def split: if_splits)
  obtain lay where lay: "from_size_align k 64 = Some lay"
    using run size
    by (auto simp: allocate_client_queue_def config_def [symmetric] bindc_def lift_res_def Let_def ok_or_def split: option.splits)
  then have "lay_size lay = k" "lay_align lay = 64" by (auto simp: from_size_align_def split: if_splits)
  obtain ares s' m' where alloc: "allocate_zeroed (ce_mspace env) lay (s, m) = ((ares :: queue_error fault + usize option), s', m')"
    by (rule prod_cases3)
  note fresh = allocate_zeroed_ok [OF ok good [unfolded h fst_conv] alloc]
  have ares: "ares = Inr (Some p) \<Longrightarrow>
      (case queue_init p config (load m' (p + queue_header_size) (k - queue_header_size)) of
         Inr q \<Rightarrow> p = a \<and> l' = l\<lparr>ln_heap := (s', m'), ln_queues := (ln_queues l)(p := q)\<rparr> | Inl _ \<Rightarrow> False)" for p
    using run size lay alloc h
    by (auto simp: allocate_client_queue_def config_def [symmetric] bindc_def lift_res_def on_heap_def ok_or_def fail_def
        split: sum.splits fault.splits option.splits)
  have "ares = Inr (Some a)"
    using run size lay alloc h ares
    by (cases ares; cases "projr ares") (auto simp: allocate_client_queue_def config_def [symmetric] bindc_def lift_res_def
        on_heap_def ok_or_def fail_def split: sum.splits)
  then obtain u q where u: "live s a = None" "k \<le> u" "live s' = (live s)(a \<mapsto> u)" "m' = store m a (replicate k 0)" "64 dvd a" "good s'"
    and q: "queue_init a config (load m' (a + queue_header_size) (k - queue_header_size)) = Inr q"
      "l' = l\<lparr>ln_heap := (s', m'), ln_queues := (ln_queues l)(a := q)\<rparr>"
    using fresh ares [of a] \<open>lay_size lay = k\<close> \<open>lay_align lay = 64\<close> by (auto split: sum.splits)
  have init: "queue_inv q" "contents q = []" "capacity q = unat n" "element_size q = 8"
    using queue_init_inv [OF q(1)] k by (simp_all add: config_def queue_header_size_def)
  have "load m' b v = load m b v" if "live s b = Some v" for b v
    using that u store_other_block [OF mspace_okD(1) [OF ok u(6)], of a u b v a "replicate k 0"] by (cases "b = a") auto
  then show ?thesis
    using that [of u q] u q(2) init k h by (auto simp: dvd_eq_mod_eq_0)
qed

section \<open>The client being connected\<close>

definition connecting :: "svm_region \<Rightarrow> usize \<Rightarrow> usize \<Rightarrow> bool \<Rightarrow> client" where
  "connecting r header queue keepalives =
     \<lparr>cl_region = r, cl_header = header, cl_input_queue = queue, cl_client_index = None,
      cl_message_ids = Map.empty, cl_context_counter = 0, cl_handle_keepalives = keepalives\<rparr>"

lemma connecting_simps [simp]:
  "cl_region (connecting r header queue keepalives) = r" "cl_header (connecting r header queue keepalives) = header"
  "cl_input_queue (connecting r header queue keepalives) = queue"
  "ignores_keepalives (connecting r header queue keepalives)"
  by (simp_all add: connecting_def ignores_keepalives_def client_message_id_def)

text \<open>\<^verbatim>\<open>connect\<close> up to the client's queue, and what is left of it then.\<close>

definition prepared :: "('s, 'w) client_env \<Rightarrow> bytes \<Rightarrow> u32 \<Rightarrow> ('s, 'w) link \<Rightarrow> svm_region \<Rightarrow> usize \<Rightarrow> ('s, 'w) link \<Rightarrow>
    usize \<Rightarrow> ('s, 'w) link \<Rightarrow> bool" where
  "prepared env path n l r header l2 queue l3 \<longleftrightarrow>
     (\<exists>l1 shared. attach_loop env path (ce_now env l + connect_timeout) l = Some (Inr r, l1) \<and>
        header_loop env path (ce_now env l + connect_timeout) r l1 = Some (Inr header, l2) \<and>
        validate_shmem r (ln_memory l2) (ln_queues l2) header = Inr shared) \<and>
     allocate_client_queue env n l2 = Some (Inr queue, l3)"

lemma connect_prepared:
  assumes "prepared env path n l r header l2 queue l3" and "c = connecting r header queue keepalives"
  shows "connect env name path n keepalives l =
    bindc (send_message env c (memclnt_create_v2_sval (create_request name c))) (\<lambda>_.
      bindc (await_create env c path (ce_now env l + connect_timeout)) (\<lambda>answer. finish_connect env c answer)) l3"
  using assms by (auto simp: prepared_def connect_def connecting_def create_request_def bindc_def Let_def map_err_def)

lemma create_request_ok: "memclnt_create_v2_ok (create_request name c)"
  by (simp add: memclnt_create_v2_ok_def create_request_def)

text \<open>
  C20. \<^verbatim>\<open>connect\<close> puts its queue into the shared heap before the server knows of it. When the create request then cannot
  be sent, because the server's queue is full or its mutex is held, \<^verbatim>\<open>connect\<close> returns the error and the only trace
  in the heap is that queue: it stays allocated, nobody can free it, and the next attempt allocates another.
\<close>

theorem unsent_create_leaks_queue:
  assumes env: "client_env_ok env good live lo hi"
    and start: "prepared env path n l r header l2 queue l3" "good (fst (ln_heap l2))"
    and c: "c = connecting r header queue keepalives" "client_ok c lo hi (live (fst (ln_heap l2)))"
    and server: "queue_inv (ln_queues l2 (input_queue_of c (ln_memory l2)))" "element_size (ln_queues l2 (input_queue_of c (ln_memory l2))) = 8"
    and failed: "send_message env c (memclnt_create_v2_sval (create_request name c)) l3 = Some (Inl e, l4)"
  shows "connect env name path n keepalives l = Some (Inl e, l4) \<and>
    (\<exists>u. live (fst (ln_heap l4)) = (live (fst (ln_heap l2)))(queue \<mapsto> u) \<and> 120 + unat n * 8 \<le> u) \<and>
    live (fst (ln_heap l2)) queue = None"
proof -
  have ok: "mspace_ok (ce_mspace env) good live lo hi" using env by (simp add: client_env_ok_def)
  have alloc: "allocate_client_queue env n l2 = Some (Inr queue, l3)" using start(1) by (simp add: prepared_def)
  obtain u q where l3: "good (fst (ln_heap l3))" "live (fst (ln_heap l2)) queue = None" "120 + unat n * 8 \<le> u"
      "live (fst (ln_heap l3)) = (live (fst (ln_heap l2)))(queue \<mapsto> u)" "queue mod 64 = 0"
      "\<forall>b v. live (fst (ln_heap l2)) b = Some v \<longrightarrow> load (ln_memory l3) b v = load (ln_memory l2) b v"
      "ln_queues l3 = (ln_queues l2)(queue := q)" "queue_inv q" "contents q = []" "capacity q = unat n" "element_size q = 8"
    by (rule allocate_client_queue_ok [OF ok start(2) alloc])
  have header: "input_queue_of c (ln_memory l3) = input_queue_of c (ln_memory l2)"
    using c(2) header_unchanged [of "live (fst (ln_heap l2))" _ _ c "ln_memory l3" "ln_memory l2"] l3(6)
    by (auto simp: client_ok_def)
  have c3: "client_ok c lo hi (live (fst (ln_heap l3)))"
    using c(2) l3(2,4) by (fastforce simp: client_ok_def)
  let ?a = "input_queue_of c (ln_memory l3)" and ?m = "create_request name c"
  have queue: "queue_inv (ln_queues l3 ?a)" "element_size (ln_queues l3 ?a) = 8"
    using server l3(7,8,11) header by auto
  have "live (fst (ln_heap l4)) = live (fst (ln_heap l3))"
    using memclnt_create_v2.send_typed [OF env l3(1) c3 refl queue, of ?m] failed create_request_ok [of name c]
    by (auto simp: message_sizes(1))
  then show ?thesis
    using connect_prepared [OF start(1) c(1), of name] failed l3(2,3,4) by (auto simp: bindc_def)
qed

section \<open>An accepted connection\<close>

text \<open>
  C16. The client's side of a successful connection. The create request has been sent; when the client then gets the mutex
  of its queue, the queue starts with the address of a create reply that does not reject it, and the reply names a
  message table as the server writes it. Then \<^verbatim>\<open>connect\<close> returns the client with the server's index and exactly the ids of that table;
  the reply has left the queue and its block is back in the heap.
\<close>

theorem connect_registers:
  assumes env: "env_ok (ce_queue env)" "\<And>st. ln_heap (snd (mutex_unlock (ce_queue env) st)) = ln_heap (snd st)"
    and start: "prepared env path n l r header l2 a l3" "c = connecting r header a keepalives"
    and sent: "send_message env c (memclnt_create_v2_sval (create_request name c)) l3 = Some (Inr (), l4)"
    and queue: "element_size (ln_queues l4 a) = 8" "mutex_lock (ce_queue env) True (ln_queues l4 a, l4) = (Standard, q, l5)"
      "queue_inv q" "contents q = to_ne_bytes 8 (address :: u64) # rest" "length (contents q) < capacity q"
    and answer: "mcr_id answer = memclnt_create_v2_reply_id" "0 \<le> sint (mcr_response answer)"
    and message: "msg_from_address r (ln_memory l5) (unat address) = Inr b"
      "load (ln_memory l5) (mb_payload b) (mb_payload_len b) = wire (memclnt_create_v2_reply_sval answer) False"
      "msg_free (ce_mspace env) b (ln_heap l5) = ((Inr () :: memory_error fault + unit), h)"
    and table: "remaining_from r (snd h) (unat (mcr_message_table answer)) = Some (encode_table entries @ bs)"
      "\<forall>e\<in>set entries. rust_str (fst e) \<and> length (fst e) < usize_bound" "length entries < 2 ^ 32"
  shows "\<exists>l'. connect env name path n keepalives l =
      Some (Inr (c\<lparr>cl_message_ids := map_of (rev entries), cl_client_index := Some (mcr_index answer)\<rparr>), l') \<and>
    ln_heap l' = h \<and> contents (ln_queues l' a) = rest"
proof -
  obtain l6 where taken: "queue_sub_at env (cl_input_queue c) l4 = Some (Inr (), Some (to_ne_bytes 8 address), l6)"
      "ln_heap l6 = ln_heap l5" "contents (ln_queues l6 a) = rest"
    using queue_sub_at_head [OF env queue] start(2) by (metis connecting_simps(3))
  have whole: "mb_payload_len b \<le> mb_initialized_len b"
    using message(1) by (auto simp: msg_from_address_def Let_def rbind_Inr split: if_splits)
  have read: "message_id b (ln_memory l6) = Inr memclnt_create_v2_reply_id"
      "msg_decode memclnt_create_v2_reply_ty memclnt_create_v2_reply_of b (ln_memory l6) = Inr answer"
    using memclnt_create_v2_reply.received [of answer, OF TrueI _ _ whole, of "ln_memory l6"] message(2) taken(2) answer(1)
    by (simp_all add: message_sizes(2) usize_bound_def)
  have "receive env c deadline l4 = Some (Inr (Some b), l6)" for deadline
    using taken(1,2) read(1) message(1) start(2) by (intro receive_head) simp_all
  then have "await_create env c path deadline l4 = Some (Inr answer, l6\<lparr>ln_heap := h\<rparr>)" for deadline
    using read message(3) taken(2)
    by (subst await_create.simps) (simp add: take_decoded_def bindc_def free_message_def on_heap_def lift_res_def)
  then show ?thesis
    using connect_prepared [OF start, of name] sent answer(2) table(1) deserialize_encode_table [OF table(2,3)] taken(3) start(2)
    by (auto simp: bindc_def finish_connect_def)
qed

section \<open>An accepted disconnection\<close>

abbreviation delete_request :: "u16 \<Rightarrow> u32 \<Rightarrow> memclnt_delete" where
  "delete_request i client_index \<equiv> \<lparr>md_id = i, md_index = client_index, md_handle = 0, md_do_cleanup = False\<rparr>"

lemma release_queue_ok:
  assumes "mspace_ok (ce_mspace env) good live lo hi" "good (fst (ln_heap l))" "live (fst (ln_heap l)) (cl_input_queue c) \<noteq> None"
    and q: "q_maxsize (ln_queues l (cl_input_queue c)) \<noteq> 0" "element_size (ln_queues l (cl_input_queue c)) = 8"
  shows "\<exists>l'. release_queue env c l = Some (Inr (), l') \<and> ln_queues l' = ln_queues l \<and>
    live (fst (ln_heap l')) = (live (fst (ln_heap l)))(cl_input_queue c := None)"
proof -
  let ?q = "ln_queues l (cl_input_queue c)"
  let ?n = "unat (q_maxsize ?q)"
  have "unat (q_elsize ?q) = 8" using q(2) by (simp add: element_size_def)
  moreover have "?n < 2 ^ 32" using unsigned_less [of "q_maxsize ?q"] by simp
  moreover have "q_elsize ?q \<noteq> 0" using calculation(1) by auto
  ultimately have size: "size_to_alloc \<lparr>cfg_nels = q_maxsize ?q, cfg_elsize = q_elsize ?q, cfg_consumer_pid = q_consumer_pid ?q\<rparr> =
      Inr (120 + ?n * 8)" and small: "120 + ?n * 8 + 64 \<le> 2 ^ 63"
    using q(1) by (simp_all add: size_to_alloc_def validate_config_def checked_mul_def checked_add_def usize_bound_def queue_header_size_def)
  have "is_power_of_two 64"
    unfolding is_power_of_two_def by (auto simp: image_iff intro!: bexI [of _ 6])
  then have "from_size_align (120 + ?n * 8) 64 = Some \<lparr>lay_size = 120 + ?n * 8, lay_align = 64\<rparr>"
    using small by (simp add: from_size_align_def)
  moreover have "deallocate (ce_mspace env) (cl_input_queue c) (ln_heap l) =
      ((Inr () :: queue_error fault + unit), free_block (ce_mspace env) (cl_input_queue c) (fst (ln_heap l)), ln_memory l)"
    using assms(1-3) by (cases "ln_heap l") (simp add: deallocate_ok)
  ultimately show ?thesis
    using size mspace_okD(4) [OF assms(1-3)] by (simp add: release_queue_def on_heap_def)
qed

text \<open>
  C17. The client's side of a successful disconnection. The delete request has been sent, and the client's queue then starts
  with the address of a delete reply that is not negative. Then \<^verbatim>\<open>disconnect\<close> succeeds: the client is without index and
  message ids, and of the heap as it was after freeing the reply exactly the block of the client's queue is gone.
\<close>

theorem disconnect_releases:
  assumes env: "env_ok (ce_queue env)" "\<And>st. ln_heap (snd (mutex_unlock (ce_queue env) st)) = ln_heap (snd st)"
      "mspace_ok (ce_mspace env) good live lo hi"
    and c: "ignores_keepalives c" "cl_client_index c = Some client_index"
      "client_message_id c (name_crc_const memclnt_delete_api) = Some delete_id"
      "client_message_id c (name_crc_const memclnt_delete_reply_api) = Some (mdr_id answer)"
    and sent: "send_message env c (memclnt_delete_sval (delete_request delete_id client_index)) l = Some (Inr (), l1)"
    and queue: "element_size (ln_queues l1 (cl_input_queue c)) = 8"
      "mutex_lock (ce_queue env) True (ln_queues l1 (cl_input_queue c), l1) = (Standard, q, l2)"
      "queue_inv q" "contents q = to_ne_bytes 8 (address :: u64) # rest" "length (contents q) < capacity q"
    and message: "msg_from_address (cl_region c) (ln_memory l2) (unat address) = Inr b"
      "load (ln_memory l2) (mb_payload b) (mb_payload_len b) = wire (memclnt_delete_reply_sval answer) False"
      "msg_free (ce_mspace env) b (ln_heap l2) = ((Inr () :: memory_error fault + unit), s, m)"
      "0 \<le> sint (mdr_response answer)"
    and heap: "good s" "live s (cl_input_queue c) \<noteq> None"
  shows "\<exists>l'. disconnect env c l = Some (Inr (), c\<lparr>cl_client_index := None, cl_message_ids := Map.empty\<rparr>, l') \<and>
    live (fst (ln_heap l')) = (live s)(cl_input_queue c := None)"
proof -
  obtain l3 where taken: "queue_sub_at env (cl_input_queue c) l1 = Some (Inr (), Some (to_ne_bytes 8 address), l3)"
      "ln_heap l3 = ln_heap l2" "ln_queues l3 (cl_input_queue c) = snd (read_one q)"
    using queue_sub_at_head [OF env(1,2) queue] by metis
  have whole: "mb_payload_len b \<le> mb_initialized_len b"
    using message(1) by (auto simp: msg_from_address_def Let_def rbind_Inr split: if_splits)
  have read: "message_id b (ln_memory l3) = Inr (mdr_id answer)"
      "msg_decode memclnt_delete_reply_ty memclnt_delete_reply_of b (ln_memory l3) = Inr answer"
    using memclnt_delete_reply.received [of answer, OF TrueI _ _ whole, of "ln_memory l3"] message(2) taken(2)
    by (simp_all add: message_sizes(4) usize_bound_def)
  have "receive env c deadline l1 = Some (Inr (Some b), l3)" for deadline
    using taken(1,2) read(1) message(1) c(1) by (intro receive_head) simp_all
  then have waited: "await_delete env c deadline (mdr_id answer) client_index l1 = Some (Inr (), l3\<lparr>ln_heap := (s, m)\<rparr>)" for deadline
    using read message(3,4) taken(2)
    by (subst await_delete.simps) (simp add: take_decoded_def bindc_def free_message_def on_heap_def lift_res_def ret_def)
  have "element_size q = 8"
    using keeps_geometry [OF env_okD(1) [OF env(1) queue(2)]] queue(1) by simp
  moreover have "q_maxsize q \<noteq> 0" using queue_invD(1) [OF queue(3)] by (auto simp: capacity_def)
  ultimately obtain l4 where "release_queue env c (l3\<lparr>ln_heap := (s, m)\<rparr>) = Some (Inr (), l4)"
      "live (fst (ln_heap l4)) = (live s)(cl_input_queue c := None)"
    using release_queue_ok [OF env(3), of "l3\<lparr>ln_heap := (s, m)\<rparr>" c] heap taken(3) by auto
  then show ?thesis
    using sent waited c(2-4) by (simp add: disconnect_def bindc_def)
qed

end
