(* ===== verification/Api_Client_Scenario.thy ===== *)
theory Api_Client_Scenario
  imports Api_Client_Connect
begin

text \<open>
  A server in concrete memory: a region of two pages with its heaps, the API header, the server's queue, a create reply
  and a message table. It shows that the hypotheses of the theorems on connecting can hold.
\<close>

section \<open>The region\<close>

definition api_region :: svm_region where
  "api_region = \<lparr>rg_base = 65536, rg_size = 8192\<rparr>"

definition api_header :: region_header where
  "api_header = (sample_header 65792)\<lparr>rh_user_ctx := 70656\<rparr>"

definition api_ids :: "(string \<times> u16) list" where
  "api_ids = [(''control_ping_51077d14'', 12), (''control_ping_reply_f6b0b8ca'', 13)]"

definition create_answer :: memclnt_create_v2_reply where
  "create_answer =
     \<lparr>mcr_id = memclnt_create_v2_reply_id, mcr_context = 0, mcr_response = 0, mcr_handle = 0, mcr_index = 7,
      mcr_message_table = 71200\<rparr>"

definition api_memory :: memory where
  "api_memory =
     store (store (store (store (store (store (store (\<lambda>_. 0)
       65536 (header_image api_header))
       65792 (heap_image \<lparr>mh_base = 69632, mh_mspace = 0, mh_size = 1024\<rparr>))
       65824 (heap_image \<lparr>mh_base = 70656, mh_mspace = 0, mh_size = 3072\<rparr>))
       70656 (to_ne_bytes 4 (2 :: u32) @ replicate 4 0 @ word_image 70912))
       71080 (be_bytes 4 (30 :: u32)))
       71088 (wire (memclnt_create_v2_reply_sval create_answer) False))
       71200 (encode_table api_ids)"

lemma api_ids_length: "length (encode_table api_ids) = 56"
  by (simp add: encode_table_def encode_entry_def encode_integer_def api_ids_def)

lemma create_answer_length: "length (wire (memclnt_create_v2_reply_sval create_answer) False) = 30"
  by (rule message_sizes(2))

lemma load_zeros: "load (\<lambda>_. 0) a n = replicate n 0"
  by (simp add: load_def map_replicate_const)

lemma api_memory_reads:
  shows "region_header_at api_memory 65536 = api_header"
    and "mem_heap_at api_memory 65792 = \<lparr>mh_base = 69632, mh_mspace = 0, mh_size = 1024\<rparr>"
    and "mem_heap_at api_memory 65824 = \<lparr>mh_base = 70656, mh_mspace = 0, mh_size = 3072\<rparr>"
    and "shmem_header_at api_memory 70656 = \<lparr>sh_version = 2, sh_server_pid = 0, sh_input_queue = 70912\<rparr>"
    and "load api_memory 71080 4 = be_bytes 4 (30 :: u32)"
    and "load api_memory 71088 30 = wire (memclnt_create_v2_reply_sval create_answer) False"
    and "load api_memory 71072 8 = replicate 8 0"
    and "load api_memory 71200 56 = encode_table api_ids"
proof -
  note sizes = api_ids_length create_answer_length
  show "region_header_at api_memory 65536 = api_header"
    by (simp add: api_memory_def region_header_other region_header_image header_in_range_def sizes api_header_def sample_header_def
        usize_bound_def)
  show "mem_heap_at api_memory 65792 = \<lparr>mh_base = 69632, mh_mspace = 0, mh_size = 1024\<rparr>"
      "mem_heap_at api_memory 65824 = \<lparr>mh_base = 70656, mh_mspace = 0, mh_size = 3072\<rparr>"
    by (simp_all add: api_memory_def mem_heap_other mem_heap_image sizes usize_bound_def)
  show "load api_memory 71080 4 = be_bytes 4 (30 :: u32)" "load api_memory 71088 30 = wire (memclnt_create_v2_reply_sval create_answer) False"
      "load api_memory 71200 56 = encode_table api_ids"
    using sizes by (simp_all add: api_memory_def load_store_other load_store_at)
  show "load api_memory 71072 8 = replicate 8 0"
    using sizes by (simp add: api_memory_def load_store_other load_zeros)
  show "shmem_header_at api_memory 70656 = \<lparr>sh_version = 2, sh_server_pid = 0, sh_input_queue = 70912\<rparr>"
    by (simp add: shmem_header_at_def api_memory_def load_word_other load_store_other sizes load_store_inside load_word_inside
        usize_bound_def)
qed

section \<open>The environment\<close>

text \<open>The server posts its answer when the client first gets the mutex of its own queue, the one with the client's pid.\<close>

definition answered :: "svm_queue \<Rightarrow> svm_queue" where
  "answered q =
     (if q_consumer_pid q = 77 \<and> q_cursize q = 0 \<and> element_size q = 8 then write_one (to_ne_bytes 8 (71088 :: u64)) q else q)"

definition api_env :: "(usize \<times> (usize \<rightharpoonup> usize), nat) client_env" where
  "api_env = still_env
     \<lparr>ce_mspace := bump_mspace 73728, ce_queue := still_queue_env\<lparr>mutex_lock := (\<lambda>_ (q, l). (Standard, answered q, l))\<rparr>,
      ce_backing := (\<lambda>_. (None, Inr 8192, Inr (header_image api_header), sample_calls)), ce_pid := 77\<rparr>"

definition api_blocks :: "usize \<rightharpoonup> usize" where
  "api_blocks = [70656 \<mapsto> 128, 70912 \<mapsto> 144, 71072 \<mapsto> 48, 71200 \<mapsto> 64]"

definition api_link :: "svm_queue \<Rightarrow> (usize \<times> (usize \<rightharpoonup> usize), nat) link" where
  "api_link server = \<lparr>ln_heap = ((71400, api_blocks), api_memory), ln_queues = (\<lambda>_. server), ln_world = 0\<rparr>"

lemma answered_keeps: "keeps q (answered q)"
proof (cases "q_consumer_pid q = 77 \<and> q_cursize q = 0 \<and> element_size q = 8")
  case True
  then have "queue_inv q \<Longrightarrow> queue_inv (answered q)"
    using write_one_inv [of q "to_ne_bytes 8 (71088 :: u64)"] queue_invD(1) [of q] by (simp add: answered_def)
  then show ?thesis by (simp add: keeps_def answered_def)
qed (auto simp: keeps_def answered_def)

lemma api_env_queues: "env_ok (ce_queue api_env)" "world_kept ln_heap (ce_queue api_env)"
    "\<And>st. ln_heap (snd (mutex_unlock (ce_queue api_env) st)) = ln_heap (snd st)"
  by (auto simp: env_ok_def world_kept_def api_env_def still_queue_env_def answered_keeps)

lemma api_env_ok: "client_env_ok api_env (bump_good 70656 73728) snd 70656 73728"
  using api_env_queues bump_mspace_ok [of 73728 70656] by (simp add: client_env_ok_def api_env_def)

lemma api_attach: "attach_at api_env [] (api_link q) = Inr api_region"
proof -
  have image: "region_header_at (store (\<lambda>_. 0) 0 (header_image api_header)) 0 = api_header"
    by (intro region_header_image) (simp add: header_in_range_def api_header_def sample_header_def usize_bound_def)
  have flags: "flags_contain data_heap_flag data_heap_flag" "\<not> flags_contain data_heap_flag nodata_flag"
      "data_heap_flag AND NOT public_flags = 0"
    by (simp_all add: flags_contain_def data_heap_flag_def nodata_flag_def public_flags_def)
  have fields: "rh_version api_header = svm_region_version" "rh_flags api_header = data_heap_flag" "rh_virtual_base api_header = 65536"
      "rh_virtual_size api_header = 8192" "rh_pvt_heap api_header = 65792" "rh_data_heap api_header = 65824"
    by (simp_all add: api_header_def sample_header_def)
  have valid: "validate_region \<lparr>rg_base = 65536, rg_size = 8192\<rparr> api_memory 4096 = Inr ()"
    using api_memory_reads(1-3) flags
    by (simp add: validate_region_def validate_data_heap_def fields add_usize_def checked_add_def heap_deref_def
        contains_range_iff mem_heap_bytes_def usize_bound_def svm_region_version_def)
  show ?thesis
    using image valid
    by (simp add: attach_at_def api_env_def still_env_def attach_region_def probe_backing_def region_header_bytes_def Let_def
        map_fixed_backing_def sample_calls_def fields api_link_def api_region_def) (simp add: svm_region_version_def)
qed

lemma api_user_context: "user_context api_region api_memory = Some 70656"
  using api_memory_reads(1) by (simp add: user_context_def api_region_def api_header_def)

section \<open>Up to the request\<close>

text \<open>The client's new queue, and the link once it is there.\<close>

definition own_queue :: svm_queue where
  "own_queue = (word_queue 0 [])\<lparr>q_consumer_pid := 77\<rparr>"

definition own_memory :: memory where
  "own_memory = store api_memory 71424 (replicate 144 0)"

definition own_link :: "svm_queue \<Rightarrow> (usize \<times> (usize \<rightharpoonup> usize), nat) link" where
  "own_link server =
     \<lparr>ln_heap = ((71569, api_blocks(71424 \<mapsto> 144)), own_memory), ln_queues = (\<lambda>_. server)(71424 := own_queue), ln_world = 0\<rparr>"

lemma own_allocated: "allocate_client_queue api_env 3 (api_link server) = Some (Inr 71424, own_link server)"
proof -
  let ?config = "\<lparr>cfg_nels = 3, cfg_elsize = (8 :: u32), cfg_consumer_pid = (77 :: u32)\<rparr>"
  have size: "size_to_alloc ?config = Inr 144"
    by (simp add: size_to_alloc_def validate_config_def checked_mul_def checked_add_def queue_header_size_def usize_bound_def)
  have "is_power_of_two 64"
    unfolding is_power_of_two_def by (auto simp: image_iff intro!: bexI [of _ 6])
  then have lay: "from_size_align 144 64 = Some \<lparr>lay_size = 144, lay_align = 64\<rparr>"
    by (simp add: from_size_align_def)
  have alloc: "allocate_zeroed (bump_mspace 73728) \<lparr>lay_size = 144, lay_align = 64\<rparr> ((71400, api_blocks), api_memory) =
      ((Inr (Some 71424) :: queue_error fault + usize option), (71569, api_blocks(71424 \<mapsto> 144)), own_memory)"
    using lay by (simp add: allocate_zeroed_def allocate_def min_heap_alignment_def bump_mspace_def own_memory_def)
  have "load own_memory 71544 24 = replicate 24 0"
    by (simp add: own_memory_def load_store_inside)
  then have "queue_init 71424 ?config (load own_memory 71544 24) = Inr own_queue"
    by (simp add: queue_init_def cache_line_bytes_def size own_queue_def word_queue_def)
  then show ?thesis
    using size lay alloc
    by (simp add: allocate_client_queue_def api_env_def bindc_def lift_res_def on_heap_def api_link_def own_link_def
        queue_header_size_def ok_or_def still_env_def)
qed

lemma api_prepared:
  assumes "queue_inv server" "capacity server = 3" "element_size server = 8"
  shows "prepared api_env [] 3 (api_link server) api_region 70656 (api_link server) 71424 (own_link server)"
proof -
  have "queue_attach 70912 2816 server = Inr ()"
    using assms queue_invD [OF assms(1)] by (simp add: queue_attach_iff)
  then have "validate_shmem api_region api_memory (\<lambda>_. server) 70656 = Inr (shmem_header_at api_memory 70656)"
    using assms by (simp add: validate_shmem_def api_memory_reads(4) api_region_def contains_range_iff shmem_header_bytes_def
        queue_header_size_def shmem_version_def usize_bound_def)
  moreover have "attach_loop api_env [] d (api_link server) = Some (Inr api_region, api_link server)" for d
    by (subst attach_loop.simps) (simp add: api_attach)
  moreover have "header_loop api_env [] d api_region (api_link server) = Some (Inr 70656, api_link server)" for d
    by (subst header_loop.simps) (simp add: api_link_def api_user_context)
  ultimately show ?thesis
    using own_allocated [of server] by (auto simp: prepared_def api_link_def)
qed

section \<open>The request\<close>

abbreviation api_client :: client where
  "api_client \<equiv> connecting api_region 70656 71424 False"

abbreviation create_message :: sval where
  "create_message \<equiv> memclnt_create_v2_sval (create_request ''cli'' api_client)"

definition request_memory :: memory where
  "request_memory =
     store (store (store (store (store own_memory 71576 (replicate 131 0)) 71576 (replicate 8 0)) 71588 (replicate 4 0)) 71584
       (be_bytes 4 (115 :: u32))) 71592 (wire create_message False)"

lemma request_memory_below: "p + n \<le> 71424 \<Longrightarrow> load request_memory p n = load api_memory p n"
  by (simp add: request_memory_def own_memory_def load_store_other)

text \<open>The link once the request is in the heap, and about to be queued.\<close>

definition request_link :: "svm_queue \<Rightarrow> (usize \<times> (usize \<rightharpoonup> usize), nat) link" where
  "request_link server = (own_link server)
     \<lparr>ln_heap := ((71708, api_blocks(71424 \<mapsto> 144, 71576 \<mapsto> 131)), request_memory)\<rparr>"

lemma create_length: "serialized_len create_message = Inr 115"
  using message_sizes(1) [OF create_request_ok] has_ty_encodable [OF memclnt_create_v2.to_sval_typed [OF create_request_ok]]
  by (simp add: serialized_len_Inr usize_bound_def)

lemma request_sent:
  "send_message api_env api_client create_message (own_link server) =
    (case queue_add_at api_env 70912 (to_ne_bytes 8 (71592 :: u64)) (request_link server) of
       None \<Rightarrow> None
     | Some (Inr _, l') \<Rightarrow> Some (Inr (), l')
     | Some (Inl e, l') \<Rightarrow>
         if committed e Add then Some (Inr (), l')
         else bindc (free_message api_env \<lparr>mb_payload = 71592, mb_payload_len = 115, mb_initialized_len = 115\<rparr>)
           (\<lambda>_. fail (of_fault ClientQueue e)) l')"
proof -
  let ?b = "\<lparr>mb_payload = 71576 + 16, mb_payload_len = 115, mb_initialized_len = 0\<rparr>"
  let ?m1 = "store (store (store (store own_memory 71576 (replicate 131 0)) 71576 (replicate 8 0)) 71588 (replicate 4 0)) 71584
       (be_bytes 4 (115 :: u32))"
  have layout: "msg_layout 115 = (Inr \<lparr>lay_size = 131, lay_align = 8\<rparr> :: memory_error fault + layout)"
    by (simp add: msg_layout_Inr)
  have fits: "from_size_align 131 (max 8 min_heap_alignment) = Some \<lparr>lay_size = 131, lay_align = 8\<rparr>"
    using layout
    by (simp add: msg_layout_def msg_prefix_def min_heap_alignment_def ok_or_def split: if_splits option.splits)
  have zeroed: "allocate_zeroed (ce_mspace api_env) \<lparr>lay_size = 131, lay_align = 8\<rparr> ((71569, api_blocks(71424 \<mapsto> 144)), own_memory) =
      ((Inr (Some 71576) :: memory_error fault + usize option), (71708, api_blocks(71424 \<mapsto> 144, 71576 \<mapsto> 131)),
       store own_memory 71576 (replicate 131 0))"
    by (simp add: allocate_zeroed_def allocate_def fits) (simp add: api_env_def bump_mspace_def)
  have alloc: "msg_allocate (ce_mspace api_env) 115 ((71569, api_blocks(71424 \<mapsto> 144)), own_memory) =
      (Inr ?b, (71708, api_blocks(71424 \<mapsto> 144, 71576 \<mapsto> 131)), ?m1)"
    by (simp add: msg_allocate_def layout zeroed msg_prefix_def msg_timestamp_offset_def msg_length_offset_def Let_def)
  have heap: "ln_heap (own_link server) = ((71569, api_blocks(71424 \<mapsto> 144)), own_memory)" by (simp add: own_link_def)
  have a: "input_queue_of api_client request_memory = 70912"
    using api_memory_reads(4) request_memory_below by (simp add: shmem_header_at_def load_word_def)
  have m: "request_memory = store ?m1 (71576 + 16) (wire create_message False)" by (simp add: request_memory_def)
  have sum: "71576 + 16 = (71592 :: nat)" by simp
  show ?thesis
    unfolding send_to_queue [OF create_length heap alloc refl m] a sum request_link_def by simp
qed

lemma server_refuses:
  assumes "element_size server = 8" "q_cursize server = q_maxsize server" "q_consumer_pid server \<noteq> 77"
  shows "\<exists>e l'. send_message api_env api_client create_message (own_link server) = Some (Inl e, l')"
proof -
  have "queue_add_at api_env 70912 (to_ne_bytes 8 (71592 :: u64)) (request_link server) = Some (Inl (Err QueueFull), request_link server)"
    using assms
    by (simp add: queue_add_at_def queue_add_def lock_for_def try_lock_def acquire_def add_nolock_def wait_until.simps
        await_change_def release_def validate_element_def validate_element_length_def api_env_def still_queue_env_def answered_def
        request_link_def own_link_def fun_upd_idem)
  then show ?thesis
    unfolding request_sent
    by (cases "msg_free (ce_mspace api_env) \<lparr>mb_payload = 71592, mb_payload_len = 115, mb_initialized_len = 115\<rparr>
          (ln_heap (request_link server)) :: (memory_error fault + unit) \<times> _")
      (auto simp: committed_def bindc_def free_message_def on_heap_def fail_def map_err_def split: sum.splits)
qed

definition full_queue :: svm_queue where
  "full_queue = (word_queue 0 [])\<lparr>q_cursize := 3, q_tail := 0\<rparr>"

lemma full_queue_ok: "queue_inv full_queue" "capacity full_queue = 3" "element_size full_queue = 8"
    "q_cursize full_queue = q_maxsize full_queue" "q_consumer_pid full_queue \<noteq> 77"
  by (simp_all add: full_queue_def word_queue_def queue_inv_def capacity_def element_size_def)

lemma api_client_ok: "client_ok api_client 70656 73728 api_blocks"
  by (auto simp: client_ok_def api_region_def usize_bound_def shmem_header_bytes_def api_blocks_def)

lemma api_good: "bump_good 70656 73728 (71400, api_blocks)"
  by (auto simp: bump_good_def blocks_ok_def api_blocks_def split: if_splits)

lemma unsent_create_leaks_queue_witness:
  "\<exists>e l4 u. connect api_env ''cli'' [] 3 False (api_link full_queue) = Some (Inl e, l4) \<and>
    snd (fst (ln_heap l4)) = api_blocks(71424 \<mapsto> u) \<and> 144 \<le> u"
proof -
  obtain e l4 where failed: "send_message api_env api_client create_message (own_link full_queue) = Some (Inl e, l4)"
    using server_refuses [OF full_queue_ok(3-5)] by blast
  have good: "bump_good 70656 73728 (fst (ln_heap (api_link full_queue)))"
      "client_ok api_client 70656 73728 (snd (fst (ln_heap (api_link full_queue))))"
      "ln_queues (api_link full_queue) a = full_queue" for a
    using api_good api_client_ok by (simp_all add: api_link_def)
  from unsent_create_leaks_queue [OF api_env_ok api_prepared [OF full_queue_ok(1-3)] good(1) refl good(2), of "''cli''" e l4]
  show ?thesis
    using failed full_queue_ok(1,3) good(3) by (auto simp: api_link_def)
qed

section \<open>The answer\<close>

definition waiting_link :: "(usize \<times> (usize \<rightharpoonup> usize), nat) link" where
  "waiting_link = (request_link (word_queue 0 []))\<lparr>ln_queues :=
     (ln_queues (request_link (word_queue 0 [])))(70912 := write_one (to_ne_bytes 8 (71592 :: u64)) (word_queue 0 []))\<rparr>"

abbreviation answer_buf :: msg_buf where
  "answer_buf \<equiv> \<lparr>mb_payload = 71088, mb_payload_len = 30, mb_initialized_len = 30\<rparr>"

lemma idle_queue_ok: "queue_inv (word_queue 0 [])" "capacity (word_queue 0 []) = 3" "element_size (word_queue 0 []) = 8"
  using word_queue_inv by (simp_all add: word_queue_def capacity_def element_size_def)

lemma server_accepts: "send_message api_env api_client create_message (own_link (word_queue 0 [])) = Some (Inr (), waiting_link)"
proof -
  have q: "q_cursize (word_queue 0 []) = 0" "q_maxsize (word_queue 0 []) = 3" "q_consumer_pid (word_queue 0 []) = 1"
      "\<And>e. q_producer_evtfd (write_one e (word_queue 0 [])) = - 1"
    by (simp_all add: word_queue_def write_one_def Let_def)
  have "queue_add_at api_env 70912 (to_ne_bytes 8 (71592 :: u64)) (request_link (word_queue 0 [])) = Some (Inr (), waiting_link)"
    using q idle_queue_ok(3)
    by (simp add: queue_add_at_def queue_add_def lock_for_def try_lock_def acquire_def add_nolock_def wait_until.simps
        release_def signal_def validate_element_def validate_element_length_def api_env_def still_queue_env_def answered_def
        waiting_link_def request_link_def own_link_def)
  then show ?thesis unfolding request_sent by simp
qed

lemma own_queue_answered:
  "ln_queues waiting_link 71424 = own_queue" "element_size own_queue = 8" "queue_inv (answered own_queue)"
  "contents (answered own_queue) = [to_ne_bytes 8 (71088 :: u64)]" "capacity (answered own_queue) = 3"
proof -
  have inv: "queue_inv own_queue" "contents own_queue = []" "element_size own_queue = 8" "capacity own_queue = 3"
      "q_consumer_pid own_queue = 77" "q_cursize own_queue = 0"
    by (simp_all add: own_queue_def word_queue_def queue_inv_def capacity_def element_size_def contents_def)
  then have "answered own_queue = write_one (to_ne_bytes 8 (71088 :: u64)) own_queue" by (simp add: answered_def)
  then show "queue_inv (answered own_queue)" "contents (answered own_queue) = [to_ne_bytes 8 (71088 :: u64)]"
      "capacity (answered own_queue) = 3" "element_size own_queue = 8"
    using inv write_one_inv [OF inv(1), of "to_ne_bytes 8 (71088 :: u64)"]
      write_one_contents [OF inv(1), of "to_ne_bytes 8 (71088 :: u64)"] by simp_all
  show "ln_queues waiting_link 71424 = own_queue"
    by (simp add: waiting_link_def request_link_def own_link_def)
qed

lemma answer_read:
  shows "msg_from_address api_region request_memory (unat (71088 :: u64)) = Inr answer_buf"
    and "load request_memory 71088 30 = wire (memclnt_create_v2_reply_sval create_answer) False"
    and "msg_free (ce_mspace api_env) answer_buf (ln_heap waiting_link) =
      ((Inr () :: memory_error fault + unit), (71708, (api_blocks(71424 \<mapsto> 144, 71576 \<mapsto> 131))(71072 := None)), request_memory)"
proof -
  note reads = api_memory_reads(5-7) and below = request_memory_below
  show "msg_from_address api_region request_memory (unat (71088 :: u64)) = Inr answer_buf"
    using reads(1) by (simp add: msg_from_address_def api_region_def msg_prefix_def msg_length_offset_def contains_range_iff
        usize_bound_def be_roundtrip_widths checked_sub_def below)
  show "load request_memory 71088 30 = wire (memclnt_create_v2_reply_sval create_answer) False"
    using reads(2) by (simp add: below)
  have layout: "msg_layout 30 = (Inr \<lparr>lay_size = 46, lay_align = 8\<rparr> :: memory_error fault + layout)"
    by (simp add: msg_layout_Inr)
  show "msg_free (ce_mspace api_env) answer_buf (ln_heap waiting_link) =
      ((Inr () :: memory_error fault + unit), (71708, (api_blocks(71424 \<mapsto> 144, 71576 \<mapsto> 131))(71072 := None)), request_memory)"
    using reads(3) layout
    by (simp add: msg_free_def waiting_link_def request_link_def msg_prefix_def load_word_def below deallocate_def
        is_heap_object_def api_env_def bump_mspace_def)
qed

lemma table_read: "\<exists>bs. remaining_from api_region request_memory 71200 = Some (encode_table api_ids @ bs)"
proof -
  have "load request_memory 71200 (56 + 2472) = encode_table api_ids @ load request_memory 71256 2472"
    using api_memory_reads(8) by (simp only: load_append) (simp add: request_memory_below)
  then show ?thesis by (simp add: remaining_from_Some api_region_def usize_bound_def)
qed

lemma connect_registers_witness:
  "\<exists>l'. connect api_env ''cli'' [] 3 False (api_link (word_queue 0 [])) =
      Some (Inr (api_client\<lparr>cl_message_ids := map_of (rev api_ids), cl_client_index := Some 7\<rparr>), l') \<and>
    contents (ln_queues l' 71424) = []"
proof -
  obtain bs where table: "remaining_from api_region request_memory 71200 = Some (encode_table api_ids @ bs)"
    using table_read by blast
  let ?h = "((71708, (api_blocks(71424 \<mapsto> 144, 71576 \<mapsto> 131))(71072 := None)), request_memory)"
  have heap: "ln_memory waiting_link = request_memory" by (simp add: waiting_link_def request_link_def)
  have own: "element_size (ln_queues waiting_link 71424) = 8"
      "mutex_lock (ce_queue api_env) True (ln_queues waiting_link 71424, waiting_link) = (Standard, answered own_queue, waiting_link)"
      "length (contents (answered own_queue)) < capacity (answered own_queue)"
    using own_queue_answered by (simp_all add: api_env_def still_queue_env_def del: length_contents)
  have answer: "mcr_id create_answer = memclnt_create_v2_reply_id" "0 \<le> sint (mcr_response create_answer)"
      "load (ln_memory waiting_link) (mb_payload answer_buf) (mb_payload_len answer_buf) = wire (memclnt_create_v2_reply_sval create_answer) False"
      "msg_from_address api_region (ln_memory waiting_link) (unat (71088 :: u64)) = Inr answer_buf"
    using answer_read by (simp_all add: create_answer_def heap)
  have ids: "remaining_from api_region (snd ?h) (unat (mcr_message_table create_answer)) = Some (encode_table api_ids @ bs)"
      "\<forall>e\<in>set api_ids. rust_str (fst e) \<and> length (fst e) < usize_bound" "length api_ids < 2 ^ 32"
    using table by (simp_all add: create_answer_def api_ids_def utf8_valid_ascii byte_of_char_def usize_bound_def)
  from connect_registers [OF api_env_queues(1,3) api_prepared [OF idle_queue_ok] refl server_accepts own(1,2)
      own_queue_answered(3,4) own(3) answer(1,2,4,3) answer_read(3) ids]
  show ?thesis by (auto simp: create_answer_def)
qed

section \<open>Leaving\<close>

text \<open>The connected client, with the answer to its delete request in its queue.\<close>

definition leaving_env :: "(usize \<times> (usize \<rightharpoonup> usize), nat) client_env" where
  "leaving_env = still_env\<lparr>ce_mspace := bump_mspace 73728\<rparr>"

definition leaving_client :: client where
  "leaving_client = api_client
     \<lparr>cl_client_index := Some 7,
      cl_message_ids := [name_crc_const memclnt_delete_api \<mapsto> 21, name_crc_const memclnt_delete_reply_api \<mapsto> 22]\<rparr>"

definition delete_answer :: memclnt_delete_reply where
  "delete_answer = \<lparr>mdr_id = 22, mdr_response = 0, mdr_handle = 0\<rparr>"

definition leaving_memory :: memory where
  "leaving_memory = store (store (store (\<lambda>_. 0) 70664 (word_image 70912)) 71080 (be_bytes 4 (14 :: u32))) 71088
     (wire (memclnt_delete_reply_sval delete_answer) False)"

definition leaving_link :: "(usize \<times> (usize \<rightharpoonup> usize), nat) link" where
  "leaving_link =
     \<lparr>ln_heap = ((71576, api_blocks(71424 \<mapsto> 144)), leaving_memory),
      ln_queues = (\<lambda>_. word_queue 0 [])(71424 := word_queue 1 (to_ne_bytes 8 (71088 :: u64))), ln_world = 0\<rparr>"

abbreviation delete_message :: sval where
  "delete_message \<equiv> memclnt_delete_sval (delete_request 21 7)"

definition left_memory :: memory where
  "left_memory = store (store (store (store (store leaving_memory 71576 (replicate 31 0)) 71576 (replicate 8 0)) 71588 (replicate 4 0)) 71584
       (be_bytes 4 (15 :: u32))) 71592 (wire delete_message False)"

definition left_link :: "(usize \<times> (usize \<rightharpoonup> usize), nat) link" where
  "left_link = leaving_link
     \<lparr>ln_heap := ((71608, api_blocks(71424 \<mapsto> 144, 71576 \<mapsto> 31)), left_memory),
      ln_queues := (ln_queues leaving_link)(70912 := write_one (to_ne_bytes 8 (71592 :: u64)) (word_queue 0 []))\<rparr>"

abbreviation delete_buf :: msg_buf where
  "delete_buf \<equiv> \<lparr>mb_payload = 71088, mb_payload_len = 14, mb_initialized_len = 14\<rparr>"

lemma left_memory_reads:
  shows "load left_memory 70664 8 = word_image 70912"
    and "load left_memory 71080 4 = be_bytes 4 (14 :: u32)"
    and "load left_memory 71088 14 = wire (memclnt_delete_reply_sval delete_answer) False"
    and "load left_memory 71072 8 = replicate 8 0"
proof -
  have below: "load left_memory p n = load leaving_memory p n" if "p + n \<le> 71576" for p n
    using that by (simp add: left_memory_def load_store_other)
  have len: "length (wire (memclnt_delete_reply_sval delete_answer) False) = 14" by (rule message_sizes(4))
  show "load left_memory 70664 8 = word_image 70912" "load left_memory 71080 4 = be_bytes 4 (14 :: u32)"
      "load left_memory 71088 14 = wire (memclnt_delete_reply_sval delete_answer) False"
      "load left_memory 71072 8 = replicate 8 0"
    using len by (simp_all add: below leaving_memory_def load_store_other load_store_at load_zeros)
qed

lemma delete_sent: "send_message leaving_env leaving_client delete_message leaving_link = Some (Inr (), left_link)"
proof -
  let ?b = "\<lparr>mb_payload = 71576 + 16, mb_payload_len = 15, mb_initialized_len = 0\<rparr>"
  let ?m1 = "store (store (store (store leaving_memory 71576 (replicate 31 0)) 71576 (replicate 8 0)) 71588 (replicate 4 0)) 71584
       (be_bytes 4 (15 :: u32))"
  have len: "serialized_len delete_message = Inr 15"
    using message_sizes(3) has_ty_encodable [OF memclnt_delete.to_sval_typed [OF TrueI]] by (simp add: serialized_len_Inr usize_bound_def)
  have layout: "msg_layout 15 = (Inr \<lparr>lay_size = 31, lay_align = 8\<rparr> :: memory_error fault + layout)"
    by (simp add: msg_layout_Inr)
  have fits: "from_size_align 31 (max 8 min_heap_alignment) = Some \<lparr>lay_size = 31, lay_align = 8\<rparr>"
    using layout
    by (simp add: msg_layout_def msg_prefix_def min_heap_alignment_def ok_or_def split: if_splits option.splits)
  have zeroed: "allocate_zeroed (ce_mspace leaving_env) \<lparr>lay_size = 31, lay_align = 8\<rparr> ((71576, api_blocks(71424 \<mapsto> 144)), leaving_memory) =
      ((Inr (Some 71576) :: memory_error fault + usize option), (71608, api_blocks(71424 \<mapsto> 144, 71576 \<mapsto> 31)),
       store leaving_memory 71576 (replicate 31 0))"
    by (simp add: allocate_zeroed_def allocate_def fits) (simp add: leaving_env_def bump_mspace_def)
  have alloc: "msg_allocate (ce_mspace leaving_env) 15 ((71576, api_blocks(71424 \<mapsto> 144)), leaving_memory) =
      (Inr ?b, (71608, api_blocks(71424 \<mapsto> 144, 71576 \<mapsto> 31)), ?m1)"
    by (simp add: msg_allocate_def layout zeroed msg_prefix_def msg_timestamp_offset_def msg_length_offset_def Let_def)
  have heap: "ln_heap leaving_link = ((71576, api_blocks(71424 \<mapsto> 144)), leaving_memory)" by (simp add: leaving_link_def)
  have a: "input_queue_of leaving_client left_memory = 70912"
    using left_memory_reads(1) by (simp add: shmem_header_at_def load_word_def leaving_client_def usize_bound_def)
  have m: "left_memory = store ?m1 (71576 + 16) (wire delete_message False)" by (simp add: left_memory_def)
  have q: "q_cursize (word_queue 0 []) = 0" "q_maxsize (word_queue 0 []) = 3" "\<And>e. q_producer_evtfd (write_one e (word_queue 0 [])) = - 1"
    by (simp_all add: word_queue_def write_one_def Let_def)
  have "queue_add_at leaving_env 70912 (to_ne_bytes 8 (71592 :: u64))
      (leaving_link\<lparr>ln_heap := ((71608, api_blocks(71424 \<mapsto> 144, 71576 \<mapsto> 31)), left_memory)\<rparr>) = Some (Inr (), left_link)"
    using q idle_queue_ok(3)
    by (simp add: queue_add_at_def queue_add_def lock_for_def try_lock_def acquire_def add_nolock_def wait_until.simps
        release_def signal_def validate_element_def validate_element_length_def leaving_env_def still_env_def still_queue_env_def
        left_link_def leaving_link_def)
  then show ?thesis
    using send_to_queue [OF len heap alloc refl m] a by simp
qed

lemma delete_identities:
  "name_crc_const memclnt_delete_api \<noteq> name_crc_const memclnt_delete_reply_api"
  by (simp add: name_crc_const_def api_name_crc_def message_crcs name_crc_def hex_digits_def first_eight)
    (simp add: message_api_defs)

lemma leaving_client_ok: "ignores_keepalives leaving_client" "cl_client_index leaving_client = Some 7"
    "client_message_id leaving_client (name_crc_const memclnt_delete_api) = Some 21"
    "client_message_id leaving_client (name_crc_const memclnt_delete_reply_api) = Some (mdr_id delete_answer)"
    "cl_input_queue leaving_client = 71424" "cl_region leaving_client = api_region"
  using delete_identities
  by (simp_all add: leaving_client_def ignores_keepalives_def client_message_id_def delete_answer_def)
    (simp_all add: connecting_def)

lemma delete_read:
  shows "msg_from_address api_region (ln_memory left_link) (unat (71088 :: u64)) = Inr delete_buf"
    and "load (ln_memory left_link) (mb_payload delete_buf) (mb_payload_len delete_buf) = wire (memclnt_delete_reply_sval delete_answer) False"
    and "msg_free (ce_mspace leaving_env) delete_buf (ln_heap left_link) =
      ((Inr () :: memory_error fault + unit), (71608, (api_blocks(71424 \<mapsto> 144, 71576 \<mapsto> 31))(71072 := None)), left_memory)"
proof -
  note reads = left_memory_reads(2-4)
  show "msg_from_address api_region (ln_memory left_link) (unat (71088 :: u64)) = Inr delete_buf"
    using reads(1) by (simp add: left_link_def msg_from_address_def api_region_def msg_prefix_def msg_length_offset_def
        contains_range_iff usize_bound_def be_roundtrip_widths checked_sub_def)
  show "load (ln_memory left_link) (mb_payload delete_buf) (mb_payload_len delete_buf) = wire (memclnt_delete_reply_sval delete_answer) False"
    using reads(2) by (simp add: left_link_def)
  have layout: "msg_layout 14 = (Inr \<lparr>lay_size = 30, lay_align = 8\<rparr> :: memory_error fault + layout)"
    by (simp add: msg_layout_Inr)
  show "msg_free (ce_mspace leaving_env) delete_buf (ln_heap left_link) =
      ((Inr () :: memory_error fault + unit), (71608, (api_blocks(71424 \<mapsto> 144, 71576 \<mapsto> 31))(71072 := None)), left_memory)"
    using reads(3) layout
    by (simp add: msg_free_def left_link_def msg_prefix_def load_word_def deallocate_def is_heap_object_def leaving_env_def bump_mspace_def)
qed

lemma leaving_queue: "queue_inv (word_queue 1 (to_ne_bytes 8 (71088 :: u64)))"
    "contents (word_queue 1 (to_ne_bytes 8 (71088 :: u64))) = [to_ne_bytes 8 (71088 :: u64)]"
    "element_size (word_queue 1 (to_ne_bytes 8 (71088 :: u64))) = 8" "capacity (word_queue 1 (to_ne_bytes 8 (71088 :: u64))) = 3"
  by (simp_all add: word_queue_def queue_inv_def capacity_def element_size_def contents_def slot_bytes_def)

lemma left_good: "bump_good 70656 73728 (71608, (api_blocks(71424 \<mapsto> 144, 71576 \<mapsto> 31))(71072 := None))"
  by (auto simp: bump_good_def blocks_ok_def api_blocks_def split: if_splits)

lemma disconnect_releases_witness:
  "\<exists>l'. disconnect leaving_env leaving_client leaving_link =
      Some (Inr (), leaving_client\<lparr>cl_client_index := None, cl_message_ids := Map.empty\<rparr>, l') \<and>
    snd (fst (ln_heap l')) = (api_blocks(71424 \<mapsto> 144, 71576 \<mapsto> 31))(71072 := None, 71424 := None)"
proof -
  have env: "env_ok (ce_queue leaving_env)" "\<And>st. ln_heap (snd (mutex_unlock (ce_queue leaving_env) st)) = ln_heap (snd st)"
      "mspace_ok (ce_mspace leaving_env) (bump_good 70656 73728) snd 70656 73728"
    using ping_env bump_mspace_ok [of 73728 70656] by (simp_all add: leaving_env_def)
  have queue: "element_size (ln_queues left_link (cl_input_queue leaving_client)) = 8"
      "mutex_lock (ce_queue leaving_env) True (ln_queues left_link (cl_input_queue leaving_client), left_link) =
        (Standard, word_queue 1 (to_ne_bytes 8 (71088 :: u64)), left_link)"
      "length (contents (word_queue 1 (to_ne_bytes 8 (71088 :: u64)))) < capacity (word_queue 1 (to_ne_bytes 8 (71088 :: u64)))"
    using leaving_queue
    by (simp_all add: leaving_client_ok left_link_def leaving_link_def leaving_env_def still_env_def still_queue_env_def del: length_contents)
  have heap: "snd (71608 :: nat, (api_blocks(71424 \<mapsto> 144, 71576 \<mapsto> 31))(71072 := None)) (cl_input_queue leaving_client) \<noteq> None"
      "0 \<le> sint (mdr_response delete_answer)"
    by (simp_all add: leaving_client_ok delete_answer_def)
  note left = disconnect_releases [OF env, OF leaving_client_ok(1-4), OF delete_sent, OF queue(1,2) leaving_queue(1,2) queue(3)]
  from left [OF delete_read(1) [folded leaving_client_ok(6)] delete_read(2,3) heap(2), OF left_good heap(1)]
  show ?thesis by (simp add: leaving_client_ok)
qed

end
