(* ===== verification/Svm_Queue_Steps.thy ===== *)
theory Svm_Queue_Steps
  imports Svm_Queue
begin

text \<open>
  Several processes on one queue. Every operation of \<^verbatim>\<open>queue.rs\<close> works under the shared mutex, so a run of the
  system is a sequence of whole operations, run by the code's own definitions, and of processes that start or stop
  waiting. The world of the operations holds the processes asleep on the condition variable; a successful
  \<^verbatim>\<open>notify_all\<close> wakes all of them, a write to an event descriptor none. A process that waits in event mode spins
  until the occupancy differs from the one it saw.
\<close>

section \<open>Requests\<close>

datatype request = AddReq bytes | Add2Req bytes bytes | SubReq

record waiters =
  wt_asleep :: "nat \<rightharpoonup> request"
  wt_events :: "u32 \<Rightarrow> nat"

text \<open>
  What \<^verbatim>\<open>notify_all\<close> and \<^verbatim>\<open>write\<close> answer is chosen per operation; a write that is accepted in full counts on its
  descriptor.
\<close>

definition site_env :: "posix_error option \<Rightarrow> int \<times> posix_error \<Rightarrow> waiters queue_env" where
  "site_env notified written =
     \<lparr>mutex_lock = (\<lambda>_ st. (Standard, st)), mutex_unlock = (\<lambda>st. st),
      condvar_wait = (\<lambda>_ st. (Woken Notified, st)),
      notify_all = (\<lambda>st. (notified, fst st, if notified = None then (snd st)\<lparr>wt_asleep := Map.empty\<rparr> else snd st)),
      event_write = (\<lambda>fd _ st. (written, fst st,
        if fst written = 8 then (snd st)\<lparr>wt_events := (wt_events (snd st))(fd := wt_events (snd st) fd + 1)\<rparr> else snd st)),
      others = (\<lambda>st. st), now = (\<lambda>_. 0)\<rparr>"

fun perform :: "request \<Rightarrow> 'w queue_env \<Rightarrow> conditional_wait \<Rightarrow> svm_queue \<times> 'w \<Rightarrow> ('w, unit) outcome option" where
  "perform (AddReq e) env mode st = queue_add env e mode st"
| "perform (Add2Req a b) env mode st = queue_add2 env a b mode st"
| "perform SubReq env mode st = map_option fst (queue_sub env (element_size (fst st)) mode st)"

text \<open>A request can run when the code, told not to wait, does not refuse it as full or empty.\<close>

definition can_run :: "request \<Rightarrow> svm_queue \<Rightarrow> bool" where
  "can_run r q \<longleftrightarrow>
     (case perform r solo_env Nowait (q, ()) of
        Some (Inl (Err QueueFull), _) \<Rightarrow> False
      | Some (Inl (Err Empty), _) \<Rightarrow> False
      | _ \<Rightarrow> True)"

fun request_ok :: "svm_queue \<Rightarrow> request \<Rightarrow> bool" where
  "request_ok q (AddReq e) \<longleftrightarrow> length e = element_size q"
| "request_ok q (Add2Req a b) \<longleftrightarrow> length a = element_size q \<and> length b = element_size q \<and> 2 \<le> capacity q"
| "request_ok q SubReq \<longleftrightarrow> True"

section \<open>Steps\<close>

text \<open>\<open>sh_failed\<close> records that some operation was told its wakeup failed.\<close>

record shared =
  sh_queue :: svm_queue
  sh_waiters :: waiters
  sh_spinning :: "nat \<rightharpoonup> request \<times> u32"
  sh_failed :: bool

definition active :: "shared \<Rightarrow> nat \<Rightarrow> bool" where
  "active s p \<longleftrightarrow> wt_asleep (sh_waiters s) p = None \<and> sh_spinning s p = None"

definition put_to_sleep :: "nat \<Rightarrow> request \<Rightarrow> shared \<Rightarrow> shared" where
  "put_to_sleep p r s = s\<lparr>sh_waiters := (sh_waiters s)\<lparr>wt_asleep := (wt_asleep (sh_waiters s))(p \<mapsto> r)\<rparr>\<rparr>"

definition wake :: "nat \<Rightarrow> shared \<Rightarrow> shared" where
  "wake p s = s\<lparr>sh_waiters := (sh_waiters s)\<lparr>wt_asleep := (wt_asleep (sh_waiters s))(p := None)\<rparr>\<rparr>"

text \<open>
  \<open>wakeup\<close> is a spurious wakeup or a timeout, \<open>leave\<close> the end of the spinning loop and \<open>give_up\<close> its deadline. A
  process that stops waiting is active again and may try its request, as the loop in the code does.
\<close>

inductive step :: "shared \<Rightarrow> shared \<Rightarrow> bool" where
  run: "\<lbrakk>active s p; request_ok (sh_queue s) r; can_run r (sh_queue s);
     perform r (site_env notified written) mode (sh_queue s, sh_waiters s) = Some (res, q', w')\<rbrakk> \<Longrightarrow>
     step s (s\<lparr>sh_queue := q', sh_waiters := w', sh_failed := sh_failed s \<or> res \<noteq> Inr ()\<rparr>)"
| sleep: "\<lbrakk>active s p; request_ok (sh_queue s) r; \<not> can_run r (sh_queue s); \<not> event_mode (sh_queue s)\<rbrakk> \<Longrightarrow>
     step s (put_to_sleep p r s)"
| spin: "\<lbrakk>active s p; request_ok (sh_queue s) r; \<not> can_run r (sh_queue s); event_mode (sh_queue s)\<rbrakk> \<Longrightarrow>
     step s (s\<lparr>sh_spinning := (sh_spinning s)(p \<mapsto> (r, q_cursize (sh_queue s)))\<rparr>)"
| wakeup: "wt_asleep (sh_waiters s) p = Some r \<Longrightarrow> step s (wake p s)"
| leave: "\<lbrakk>sh_spinning s p = Some (r, occupancy); q_cursize (sh_queue s) \<noteq> occupancy\<rbrakk> \<Longrightarrow>
     step s (s\<lparr>sh_spinning := (sh_spinning s)(p := None)\<rparr>)"
| give_up: "sh_spinning s p = Some (r, occupancy) \<Longrightarrow> step s (s\<lparr>sh_spinning := (sh_spinning s)(p := None)\<rparr>)"

inductive reachable :: "shared \<Rightarrow> shared \<Rightarrow> bool" for s0 where
  start: "reachable s0 s0"
| next_step: "reachable s0 s \<Longrightarrow> step s s' \<Longrightarrow> reachable s0 s'"

inductive_cases stepE: "step s s'"

section \<open>What one operation does\<close>

text \<open>The code's operations in closed form: when they run, what they change and whom they signal.\<close>

fun ready :: "request \<Rightarrow> u32 \<Rightarrow> u32 \<Rightarrow> bool" where
  "ready (AddReq e) cursize maxsize \<longleftrightarrow> cursize \<noteq> maxsize"
| "ready (Add2Req a b) cursize maxsize \<longleftrightarrow> \<not> maxsize - cursize < 2"
| "ready SubReq cursize maxsize \<longleftrightarrow> cursize \<noteq> 0"

fun commit :: "request \<Rightarrow> svm_queue \<Rightarrow> svm_queue" where
  "commit (AddReq e) q = write_one e q"
| "commit (Add2Req a b) q = write_one b (write_one a q)"
| "commit SubReq q = snd (read_one q)"

fun signals :: "request \<Rightarrow> svm_queue \<Rightarrow> bool" where
  "signals SubReq q \<longleftrightarrow> q_cursize q = q_maxsize q"
| "signals r q \<longleftrightarrow> q_cursize q = 0"

fun signal_of :: "request \<Rightarrow> bool \<times> queue_operation" where
  "signal_of (AddReq e) = (True, Add)"
| "signal_of (Add2Req a b) = (True, AddPair)"
| "signal_of SubReq = (False, Sub)"

lemma big_enough: "2 \<le> capacity q \<longleftrightarrow> \<not> q_maxsize q < 2"
  by (simp add: capacity_def word_less_nat_alt not_less)

text \<open>An environment in which the mutex is free and unlocking changes nothing.\<close>

definition free_env :: "'w queue_env \<Rightarrow> bool" where
  "free_env env \<longleftrightarrow> (\<forall>b st. mutex_lock env b st = (Standard, st)) \<and> (\<forall>st. mutex_unlock env st = st)"

lemma free_envs: "free_env solo_env" "free_env (site_env notified written)"
  by (simp_all add: free_env_def solo_env_def site_env_def)

lemma free_env_lock:
  assumes "free_env env"
  shows "\<exists>m. lock_for env mode st = (Inr \<lparr>lk_guard = True, lk_wait = m\<rparr>, st)"
    and "release env (lk, res, st) = (res, st)"
proof -
  have "mutex_lock env b st = (Standard, st)" and unlock: "mutex_unlock env st = st" for b
    using assms unfolding free_env_def by blast+
  then show "\<exists>m. lock_for env mode st = (Inr \<lparr>lk_guard = True, lk_wait = m\<rparr>, st)"
    by (cases mode) (simp_all add: lock_for_def lock_def try_lock_def acquire_def)
  show "release env (lk, res, st) = (res, st)"
    by (simp add: release_def unlock)
qed

lemma wait_until_now [simp]: "rdy (fst st) \<Longrightarrow> wait_until env rdy err lk st = Some (lk, Inr (), st)"
  by (simp add: wait_until.simps)

lemma wait_until_refused:
  "\<not> rdy (fst st) \<Longrightarrow> lk_wait lk = Nowait \<Longrightarrow> wait_until env rdy err lk st = Some (lk, Inl (Err err), st)"
  by (simp add: wait_until.simps await_change_def)

lemma perform_ready:
  assumes "free_env env" and "request_ok q r" and "ready r (q_cursize q) (q_maxsize q)"
  shows "perform r env mode (q, w) =
     Some (if signals r q then (case signal_of r of (p, op) \<Rightarrow> signal env p op (commit r q, w)) else (Inr (), commit r q, w))"
proof -
  obtain m where lock: "lock_for env mode (q, w) = (Inr \<lparr>lk_guard = True, lk_wait = m\<rparr>, q, w)"
    using free_env_lock(1) [OF assms(1)] by blast
  note rel = free_env_lock(2) [OF assms(1)]
  have held: "release env (lk, out) = out" for lk and out :: "('a, unit) outcome"
    by (cases out) (simp add: rel)
  show ?thesis
  proof (cases r)
    case (AddReq e)
    with assms lock rel show ?thesis
      by (simp add: queue_add_def add_nolock_def validate_element_def validate_element_length_def held)
  next
    case (Add2Req a b)
    with assms lock rel show ?thesis
      by (simp add: queue_add2_def add2_nolock_def validate_element_def validate_element_length_def held big_enough Let_def)
  next
    case SubReq
    with assms lock rel show ?thesis
      by (simp add: queue_sub_def sub_nolock_def validate_element_length_def held Let_def split_beta)
  qed
qed

lemma perform_refused:
  assumes "free_env env" and "request_ok q r" and "\<not> ready r (q_cursize q) (q_maxsize q)"
  shows "perform r env Nowait (q, w) = Some (Inl (Err (if r = SubReq then Empty else QueueFull)), q, w)"
proof -
  obtain m where lock: "lock_for env Nowait (q, w) = (Inr \<lparr>lk_guard = True, lk_wait = m\<rparr>, q, w)"
    using free_env_lock(1) [OF assms(1)] by blast
  note rel = free_env_lock(2) [OF assms(1)]
  show ?thesis
  proof (cases r)
    case (AddReq e)
    with assms lock rel show ?thesis
      by (simp add: queue_add_def add_nolock_def validate_element_def validate_element_length_def wait_until_refused)
  next
    case (Add2Req a b)
    with assms lock rel show ?thesis
      by (simp add: queue_add2_def add2_nolock_def validate_element_def validate_element_length_def wait_until_refused
          big_enough)
  next
    case SubReq
    with assms lock rel show ?thesis
      by (simp add: queue_sub_def validate_element_length_def wait_until_refused)
  qed
qed

lemma solo_signal [simp]: "signal solo_env p op st = (Inr (), st)"
  by (simp add: signal_def solo_env_def Let_def)

lemma can_run_iff: "request_ok q r \<Longrightarrow> can_run r q \<longleftrightarrow> ready r (q_cursize q) (q_maxsize q)"
proof (cases "ready r (q_cursize q) (q_maxsize q)")
  case True
  assume "request_ok q r"
  then have "perform r solo_env Nowait (q, ()) = Some (Inr (), commit r q, ())"
    using perform_ready [OF free_envs(1) _ True, of Nowait "()"] by (cases "signal_of r") (simp split: if_splits)
  with True show ?thesis by (simp add: can_run_def)
next
  case False
  assume "request_ok q r"
  with False show ?thesis using perform_refused [OF free_envs(1) _ False] by (simp add: can_run_def)
qed

text \<open>Who is woken: everybody on the condition variable, or nobody.\<close>

definition descriptor :: "request \<Rightarrow> svm_queue \<Rightarrow> u32" where
  "descriptor r q = (if r = SubReq then q_consumer_evtfd q else q_producer_evtfd q)"

lemma commit_fields [simp]:
  "element_size (commit r q) = element_size q" "capacity (commit r q) = capacity q" "q_maxsize (commit r q) = q_maxsize q"
  "q_producer_evtfd (commit r q) = q_producer_evtfd q" "q_consumer_evtfd (commit r q) = q_consumer_evtfd q"
  by (cases r; simp add: write_one_def read_one_def Let_def capacity_def element_size_def)+

lemma signal_wakes:
  assumes "signal (site_env notified written) p op (q, w) = (res, q', w')"
  shows "q' = q" and "wt_asleep w' =
     (if sint (if p then q_producer_evtfd q else q_consumer_evtfd q) < 0 \<and> res = Inr () then Map.empty else wt_asleep w)"
  using assms by (auto simp: signal_def site_env_def Let_def split: if_splits option.splits prod.splits)

lemma perform_wakes:
  assumes "request_ok q r" and "ready r (q_cursize q) (q_maxsize q)"
    and "perform r (site_env notified written) mode (q, w) = Some (res, q', w')"
  shows "q' = commit r q"
    and "wt_asleep w' = (if signals r q \<and> sint (descriptor r q) < 0 \<and> res = Inr () then Map.empty else wt_asleep w)"
    and "\<not> signals r q \<Longrightarrow> res = Inr () \<and> w' = w"
proof -
  note out = assms(3) [unfolded perform_ready [OF free_envs(2) assms(1,2)]]
  obtain p op where so: "signal_of r = (p, op)" by (cases "signal_of r")
  then have fd: "(if p then q_producer_evtfd (commit r q) else q_consumer_evtfd (commit r q)) = descriptor r q"
    unfolding commit_fields by (cases r) (auto simp: descriptor_def)
  show "q' = commit r q"
    "wt_asleep w' = (if signals r q \<and> sint (descriptor r q) < 0 \<and> res = Inr () then Map.empty else wt_asleep w)"
    "\<not> signals r q \<Longrightarrow> res = Inr () \<and> w' = w"
    using out so signal_wakes [of notified written p op "commit r q" w res q' w', unfolded fd]
    by (cases "signals r q"; simp)+
qed

section \<open>Invariant\<close>

lemma commit_inv: "queue_inv q \<Longrightarrow> request_ok q r \<Longrightarrow> ready r (q_cursize q) (q_maxsize q) \<Longrightarrow> queue_inv (commit r q)"
proof (cases r)
  case (Add2Req a b)
  assume "queue_inv q" "request_ok q r" "ready r (q_cursize q) (q_maxsize q)"
  with Add2Req show ?thesis
    using write_two room_for_two by simp
qed (auto simp: write_one_inv read_one_inv not_full)

lemma request_ok_cong: "element_size q' = element_size q \<Longrightarrow> capacity q' = capacity q \<Longrightarrow> request_ok q' r = request_ok q r"
  by (cases r) auto

fun single :: "request \<Rightarrow> bool" where
  "single (Add2Req a b) \<longleftrightarrow> False"
| "single r \<longleftrightarrow> True"

text \<open>A single waiter becomes ready only by an operation of the other side, and that one signals.\<close>

lemma commit_enables:
  assumes "queue_inv q" and "ready r (q_cursize q) (q_maxsize q)" and "single r'"
    and "\<not> ready r' (q_cursize q) (q_maxsize q)" and "ready r' (q_cursize (commit r q)) (q_maxsize q)"
  shows "signals r q \<and> (r = SubReq \<longleftrightarrow> r' \<noteq> SubReq)"
proof -
  have "0 < q_maxsize q"
    using queue_invD(1) [OF assms(1)] by (simp add: capacity_def word_less_nat_alt)
  with assms(2-) show ?thesis
    by (cases r; cases r') (auto simp: word_less_nat_alt)
qed

text \<open>The waiters that the wakeups of the code reach: consumers, and single producers unless the consumer's descriptor is set.\<close>

definition served :: "svm_queue \<Rightarrow> request \<Rightarrow> bool" where
  "served q r \<longleftrightarrow> r = SubReq \<or> single r \<and> sint (q_consumer_evtfd q) < 0"

definition sleeper_ok :: "shared \<Rightarrow> request \<Rightarrow> bool" where
  "sleeper_ok s r \<longleftrightarrow> request_ok (sh_queue s) r \<and> \<not> event_mode (sh_queue s) \<and>
     (\<not> sh_failed s \<longrightarrow> served (sh_queue s) r \<longrightarrow> \<not> ready r (q_cursize (sh_queue s)) (q_maxsize (sh_queue s)))"

definition spinner_ok :: "shared \<Rightarrow> request \<Rightarrow> u32 \<Rightarrow> bool" where
  "spinner_ok s r occupancy \<longleftrightarrow> request_ok (sh_queue s) r \<and> \<not> ready r occupancy (q_maxsize (sh_queue s))"

definition shared_inv :: "shared \<Rightarrow> bool" where
  "shared_inv s \<longleftrightarrow> queue_inv (sh_queue s) \<and>
     (\<forall>p r. wt_asleep (sh_waiters s) p = Some r \<longrightarrow> sleeper_ok s r) \<and>
     (\<forall>p r occupancy. sh_spinning s p = Some (r, occupancy) \<longrightarrow> spinner_ok s r occupancy)"

lemma run_keeps_sleeper:
  assumes inv: "queue_inv (sh_queue s)" and req: "request_ok (sh_queue s) r"
    and rdy: "ready r (q_cursize (sh_queue s)) (q_maxsize (sh_queue s))"
    and run: "perform r (site_env notified written) mode (sh_queue s, sh_waiters s) = Some (res, q', w')"
    and old: "wt_asleep (sh_waiters s) p = Some r' \<Longrightarrow> sleeper_ok s r'"
    and asleep: "wt_asleep w' p = Some r'"
  shows "sleeper_ok (s\<lparr>sh_queue := q', sh_waiters := w', sh_failed := sh_failed s \<or> res \<noteq> Inr ()\<rparr>) r'"
proof -
  note out = perform_wakes [OF req rdy run]
  have quiet: "\<not> (signals r (sh_queue s) \<and> sint (descriptor r (sh_queue s)) < 0 \<and> res = Inr ())"
    and before: "sleeper_ok s r'"
    using asleep old out(2) by (auto split: if_splits)
  have "\<not> ready r' (q_cursize q') (q_maxsize q')" if "\<not> sh_failed s" "res = Inr ()" "served q' r'"
  proof
    assume "ready r' (q_cursize q') (q_maxsize q')"
    then have "signals r (sh_queue s) \<and> (r = SubReq \<longleftrightarrow> r' \<noteq> SubReq)"
      using commit_enables [OF inv rdy, of r'] before that out(1) by (auto simp: sleeper_ok_def served_def)
    with quiet that before out(1) show False
      by (auto simp: sleeper_ok_def served_def descriptor_def event_mode_def split: if_splits)
  qed
  with before out(1) show ?thesis
    by (auto simp: sleeper_ok_def event_mode_def request_ok_cong [of "commit r (sh_queue s)" "sh_queue s"])
qed

lemma step_inv: "step s s' \<Longrightarrow> shared_inv s \<Longrightarrow> shared_inv s'"
proof (induction rule: step.induct)
  case (run s p r notified written mode res q' w')
  then have rdy: "ready r (q_cursize (sh_queue s)) (q_maxsize (sh_queue s))"
    by (simp add: can_run_iff)
  have q': "q' = commit r (sh_queue s)"
    by (rule perform_wakes(1) [OF run(2) rdy run(4)])
  show ?case
    using run rdy commit_inv [of "sh_queue s" r] run_keeps_sleeper [OF _ run(2) rdy run(4)]
    by (auto simp: shared_inv_def spinner_ok_def q' request_ok_cong [of "commit r (sh_queue s)" "sh_queue s"])
qed (auto simp: shared_inv_def sleeper_ok_def spinner_ok_def put_to_sleep_def wake_def can_run_iff split: if_splits)

lemma reachable_inv: "reachable s0 s \<Longrightarrow> shared_inv s0 \<Longrightarrow> shared_inv s"
  by (induction rule: reachable.induct) (auto intro: step_inv)

section \<open>Properties of the shared queue\<close>

text \<open>
  C13. However the processes interleave, the queue stays well formed. As long as no operation has reported a failed
  wakeup, a consumer asleep on the condition variable cannot run, and neither can a producer of one element unless the
  consumer's event descriptor is set: whatever made it runnable woke it. A process spinning in event mode leaves its
  loop once its request can run.
\<close>

theorem no_single_waiter_stranded:
  assumes "reachable s0 s" and "queue_inv (sh_queue s0)" and "\<forall>p. active s0 p"
  shows "queue_inv (sh_queue s) \<and>
     (\<forall>p r. wt_asleep (sh_waiters s) p = Some r \<longrightarrow> \<not> sh_failed s \<longrightarrow>
        r = SubReq \<or> (\<exists>e. r = AddReq e) \<and> sint (q_consumer_evtfd (sh_queue s)) < 0 \<longrightarrow> \<not> can_run r (sh_queue s)) \<and>
     (\<forall>p r occupancy. sh_spinning s p = Some (r, occupancy) \<longrightarrow> can_run r (sh_queue s) \<longrightarrow>
        q_cursize (sh_queue s) \<noteq> occupancy)"
proof -
  have inv: "shared_inv s"
    using reachable_inv [OF assms(1)] assms(2,3) by (simp add: shared_inv_def active_def)
  have "\<not> can_run r (sh_queue s)" if "wt_asleep (sh_waiters s) p = Some r" "\<not> sh_failed s"
    "r = SubReq \<or> (\<exists>e. r = AddReq e) \<and> sint (q_consumer_evtfd (sh_queue s)) < 0" for p r
  proof -
    have "sleeper_ok s r" and "served (sh_queue s) r"
      using that inv by (auto simp: shared_inv_def served_def)
    with that(2) show ?thesis by (simp add: sleeper_ok_def can_run_iff)
  qed
  moreover have "q_cursize (sh_queue s) \<noteq> occupancy"
    if "sh_spinning s p = Some (r, occupancy)" "can_run r (sh_queue s)" for p r occupancy
    using that inv by (auto simp: shared_inv_def spinner_ok_def can_run_iff)
  ultimately show ?thesis
    using inv by (auto simp: shared_inv_def)
qed

definition sample_shared :: shared where
  "sample_shared = \<lparr>sh_queue = sample_queue 0 [0, 0, 0], sh_waiters = \<lparr>wt_asleep = Map.empty, wt_events = (\<lambda>_. 0)\<rparr>,
     sh_spinning = Map.empty, sh_failed = False\<rparr>"

lemma sample_waits: "\<not> can_run SubReq (sample_queue 0 [0, 0, 0])"
  by (simp add: can_run_iff) (simp add: sample_queue_def)

lemma no_single_waiter_stranded_witness:
  "\<not> can_run SubReq (sh_queue (put_to_sleep 0 SubReq sample_shared))"
proof -
  let ?s = "put_to_sleep 0 SubReq sample_shared"
  have "step sample_shared ?s"
    by (rule step.sleep)
      (simp_all add: sample_shared_def active_def sample_waits, simp add: sample_queue_def event_mode_def)
  then have "reachable sample_shared ?s"
    by (rule reachable.next_step [OF reachable.start])
  from no_single_waiter_stranded [OF this, THEN conjunct2, THEN conjunct1, rule_format, of 0 SubReq] show ?thesis
    by (simp add: sample_shared_def sample_queue_inv active_def put_to_sleep_def)
qed

text \<open>
  C31. A producer asleep on the condition variable can be stranded, in two ways. The producer of a pair sleeps with one
  free slot: a consumer frees the second one, and since the queue was not full nobody is woken. With only the
  consumer's event descriptor set, the producer of one element sleeps on the condition variable of a full queue, and
  the consumer that makes room writes to the descriptor instead. Whatever the calls answer and however the consumer
  waits, the producer still sleeps afterwards although its request can run.
\<close>

theorem sleeping_producer_stranded:
  assumes inv: "queue_inv (sh_queue s)" and req: "request_ok (sh_queue s) r"
    and sleeps: "\<not> event_mode (sh_queue s)" "active s p"
    and why: "(\<exists>a b. r = Add2Req a b) \<and> unat (q_cursize (sh_queue s)) + 1 = capacity (sh_queue s) \<or>
      (\<exists>e. r = AddReq e) \<and> q_cursize (sh_queue s) = q_maxsize (sh_queue s) \<and> 0 \<le> sint (q_consumer_evtfd (sh_queue s))"
  shows "step s (put_to_sleep p r s) \<and>
    (\<exists>res q' w' taken. queue_sub (site_env notified written) (element_size (sh_queue s)) mode
        (sh_queue s, sh_waiters (put_to_sleep p r s)) = Some ((res, q', w'), taken) \<and>
      wt_asleep w' p = Some r \<and> can_run r q')"
proof -
  let ?q = "sh_queue s" and ?w = "sh_waiters (put_to_sleep p r s)"
  have max: "unat (q_maxsize ?q) = capacity ?q" "0 < capacity ?q"
    using queue_invD(1) [OF inv] by (simp_all add: capacity_def)
  have pos: "0 < unat (q_cursize ?q)"
    using why max req by auto
  then have sub: "request_ok ?q SubReq" "ready SubReq (q_cursize ?q) (q_maxsize ?q)"
    by (simp_all add: unat_gt_0)
  have dec: "unat (q_cursize (commit SubReq ?q)) = unat (q_cursize ?q) - 1"
    using cursize_dec [of ?q] sub by simp
  have le: "q_cursize ?q \<le> q_maxsize ?q" "q_cursize (commit SubReq ?q) \<le> q_maxsize ?q"
    using queue_invD(6) [OF inv] dec by (simp_all add: word_le_nat_alt capacity_def)
  have blocked: "\<not> can_run r ?q" and freed: "can_run r (commit SubReq ?q)"
    using why req pos max dec le
    by (auto simp: can_run_iff word_less_nat_alt unat_sub word_unat_eq_iff
        request_ok_cong [OF commit_fields(1,2)] simp del: commit.simps)
  obtain res q' w' where run: "perform SubReq (site_env notified written) mode (?q, ?w) = Some (res, q', w')"
    using perform_ready [OF free_envs(2) sub] by (metis prod_cases3)
  have "wt_asleep w' = wt_asleep ?w"
    using perform_wakes(2) [OF sub run] why max by (auto simp: descriptor_def)
  moreover have "q' = commit SubReq ?q"
    by (rule perform_wakes(1) [OF sub run])
  ultimately show ?thesis
    using step.sleep [OF sleeps(2) req blocked sleeps(1)] run freed by (auto simp: put_to_sleep_def)
qed

lemma sleeping_producer_stranded_witness:
  "\<exists>res q' w' taken. queue_sub (site_env None (8, 0)) 1 Nowait
     (sample_queue 2 [4, 5, 0], \<lparr>wt_asleep = [0 \<mapsto> Add2Req [7] [8]], wt_events = (\<lambda>_. 0)\<rparr>) = Some ((res, q', w'), taken) \<and>
   wt_asleep w' 0 = Some (Add2Req [7] [8]) \<and> can_run (Add2Req [7] [8]) q'"
proof -
  let ?s = "sample_shared\<lparr>sh_queue := sample_queue 2 [4, 5, 0]\<rparr>"
  have "queue_inv (sh_queue ?s)" "request_ok (sh_queue ?s) (Add2Req [7] [8])" "\<not> event_mode (sh_queue ?s)" "active ?s 0"
    "(\<exists>a b. Add2Req [7] [8] = Add2Req a b) \<and> unat (q_cursize (sh_queue ?s)) + 1 = capacity (sh_queue ?s) \<or>
      (\<exists>e. Add2Req [7] [8] = AddReq e) \<and> q_cursize (sh_queue ?s) = q_maxsize (sh_queue ?s) \<and>
      0 \<le> sint (q_consumer_evtfd (sh_queue ?s))"
    by (simp_all add: sample_queue_inv sample_shared_def active_def)
      (simp_all add: sample_queue_def capacity_def element_size_def event_mode_def)
  from sleeping_producer_stranded [OF this, THEN conjunct2, of None "(8, 0)" Nowait] show ?thesis
    by (simp add: sample_shared_def put_to_sleep_def) (simp add: sample_queue_def element_size_def)
qed

end
