(* ===== verification/Svm_Queue_Restart.thy ===== *)
theory Svm_Queue_Restart
  imports Svm_Queue
begin

text \<open>
  The operations of \<^verbatim>\<open>hammer-shmem/src/queue.rs\<close> that work on a queue from outside its lock: walking the
  ring as its only user, destroying the POSIX objects, and resetting the mutex when the server restarts. The
  queue is seen here with the storage of its mutex and condition variable.
\<close>

section \<open>The whole object\<close>

text \<open>\<^verbatim>\<open>SvmQueue\<close>: 40 bytes of mutex, 48 bytes of condition variable, then the header of \<open>svm_queue\<close>.\<close>

record queue_object =
  qo_mutex :: bytes
  qo_condvar :: bytes
  qo_queue :: svm_queue

text \<open>
  The calls of the C library: a status and the object after the call. \<open>thread_sleep\<close> counts milliseconds.
\<close>

record 'w pthread_env =
  pthread_mutex_trylock :: "queue_object \<times> 'w \<Rightarrow> int \<times> queue_object \<times> 'w"
  pthread_mutex_unlock :: "queue_object \<times> 'w \<Rightarrow> int \<times> queue_object \<times> 'w"
  thread_sleep :: "nat \<Rightarrow> queue_object \<times> 'w \<Rightarrow> queue_object \<times> 'w"
  mutex_destroy :: "queue_object \<times> 'w \<Rightarrow> queue_object \<times> 'w"
  condvar_destroy :: "queue_object \<times> 'w \<Rightarrow> queue_object \<times> 'w"

section \<open>Operations\<close>

definition cleanup :: "'w pthread_env \<Rightarrow> queue_object \<times> 'w \<Rightarrow> queue_object \<times> 'w" where
  "cleanup env st = condvar_destroy env (mutex_destroy env st)"

text \<open>The \<^verbatim>\<open>for\<close> loop: whether it returned from within, after \<open>n\<close> attempts at most.\<close>

fun restart_attempts :: "'w pthread_env \<Rightarrow> nat \<Rightarrow> queue_object \<times> 'w \<Rightarrow> (queue_error fault + bool) \<times> queue_object \<times> 'w" where
  "restart_attempts env 0 st = (Inr False, st)"
| "restart_attempts env (Suc n) st =
     (case pthread_mutex_trylock env st of (locked, st1) \<Rightarrow>
        if locked = 0 then
          (case pthread_mutex_unlock env st1 of (status, st2) \<Rightarrow>
             if status \<noteq> 0 then (Inl (Panic ''restart queue mutex unlock failed''), st2) else (Inr True, st2))
        else restart_attempts env n (thread_sleep env 10 st1))"

definition zero_mutex :: "queue_object \<Rightarrow> queue_object" where
  "zero_mutex qo = qo\<lparr>qo_mutex := replicate 40 0\<rparr>"

definition reset_mutex_for_restart ::
  "'w pthread_env \<Rightarrow> queue_object \<times> 'w \<Rightarrow> (queue_error fault + unit) \<times> queue_object \<times> 'w" where
  "reset_mutex_for_restart env st =
     (case restart_attempts env 10 st of
        (Inl e, st') \<Rightarrow> (Inl e, st')
      | (Inr True, st') \<Rightarrow> (Inr (), st')
      | (Inr False, qo, w) \<Rightarrow> (Inr (), zero_mutex qo, w))"

definition ring_head_slot_unlocked :: "svm_queue \<Rightarrow> nat" where
  "ring_head_slot_unlocked q = (let head = unat (q_head q) in head * element_size q)"

definition advance_ring_head_unlocked :: "svm_queue \<Rightarrow> svm_queue" where
  "advance_ring_head_unlocked q =
     (let next = q_head q + 1 in q\<lparr>q_head := if next = q_maxsize q then 0 else next\<rparr>)"

definition consumer_head :: "svm_queue \<Rightarrow> u32" where
  "consumer_head q = q_head q"

section \<open>Walking the ring\<close>

lemma unlocked_ring:
  "ring_head_slot_unlocked = ring_head_slot" "advance_ring_head_unlocked = advance_ring_head"
  by (simp_all add: fun_eq_iff ring_head_slot_unlocked_def ring_head_slot_def advance_ring_head_unlocked_def
      advance_ring_head_def next_slot_def Let_def)

lemma advance_geometry [simp]:
  "capacity (advance_ring_head q) = capacity q" "element_size (advance_ring_head q) = element_size q"
  "q_data (advance_ring_head q) = q_data q"
  by (simp_all add: advance_ring_head_def capacity_def element_size_def)

lemma advance_head: "q_head (advance_ring_head q) = next_slot q (q_head q)"
  by (simp add: advance_ring_head_def)

lemma advance_times:
  assumes "queue_inv q"
  shows "unat (consumer_head ((advance_ring_head ^^ k) q)) = (unat (q_head q) + k) mod capacity q \<and>
    (\<exists>h. (advance_ring_head ^^ k) q = q\<lparr>q_head := h\<rparr>)"
proof (induction k)
  case 0
  show ?case
    using queue_invD(4) [OF assms] by (auto simp: consumer_head_def intro: exI [of _ "q_head q"])
next
  case (Suc k)
  let ?q = "(advance_ring_head ^^ k) q"
  obtain h where h: "?q = q\<lparr>q_head := h\<rparr>" using Suc by blast
  then have "capacity ?q = capacity q" by (simp add: capacity_def)
  moreover have "unat (q_head ?q) < capacity ?q"
    using Suc calculation queue_invD(1) [OF assms] by (simp add: consumer_head_def)
  ultimately have "unat (q_head (advance_ring_head ?q)) = (unat (q_head q) + Suc k) mod capacity q"
    using next_slot_mod [of "q_head ?q" ?q] Suc by (simp add: consumer_head_def advance_head mod_simps)
  moreover have "advance_ring_head ?q = q\<lparr>q_head := next_slot ?q (q_head ?q)\<rparr>"
    using h by (simp add: advance_ring_head_def)
  ultimately show ?case
    by (auto simp: consumer_head_def)
qed

lemma ring_slots:
  fixes h n :: nat
  assumes "0 < n"
  shows "distinct (map (\<lambda>k. (h + k) mod n) [0..<n]) \<and> set (map (\<lambda>k. (h + k) mod n) [0..<n]) = {..<n}"
proof -
  have inj: "inj_on (\<lambda>k. (h + k) mod n) {0..<n}"
  proof (rule inj_onI)
    fix i j assume "i \<in> {0..<n}" "j \<in> {0..<n}" "(h + i) mod n = (h + j) mod n"
    then show "i = j" using ring_distinct [of i j n h] ring_distinct [of j i n h] by (cases i j rule: linorder_cases) auto
  qed
  moreover have "(\<lambda>k. (h + k) mod n) ` {0..<n} = {0..<n}"
    using assms inj by (intro endo_inj_surj) auto
  ultimately show ?thesis by (auto simp: distinct_map lessThan_atLeast0)
qed

text \<open>
  C40. The only user of a ring walks it without the mutex: with as many steps as there are slots it comes back to the
  queue it started from, having stood on every slot exactly once, and each slot it is given lies inside the element
  bytes. The locked walk gives the same slots.
\<close>

theorem ring_walk_visits_every_slot:
  fixes q :: svm_queue
  defines "walk \<equiv> map (\<lambda>k. ring_head_slot_unlocked ((advance_ring_head_unlocked ^^ k) q)) [0..<capacity q]"
  assumes "queue_inv q"
  shows "(advance_ring_head_unlocked ^^ capacity q) q = q \<and> distinct walk \<and>
    set walk = (\<lambda>slot. slot * element_size q) ` {..<capacity q} \<and>
    (\<forall>p\<in>set walk. p + element_size q \<le> length (q_data q)) \<and>
    walk = map (\<lambda>k. ring_head_slot ((advance_ring_head ^^ k) q)) [0..<capacity q]"
proof -
  let ?pos = "\<lambda>k. (unat (q_head q) + k) mod capacity q"
  note inv = queue_invD [OF assms(2)]
  have at: "ring_head_slot ((advance_ring_head ^^ k) q) = ?pos k * element_size q" for k
  proof -
    obtain h where "(advance_ring_head ^^ k) q = q\<lparr>q_head := h\<rparr>" "unat h = ?pos k"
      using advance_times [OF assms(2), of k] by (auto simp: consumer_head_def)
    then show ?thesis by (simp add: ring_head_slot_def element_size_def)
  qed
  then have walk: "walk = map (\<lambda>s. s * element_size q) (map ?pos [0..<capacity q])"
    by (simp add: walk_def unlocked_ring)
  have cycle: "(advance_ring_head ^^ capacity q) q = q"
  proof -
    obtain h where h: "(advance_ring_head ^^ capacity q) q = q\<lparr>q_head := h\<rparr>" "unat h = unat (q_head q)"
      using advance_times [OF assms(2), of "capacity q"] inv(4) by (auto simp: consumer_head_def)
    then have "h = q_head q" by (simp add: word_unat_eq_iff)
    then show ?thesis using h(1) by simp
  qed
  have "inj_on (\<lambda>s. s * element_size q) (set (map ?pos [0..<capacity q]))"
    using inv(2) by (auto intro: inj_onI)
  then have "distinct walk" "set walk = (\<lambda>slot. slot * element_size q) ` {..<capacity q}"
    unfolding walk distinct_map [of "\<lambda>s. s * element_size q"] set_map [of "\<lambda>s. s * element_size q"]
    using ring_slots [OF inv(1), of "unat (q_head q)"] by simp_all
  moreover have "\<forall>p\<in>set walk. p + element_size q \<le> length (q_data q)"
    using slot_in_bounds [OF assms(2)] calculation(2) by auto
  ultimately show ?thesis
    using cycle by (simp add: unlocked_ring walk_def)
qed

lemma ring_walk_visits_every_slot_witness:
  "(advance_ring_head_unlocked ^^ 3) (sample_queue 2 [4, 5, 0]) = sample_queue 2 [4, 5, 0] \<and>
   set (map (\<lambda>k. ring_head_slot_unlocked ((advance_ring_head_unlocked ^^ k) (sample_queue 2 [4, 5, 0]))) [0..<3]) = {0, 1, 2}"
proof -
  have geometry: "capacity (sample_queue 2 [4, 5, 0]) = 3" "element_size (sample_queue 2 [4, 5, 0]) = 1"
    by (simp_all add: sample_queue_def capacity_def element_size_def)
  have "(\<lambda>slot. slot * 1) ` {..<3} = {0, 1, 2 :: nat}" by auto
  then show ?thesis
    using ring_walk_visits_every_slot [OF sample_queue_inv(2), unfolded geometry] by metis
qed

section \<open>Restarting\<close>

text \<open>The object before attempt \<open>k\<close> when all earlier attempts failed.\<close>

primrec attempt_state :: "'w pthread_env \<Rightarrow> nat \<Rightarrow> queue_object \<times> 'w \<Rightarrow> queue_object \<times> 'w" where
  "attempt_state env 0 st = st"
| "attempt_state env (Suc k) st = attempt_state env k (thread_sleep env 10 (snd (pthread_mutex_trylock env st)))"

definition unlocked :: "'w pthread_env \<Rightarrow> queue_object \<times> 'w \<Rightarrow> (queue_error fault + bool) \<times> queue_object \<times> 'w" where
  "unlocked env st =
     (case pthread_mutex_unlock env (snd (pthread_mutex_trylock env st)) of (status, st') \<Rightarrow>
        (if status = 0 then Inr True else Inl (Panic ''restart queue mutex unlock failed''), st'))"

lemma restart_attempts_first:
  assumes "\<forall>i<k. fst (pthread_mutex_trylock env (attempt_state env i st)) \<noteq> 0"
  shows "restart_attempts env (k + n) st = restart_attempts env n (attempt_state env k st)"
  using assms
proof (induction k arbitrary: st)
  case (Suc k)
  let ?st = "thread_sleep env 10 (snd (pthread_mutex_trylock env st))"
  have "restart_attempts env (k + n) ?st = restart_attempts env n (attempt_state env k ?st)"
    using Suc.prems by (intro Suc.IH) (auto dest: spec [of _ "Suc _"])
  moreover have "fst (pthread_mutex_trylock env st) \<noteq> 0"
    using Suc.prems by (auto dest: spec [of _ 0])
  ultimately show ?case
    by (cases "pthread_mutex_trylock env st") simp
qed simp

lemma reset_mutex_result:
  "reset_mutex_for_restart env st =
     (case find (\<lambda>k. fst (pthread_mutex_trylock env (attempt_state env k st)) = 0) [0..<10] of
        None \<Rightarrow> (Inr (), zero_mutex (fst (attempt_state env 10 st)), snd (attempt_state env 10 st))
      | Some k \<Rightarrow> map_prod (map_sum id (\<lambda>_. ())) id (unlocked env (attempt_state env k st)))"
proof (cases "find (\<lambda>k. fst (pthread_mutex_trylock env (attempt_state env k st)) = 0) [0..<10]")
  case None
  then have "\<forall>i<10. fst (pthread_mutex_trylock env (attempt_state env i st)) \<noteq> 0"
    by (auto simp: find_None_iff)
  from restart_attempts_first [OF this, of 0] None show ?thesis
    by (cases "attempt_state env 10 st") (simp add: reset_mutex_for_restart_def)
next
  case (Some k)
  then obtain "k < 10" and zero: "fst (pthread_mutex_trylock env (attempt_state env k st)) = 0"
    and "\<forall>i<k. fst (pthread_mutex_trylock env (attempt_state env i st)) \<noteq> 0"
    by (auto simp: find_Some_iff)
  moreover from \<open>k < 10\<close> have "10 = k + Suc (9 - k)" by simp
  ultimately have "restart_attempts env 10 st = restart_attempts env (Suc (9 - k)) (attempt_state env k st)"
    using restart_attempts_first [of k env st "Suc (9 - k)"] by metis
  also have "\<dots> = unlocked env (attempt_state env k st)"
    using zero by (cases "pthread_mutex_trylock env (attempt_state env k st)")
      (simp add: unlocked_def split: prod.splits)
  finally show ?thesis
    using Some by (auto simp: reset_mutex_for_restart_def unlocked_def split: prod.splits)
qed

text \<open>
  What POSIX promises about a robust mutex, as far as the two calls show it. A free mutex is taken with status 0. A held
  one is refused with \<^verbatim>\<open>EBUSY\<close>, also to its holder. When the holder has died, the call takes the mutex, says so with
  \<^verbatim>\<open>EOWNERDEAD\<close>, and the state it protects is inconsistent until the holder says otherwise: unlocking it before that
  makes the mutex unusable for ever, which later calls report as \<^verbatim>\<open>ENOTRECOVERABLE\<close>. Sleeping gives up nothing.
\<close>

datatype mutex_state = Free | HeldHere | HeldInconsistent | HeldElsewhere | OwnerGone | Unusable

definition EBUSY :: int where "EBUSY = 16"

definition EOWNERDEAD :: int where "EOWNERDEAD = 130"

definition ENOTRECOVERABLE :: int where "ENOTRECOVERABLE = 131"

fun trylock_status :: "mutex_state \<Rightarrow> int" where
  "trylock_status Free = 0"
| "trylock_status OwnerGone = EOWNERDEAD"
| "trylock_status Unusable = ENOTRECOVERABLE"
| "trylock_status _ = EBUSY"

fun after_trylock :: "mutex_state \<Rightarrow> mutex_state" where
  "after_trylock Free = HeldHere"
| "after_trylock OwnerGone = HeldInconsistent"
| "after_trylock s = s"

fun after_unlock :: "mutex_state \<Rightarrow> mutex_state" where
  "after_unlock HeldHere = Free"
| "after_unlock HeldInconsistent = Unusable"
| "after_unlock s = s"

definition held :: "mutex_state \<Rightarrow> bool" where
  "held s \<longleftrightarrow> s = HeldHere \<or> s = HeldInconsistent"

definition robust_ok :: "'w pthread_env \<Rightarrow> (queue_object \<times> 'w \<Rightarrow> mutex_state) \<Rightarrow> bool" where
  "robust_ok env state \<longleftrightarrow>
     (\<forall>st. fst (pthread_mutex_trylock env st) = trylock_status (state st)) \<and>
     (\<forall>st. state (snd (pthread_mutex_trylock env st)) = after_trylock (state st)) \<and>
     (\<forall>st n. held (state st) \<longrightarrow> state (thread_sleep env n st) = state st) \<and>
     (\<forall>st. held (state st) \<longrightarrow>
        fst (pthread_mutex_unlock env st) = 0 \<and> state (snd (pthread_mutex_unlock env st)) = after_unlock (state st))"

lemma robust_okD:
  assumes "robust_ok env state"
  shows "fst (pthread_mutex_trylock env st) = trylock_status (state st)"
    and "state (snd (pthread_mutex_trylock env st)) = after_trylock (state st)"
    and "held (state st) \<Longrightarrow> state (thread_sleep env n st) = state st"
    and "held (state st) \<Longrightarrow>
      fst (pthread_mutex_unlock env st) = 0 \<and> state (snd (pthread_mutex_unlock env st)) = after_unlock (state st)"
  using assms unfolding robust_ok_def by blast+

lemma held_after_attempts:
  assumes "robust_ok env state" "held (state st)"
  shows "state (attempt_state env k st) = state st"
  using assms(2)
proof (induction k arbitrary: st)
  case (Suc k)
  then have "after_trylock (state st) = state st" by (auto simp: held_def)
  with Suc show ?case
    using robust_okD(2,3) [OF assms(1)] by simp
qed simp

text \<open>
  C39. Restarting with a robust mutex. A free mutex is taken once and given back. When the last holder died with it, the
  first attempt already takes it, but the status \<^verbatim>\<open>EOWNERDEAD\<close> is read as a failure: nine more attempts find it
  held by the caller itself, and after the ten sleeps its storage is overwritten with zeros while it is held, instead
  of being made consistent and released.
\<close>

theorem restart_reads_owner_death_as_failure:
  assumes "robust_ok env state"
  shows "(state st = Free \<longrightarrow>
      fst (reset_mutex_for_restart env st) = Inr () \<and> state (snd (reset_mutex_for_restart env st)) = Free) \<and>
    (state st = OwnerGone \<longrightarrow>
      state (snd (pthread_mutex_trylock env st)) = HeldInconsistent \<and> state (attempt_state env 10 st) = HeldInconsistent \<and>
      reset_mutex_for_restart env st =
        (Inr (), zero_mutex (fst (attempt_state env 10 st)), snd (attempt_state env 10 st)))"
proof (intro conjI impI)
  note mutex = robust_okD [OF assms]
  show "fst (reset_mutex_for_restart env st) = Inr ()" "state (snd (reset_mutex_for_restart env st)) = Free"
    if "state st = Free"
  proof -
    have "find (\<lambda>k. fst (pthread_mutex_trylock env (attempt_state env k st)) = 0) [0..<10] = Some 0"
      using that mutex(1) [of st] by (simp add: upt_rec)
    moreover have "state (snd (pthread_mutex_trylock env st)) = HeldHere" using that mutex(2) [of st] by simp
    ultimately show "fst (reset_mutex_for_restart env st) = Inr ()" "state (snd (reset_mutex_for_restart env st)) = Free"
      using mutex(4) [of "snd (pthread_mutex_trylock env st)"]
      by (auto simp: reset_mutex_result unlocked_def held_def split: prod.splits)
  qed
  assume gone: "state st = OwnerGone"
  then show taken: "state (snd (pthread_mutex_trylock env st)) = HeldInconsistent" using mutex(2) [of st] by simp
  have later: "state (attempt_state env (Suc k) st) = HeldInconsistent" for k
    using held_after_attempts [OF assms, of "thread_sleep env 10 (snd (pthread_mutex_trylock env st))" k]
      mutex(3) [of "snd (pthread_mutex_trylock env st)"] taken by (simp add: held_def)
  then show "state (attempt_state env 10 st) = HeldInconsistent" using later [of 9] by simp
  have "fst (pthread_mutex_trylock env (attempt_state env k st)) \<noteq> 0" for k
    using gone later mutex(1) [of "attempt_state env k st"] by (cases k) (auto simp: EBUSY_def EOWNERDEAD_def)
  then show "reset_mutex_for_restart env st =
      (Inr (), zero_mutex (fst (attempt_state env 10 st)), snd (attempt_state env 10 st))"
    by (simp add: reset_mutex_result find_None_iff [THEN iffD2])
qed

text \<open>A mutex whose state is kept in the world beside the object.\<close>

definition posix_sim :: "mutex_state pthread_env" where
  "posix_sim =
     \<lparr>pthread_mutex_trylock = (\<lambda>(qo, s). (trylock_status s, qo, after_trylock s)),
      pthread_mutex_unlock = (\<lambda>(qo, s). (0, qo, after_unlock s)), thread_sleep = (\<lambda>_ st. st),
      mutex_destroy = (\<lambda>st. st), condvar_destroy = (\<lambda>st. st)\<rparr>"

lemma posix_sim_ok: "robust_ok posix_sim snd"
  by (simp add: robust_ok_def posix_sim_def split_beta)

lemma restart_reads_owner_death_as_failure_witness:
  "snd (reset_mutex_for_restart posix_sim
      (\<lparr>qo_mutex = replicate 40 1, qo_condvar = replicate 48 0, qo_queue = sample_queue 0 [0, 0, 0]\<rparr>, OwnerGone)) =
    (\<lparr>qo_mutex = replicate 40 0, qo_condvar = replicate 48 0, qo_queue = sample_queue 0 [0, 0, 0]\<rparr>, HeldInconsistent)"
proof -
  let ?st = "(\<lparr>qo_mutex = replicate 40 1, qo_condvar = replicate 48 0, qo_queue = sample_queue 0 [0, 0, 0]\<rparr>, OwnerGone)"
  have "attempt_state posix_sim 10 ?st = (fst ?st, HeldInconsistent)"
    by (simp add: numeral_eq_Suc posix_sim_def)
  then show ?thesis
    using restart_reads_owner_death_as_failure [OF posix_sim_ok, of ?st] by (simp add: zero_mutex_def)
qed

end
