(* ===== verification/Stats_Protocol.thy ===== *)
theory Stats_Protocol
  imports Utf8
begin

text \<open>
  Layout of the shared stats segment, \<^verbatim>\<open>hammer-stats-protocol/src/protocol.rs\<close>: directory
  entries, published vectors resolved inside the reader's mapping, and decoded metric values.
  Published pointers are server addresses, kept as natural numbers below \<open>usize_bound\<close>. A
  slice index out of range and an overflowing shift are panics of the model.
\<close>

section \<open>Errors and directory types\<close>

datatype protocol_error =
    VersionMismatch u64 u64
  | InvalidMapping
  | PointerBeforeBase usize usize
  | VectorOutOfBounds usize
  | ElementOutOfBounds usize usize
  | ElementTooSmall usize usize
  | UnknownDirectoryType u32
  | DirectoryTypeMismatch string string string
  | MissingNameTerminator
  | NameTooLong usize
  | InvalidNamePadding
  | InvalidNameEncoding
  | ProtocolSymlinkCycle usize

datatype directory_type =
    Illegal | ScalarIndex | CounterVectorSimple | CounterVectorCombined | NameVector
  | EmptySlot | Symlink | HistogramLog2 | RingBuffer | Gauge

fun type_code :: "directory_type \<Rightarrow> nat" where
  "type_code Illegal = 0" | "type_code ScalarIndex = 1" | "type_code CounterVectorSimple = 2"
| "type_code CounterVectorCombined = 3" | "type_code NameVector = 4" | "type_code EmptySlot = 5"
| "type_code Symlink = 6" | "type_code HistogramLog2 = 7" | "type_code RingBuffer = 8"
| "type_code Gauge = 9"

lemma type_code_inject [simp]: "type_code a = type_code b \<longleftrightarrow> a = b"
  by (cases a; cases b) simp_all

text \<open>The derived order of the enum is the order of its codes.\<close>

instantiation directory_type :: linorder
begin

definition less_eq_directory_type :: "directory_type \<Rightarrow> directory_type \<Rightarrow> bool" where
  "less_eq_directory_type a b \<longleftrightarrow> type_code a \<le> type_code b"

definition less_directory_type :: "directory_type \<Rightarrow> directory_type \<Rightarrow> bool" where
  "less_directory_type a b \<longleftrightarrow> type_code a < type_code b"

instance
  by intro_classes (auto simp: less_eq_directory_type_def less_directory_type_def)

end

definition directory_type_try_from :: "u32 \<Rightarrow> protocol_error + directory_type" where
  "directory_type_try_from raw =
     (if raw = 0 then Inr Illegal else if raw = 1 then Inr ScalarIndex
      else if raw = 2 then Inr CounterVectorSimple else if raw = 3 then Inr CounterVectorCombined
      else if raw = 4 then Inr NameVector else if raw = 5 then Inr EmptySlot
      else if raw = 6 then Inr Symlink else if raw = 7 then Inr HistogramLog2
      else if raw = 8 then Inr RingBuffer else if raw = 9 then Inr Gauge
      else Inl (UnknownDirectoryType raw))"

fun type_name :: "directory_type \<Rightarrow> string" where
  "type_name Illegal = ''illegal''"
| "type_name ScalarIndex = ''scalar_index''"
| "type_name CounterVectorSimple = ''counter_vector_simple''"
| "type_name CounterVectorCombined = ''counter_vector_combined''"
| "type_name NameVector = ''name_vector''"
| "type_name EmptySlot = ''empty''"
| "type_name Symlink = ''symlink''"
| "type_name HistogramLog2 = ''histogram_log2''"
| "type_name RingBuffer = ''ring_buffer''"
| "type_name Gauge = ''gauge''"

section \<open>Shared header\<close>

record counter =
  packets :: u64
  counter_bytes :: u64

record shared_header =
  hdr_version :: u64
  hdr_base :: usize
  hdr_epoch :: u64
  hdr_in_progress :: u64
  hdr_directory_vector :: usize

definition stat_segment_version :: u64 where
  "stat_segment_version = 2"

definition max_name_bytes :: nat where
  "max_name_bytes = 128"

definition max_name_length :: nat where
  "max_name_length = max_name_bytes - 2"

definition vector_header_bytes :: nat where
  "vector_header_bytes = 8"

definition vector_min_align :: nat where
  "vector_min_align = 8"

definition is_write_in_progress :: "shared_header \<Rightarrow> bool" where
  "is_write_in_progress h \<longleftrightarrow> hdr_in_progress h \<noteq> 0"

definition validate_version :: "shared_header \<Rightarrow> protocol_error + unit" where
  "validate_version h =
     (if hdr_version h = stat_segment_version then Inr ()
      else Inl (VersionMismatch (hdr_version h) stat_segment_version))"

section \<open>Directory entries\<close>

record directory_entry =
  ent_type :: u32
  ent_data :: u64
  ent_name :: bytes

definition entry_type :: "directory_entry \<Rightarrow> protocol_error + directory_type" where
  "entry_type e = directory_type_try_from (ent_type e)"

definition name_of_entry :: "directory_entry \<Rightarrow> protocol_error + string" where
  "name_of_entry e =
     (case position (\<lambda>b. b = 0) (ent_name e) of
        None \<Rightarrow> Inl MissingNameTerminator
      | Some nul \<Rightarrow>
          if max_name_length < nul then Inl (NameTooLong nul)
          else if list_ex (\<lambda>b. b \<noteq> 0) (drop (nul + 1) (ent_name e)) then Inl InvalidNamePadding
          else ok_or InvalidNameEncoding (from_utf8 (take nul (ent_name e))))"

definition entry_label :: "directory_entry \<Rightarrow> string" where
  "entry_label e =
     from_utf8_lossy (take (case position (\<lambda>b. b = 0) (ent_name e) of Some i \<Rightarrow> i | None \<Rightarrow> max_name_bytes)
       (ent_name e))"

definition type_mismatch :: "directory_entry \<Rightarrow> string \<Rightarrow> directory_type \<Rightarrow> protocol_error" where
  "type_mismatch e expected actual = DirectoryTypeMismatch (entry_label e) expected (type_name actual)"

definition entry_scalar :: "directory_entry \<Rightarrow> protocol_error + u64" where
  "entry_scalar e =
     rbind (entry_type e) (\<lambda>t.
       if t = ScalarIndex \<or> t = Gauge then Inr (ent_data e)
       else Inl (type_mismatch e ''scalar_index or gauge'' t))"

definition data_pointer :: "directory_entry \<Rightarrow> protocol_error + usize" where
  "data_pointer e =
     rbind (entry_type e) (\<lambda>t.
       if t = CounterVectorSimple \<or> t = CounterVectorCombined \<or> t = HistogramLog2 \<or> t = RingBuffer
       then Inr (unat (ent_data e))
       else Inl (type_mismatch e ''counter_vector_simple'' t))"

definition name_vector_pointer :: "directory_entry \<Rightarrow> protocol_error + usize" where
  "name_vector_pointer e =
     rbind (entry_type e) (\<lambda>t.
       if t = NameVector then Inr (unat (ent_data e)) else Inl (type_mismatch e ''name_vector'' t))"

definition entry_symlink :: "directory_entry \<Rightarrow> protocol_error + u32 \<times> u32" where
  "entry_symlink e =
     rbind (entry_type e) (\<lambda>t.
       if t = Symlink then Inr (ucast (ent_data e AND 0xffffffff), ucast (drop_bit 32 (ent_data e)))
       else Inl (type_mismatch e ''symlink'' t))"

section \<open>Metric values\<close>

datatype metric_value =
    Scalar u64
  | GaugeValue u64
  | Simple "u64 list list"
  | Combined "counter list list"
  | Names "string list"
  | Histogram "u64 list list"
  | Ring "bytes list"

definition crop_rows :: "'t list list \<Rightarrow> nat \<Rightarrow> protocol_error + 't list list" where
  "crop_rows rows column =
     collect_res (\<lambda>row. if column < length row then Inr [row ! column]
       else Inl (ElementOutOfBounds column (length row))) rows"

fun value_column :: "metric_value \<Rightarrow> nat \<Rightarrow> protocol_error + metric_value" where
  "value_column (Simple rows) c = rbind (crop_rows rows c) (\<lambda>r. Inr (Simple r))"
| "value_column (Combined rows) c = rbind (crop_rows rows c) (\<lambda>r. Inr (Combined r))"
| "value_column (Histogram rows) c = rbind (crop_rows rows c) (\<lambda>r. Inr (Histogram r))"
| "value_column (Names ns) c = Inr (Names ns)"
| "value_column (Ring vs) c = Inr (Ring vs)"
| "value_column (Scalar v) c = Inr (Scalar v)"
| "value_column (GaugeValue v) c = Inr (GaugeValue v)"

section \<open>Published vectors\<close>

record published_vector =
  pv_offset :: usize
  pv_length :: usize
  pv_alignment :: usize
  pv_element_size :: usize

definition resolve :: "bytes \<Rightarrow> usize \<Rightarrow> usize \<Rightarrow> usize \<Rightarrow> protocol_error fault + published_vector" where
  "resolve mapping base published elsize =
     rbind (map_err Err (ok_or (PointerBeforeBase published base) (checked_sub published base))) (\<lambda>data_offset.
       rbind (map_err Err (ok_or (VectorOutOfBounds (length mapping)) (checked_sub data_offset vector_header_bytes)))
         (\<lambda>header_offset.
           case slice_get mapping header_offset data_offset of
             None \<Rightarrow> Inl (Err (VectorOutOfBounds (length mapping)))
           | Some header \<Rightarrow>
               let len = unat (from_ne_bytes (take 4 header) :: u32);
                   shift = unat (header ! 5 AND 0x7f)
               in if 64 \<le> shift then Inl (Panic ''attempt to shift left with overflow'')
                  else Inr \<lparr>pv_offset = data_offset, pv_length = len,
                    pv_alignment = unat (push_bit shift (word_of_nat vector_min_align :: u64)),
                    pv_element_size = elsize\<rparr>))"

definition vector_element :: "published_vector \<Rightarrow> bytes \<Rightarrow> usize \<Rightarrow> protocol_error + bytes" where
  "vector_element v mapping index =
     (if pv_length v \<le> index then Inl (ElementOutOfBounds index (pv_length v))
      else rbind (ok_or (VectorOutOfBounds (length mapping))
          (case checked_mul index (pv_element_size v) of
             None \<Rightarrow> None
           | Some delta \<Rightarrow> checked_add (pv_offset v) delta)) (\<lambda>offset.
        rbind (ok_or (VectorOutOfBounds (length mapping)) (checked_add offset (pv_element_size v))) (\<lambda>e.
          ok_or (VectorOutOfBounds (length mapping)) (slice_get mapping offset e))))"

definition vector_u64 :: "published_vector \<Rightarrow> bytes \<Rightarrow> usize \<Rightarrow> protocol_error + u64" where
  "vector_u64 v mapping index =
     (if pv_element_size v < 8 then Inl (ElementTooSmall 8 (pv_element_size v))
      else rbind (vector_element v mapping index) (\<lambda>element. Inr (from_ne_bytes (take 8 element))))"

definition vector_pointer :: "published_vector \<Rightarrow> bytes \<Rightarrow> usize \<Rightarrow> protocol_error + usize" where
  "vector_pointer v mapping index =
     (if pv_element_size v < 8 then Inl (ElementTooSmall 8 (pv_element_size v))
      else rbind (vector_element v mapping index) (\<lambda>element.
        Inr (unat (from_ne_bytes (take 8 element) :: u64))))"

section \<open>Lemmas\<close>

lemma directory_type_try_from_code:
  "directory_type_try_from raw = Inr t \<longleftrightarrow> raw = word_of_nat (type_code t)"
  by (cases t) (auto simp: directory_type_try_from_def split: if_splits)

lemma vector_element_Inr:
  "vector_element v mapping i = Inr bs \<longleftrightarrow>
     i < pv_length v \<and> pv_offset v + i * pv_element_size v + pv_element_size v < usize_bound \<and>
     pv_offset v + i * pv_element_size v + pv_element_size v \<le> length mapping \<and>
     bs = take (pv_element_size v) (drop (pv_offset v + i * pv_element_size v) mapping)"
  by (auto simp: vector_element_def rbind_Inr slice_get_Some split: option.splits)

text \<open>A vector that a segment publishes at an address, as the server lays it out.\<close>

definition published :: "bytes \<Rightarrow> usize \<Rightarrow> usize \<Rightarrow> nat \<Rightarrow> bytes list \<Rightarrow> bool" where
  "published mapping base p sz es \<longleftrightarrow>
     length mapping < usize_bound \<and> base + 8 \<le> p \<and> p - base + length es * sz \<le> length mapping \<and>
     length es < 2 ^ 32 \<and> list_all (\<lambda>e. length e = sz) es \<and>
     take 4 (drop (p - base - 8) mapping) = to_ne_bytes 4 (word_of_nat (length es) :: u32) \<and>
     mapping ! (p - base - 8 + 5) AND 0x7f < 64 \<and>
     take (length es * sz) (drop (p - base) mapping) = concat es"

definition vector_at :: "bytes \<Rightarrow> usize \<Rightarrow> usize \<Rightarrow> nat \<Rightarrow> bytes list \<Rightarrow> published_vector \<Rightarrow> bool" where
  "vector_at mapping base p sz es v \<longleftrightarrow>
     published mapping base p sz es \<and> pv_offset v = p - base \<and> pv_length v = length es \<and> pv_element_size v = sz"

lemma resolve_published:
  assumes "published mapping base p sz es"
  shows "\<exists>v. resolve mapping base p sz = Inr v \<and> vector_at mapping base p sz es v"
proof -
  have le: "base + 8 \<le> p" "p - base \<le> length mapping"
    using assms by (auto simp: published_def)
  have shift: "mapping ! (p - base - 8 + 5) AND 0x7f < 64"
    using assms by (simp only: published_def)
  let ?h = "take 8 (drop (p - base - 8) mapping)"
  have "slice_get mapping (p - base - 8) (p - base) = Some ?h"
    using le by (simp add: slice_get_Some)
  moreover have "take 4 ?h = to_ne_bytes 4 (word_of_nat (length es) :: u32)"
    using assms by (simp add: published_def min_def)
  then have "unat (from_ne_bytes (take 4 ?h) :: u32) = length es"
    using assms by (simp add: published_def unat_of_nat)
  moreover have "?h ! 5 = mapping ! (p - base - 8 + 5)"
    using le by (simp add: nth_drop)
  with shift have "?h ! 5 AND 0x7f < 64"
    by (simp only:)
  then have "\<not> 64 \<le> unat (?h ! 5 AND 0x7f)"
    by (simp add: word_less_nat_alt)
  ultimately show ?thesis
    using assms le
    by (simp add: resolve_def vector_header_bytes_def checked_sub_def vector_at_def Let_def)
qed

lemma concat_slice:
  "list_all (\<lambda>e. length e = sz) es \<Longrightarrow> i < length es \<Longrightarrow> take sz (drop (i * sz) (concat es)) = es ! i"
proof (induction es arbitrary: i)
  case (Cons e es)
  then show ?case by (cases i) auto
qed simp

lemma vector_element_published:
  assumes "vector_at mapping base p sz es v" and "i < length es"
  shows "vector_element v mapping i = Inr (es ! i)"
proof -
  have "Suc i * sz \<le> length es * sz"
    using assms(2) by (intro mult_right_mono) auto
  then have le: "p - base + i * sz + sz \<le> length mapping" "i * sz + sz \<le> length es * sz"
    using assms(1) by (auto simp: vector_at_def published_def)
  have all: "take (length es * sz) (drop (p - base) mapping) = concat es"
    and szs: "list_all (\<lambda>e. length e = sz) es"
    using assms(1) by (simp_all add: vector_at_def published_def)
  have "take sz (drop (i * sz) (take (length es * sz) (drop (p - base) mapping))) =
      take sz (drop (p - base + i * sz) mapping)"
    using le(2) by (simp add: drop_take min_def add.commute)
  with all concat_slice [OF szs assms(2)] have "take sz (drop (p - base + i * sz) mapping) = es ! i"
    by simp
  with assms le show ?thesis
    by (auto simp: vector_element_Inr vector_at_def published_def)
qed

lemma vector_at_length: "vector_at mapping base p sz es v \<Longrightarrow> pv_length v = length es"
  by (simp add: vector_at_def)

end
