(* ===== verification/Stats_Client.thy ===== *)
theory Stats_Client
  imports Stats_Protocol
begin

text \<open>
  The stats segment client, \<^verbatim>\<open>hammer-stats-client/src/client.rs\<close>: descriptor handoff,
  mapping checks, the optimistic directory read and the decoding of entries. The segment is
  written by another process while it is read, so an operation takes what it observes: for
  each attempt the bytes seen by the first header read, by the decoding and by the second
  header read. System calls are parameters: their results are arguments.
\<close>

section \<open>Errors\<close>

text \<open>
  \<^verbatim>\<open>io::Error\<close> is an error number. Overflow checks and debug assertions are those of a debug build.
\<close>

datatype stats_error =
    Connect bytes int
  | SocketPathTooLong bytes usize
  | AncillaryData usize bool
  | Receive int
  | HandoffTimeout nat
  | Fstat int
  | InvalidSegmentSize int
  | MappingFailed int
  | Protocol protocol_error
  | RetryExhausted string usize
  | MetricNotFound string
  | UnsupportedDirectoryType string string
  | UnexpectedMetricType string string string
  | UnexpectedRowCount string usize usize
  | UnexpectedColumnCount string usize usize
  | WorkerCountMismatch string u64 usize
  | SymlinkCycle string usize

type_synonym 'a stats_result = "stats_error fault + 'a"

abbreviation proto :: "protocol_error + 'a \<Rightarrow> 'a stats_result" where
  "proto \<equiv> map_err (\<lambda>e. Err (Protocol e))"

definition lift_fault :: "protocol_error fault \<Rightarrow> stats_error fault" where
  "lift_fault f = (case f of Err e \<Rightarrow> Err (Protocol e) | Panic m \<Rightarrow> Panic m)"

abbreviation proto_fault :: "protocol_error fault + 'a \<Rightarrow> 'a stats_result" where
  "proto_fault \<equiv> map_err lift_fault"

definition retry_limit :: nat where
  "retry_limit = 16"

definition symlink_limit :: nat where
  "symlink_limit = 16"

definition handoff_timeout :: nat where
  "handoff_timeout = 10"

section \<open>Raw reads\<close>

definition shared_header_bytes :: nat where
  "shared_header_bytes = 40"

definition directory_entry_bytes :: nat where
  "directory_entry_bytes = 144"

definition u64_at :: "bytes \<Rightarrow> nat \<Rightarrow> u64" where
  "u64_at bs i = from_ne_bytes (take 8 (drop i bs))"

definition read_header :: "bytes \<Rightarrow> shared_header stats_result" where
  "read_header mapping =
     (case slice_get mapping 0 shared_header_bytes of
        None \<Rightarrow> Inl (Err (Protocol InvalidMapping))
      | Some bs \<Rightarrow> Inr
          \<lparr>hdr_version = u64_at bs 0, hdr_base = unat (u64_at bs 8), hdr_epoch = u64_at bs 16,
           hdr_in_progress = u64_at bs 24, hdr_directory_vector = unat (u64_at bs 32)\<rparr>)"

definition read_directory_entry :: "published_vector \<Rightarrow> bytes \<Rightarrow> usize \<Rightarrow> directory_entry stats_result" where
  "read_directory_entry directory mapping index =
     rbind (proto (vector_element directory mapping index)) (\<lambda>element.
       if length element \<noteq> directory_entry_bytes
       then Inl (Panic ''source slice length does not match destination slice length'')
       else Inr \<lparr>ent_type = from_ne_bytes (take 4 element), ent_data = u64_at element 8,
              ent_name = drop 16 element\<rparr>)"

fun find_entry :: "published_vector \<Rightarrow> bytes \<Rightarrow> string \<Rightarrow> nat list \<Rightarrow> nat option stats_result" where
  "find_entry directory mapping name [] = Inr None"
| "find_entry directory mapping name (index # rest) =
     rbind (read_directory_entry directory mapping index) (\<lambda>e.
       rbind (proto (name_of_entry e)) (\<lambda>n.
         if n = name then Inr (Some index) else find_entry directory mapping name rest))"

section \<open>Decoding entries\<close>

definition vector_of :: "bytes \<Rightarrow> usize \<Rightarrow> directory_entry \<Rightarrow> published_vector stats_result" where
  "vector_of mapping base e =
     rbind (proto (data_pointer e)) (\<lambda>p. proto_fault (resolve mapping base p 8))"

definition inner_vector ::
  "bytes \<Rightarrow> usize \<Rightarrow> published_vector \<Rightarrow> nat \<Rightarrow> usize \<Rightarrow> published_vector option stats_result" where
  "inner_vector mapping base outer row elsize =
     rbind (proto (vector_pointer outer mapping row)) (\<lambda>p.
       if p = 0 then Inr None
       else rbind (proto_fault (resolve mapping base p elsize)) (\<lambda>v. Inr (Some v)))"

definition inner_u64_vector ::
  "bytes \<Rightarrow> usize \<Rightarrow> published_vector \<Rightarrow> nat \<Rightarrow> u64 list option stats_result" where
  "inner_u64_vector mapping base outer row =
     rbind (inner_vector mapping base outer row 8) (\<lambda>inner.
       case inner of
         None \<Rightarrow> Inr None
       | Some v \<Rightarrow>
           rbind (collect_res (\<lambda>column. proto (vector_u64 v mapping column)) [0..<pv_length v])
             (\<lambda>values. Inr (Some values)))"

definition counter_of :: "bytes \<Rightarrow> counter" where
  "counter_of element = \<lparr>packets = u64_at element 0, counter_bytes = u64_at element 8\<rparr>"

definition inner_counters :: "bytes \<Rightarrow> usize \<Rightarrow> published_vector \<Rightarrow> nat \<Rightarrow> counter list stats_result" where
  "inner_counters mapping base outer row =
     rbind (inner_vector mapping base outer row 16) (\<lambda>inner.
       case inner of
         None \<Rightarrow> Inr []
       | Some v \<Rightarrow> collect_res (\<lambda>column.
           rbind (proto (vector_element v mapping column)) (\<lambda>element. Inr (counter_of element))) [0..<pv_length v])"

definition name_at :: "bytes \<Rightarrow> usize \<Rightarrow> usize \<Rightarrow> string stats_result" where
  "name_at mapping base p =
     (if p < base then Inl (Err (Protocol (PointerBeforeBase p base)))
      else let offset = p - base in
        if length mapping < offset then Inl (Panic ''range start index out of range for slice'')
        else let bs = drop offset mapping in
          case position (\<lambda>b. b = 0) bs of
            None \<Rightarrow> Inl (Err (Protocol MissingNameTerminator))
          | Some e \<Rightarrow> ok_or (Err (Protocol InvalidNameEncoding)) (from_utf8 (take e bs)))"

definition name_vector :: "bytes \<Rightarrow> usize \<Rightarrow> directory_entry \<Rightarrow> string list stats_result" where
  "name_vector mapping base e =
     rbind (proto (name_vector_pointer e)) (\<lambda>p.
       rbind (proto_fault (resolve mapping base p 8)) (\<lambda>outer.
         collect_res (\<lambda>index.
           rbind (proto (vector_pointer outer mapping index)) (\<lambda>q. name_at mapping base q))
           [0..<pv_length outer]))"

function decode_entry ::
  "bytes \<Rightarrow> usize \<Rightarrow> published_vector \<Rightarrow> nat \<Rightarrow> string \<Rightarrow> nat \<Rightarrow> metric_value stats_result" where
  "decode_entry mapping base directory index name depth =
     (if symlink_limit \<le> depth then Inl (Err (SymlinkCycle name symlink_limit))
      else rbind (read_directory_entry directory mapping index) (\<lambda>e.
        rbind (proto (entry_type e)) (\<lambda>t.
          case t of
            Symlink \<Rightarrow> rbind (proto (entry_symlink e)) (\<lambda>(target, column).
              rbind (decode_entry mapping base directory (unat target) name (depth + 1)) (\<lambda>value.
                proto (value_column value (unat column))))
          | ScalarIndex \<Rightarrow> rbind (proto (entry_scalar e)) (\<lambda>v. Inr (Scalar v))
          | Gauge \<Rightarrow> rbind (proto (entry_scalar e)) (\<lambda>v. Inr (GaugeValue v))
          | CounterVectorSimple \<Rightarrow> rbind (vector_of mapping base e) (\<lambda>v.
              rbind (collect_res (\<lambda>row.
                  rbind (inner_u64_vector mapping base v row) (\<lambda>values.
                    Inr (case values of None \<Rightarrow> [] | Some vs \<Rightarrow> vs))) [0..<pv_length v])
                (\<lambda>rows. Inr (Simple rows)))
          | CounterVectorCombined \<Rightarrow> rbind (vector_of mapping base e) (\<lambda>v.
              rbind (collect_res (inner_counters mapping base v) [0..<pv_length v])
                (\<lambda>rows. Inr (Combined rows)))
          | NameVector \<Rightarrow> rbind (name_vector mapping base e) (\<lambda>ns. Inr (Names ns))
          | HistogramLog2 \<Rightarrow> Inl (Err (UnsupportedDirectoryType name (type_name t)))
          | RingBuffer \<Rightarrow> Inl (Err (UnsupportedDirectoryType name (type_name t)))
          | Illegal \<Rightarrow> Inl (Err (UnsupportedDirectoryType name (type_name t)))
          | EmptySlot \<Rightarrow> Inl (Err (UnsupportedDirectoryType name (type_name t))))))"
  by pat_completeness auto
termination
  by (relation "measure (\<lambda>(_, _, _, _, _, depth). symlink_limit - depth)") (auto simp: symlink_limit_def)

declare decode_entry.simps [simp del]

section \<open>Reads of the published directory\<close>

record observation =
  obs_start :: bytes
  obs_body :: bytes
  obs_end :: bytes

fun attempts_from ::
  "string \<Rightarrow> (bytes \<Rightarrow> usize \<Rightarrow> published_vector \<Rightarrow> 'a stats_result) \<Rightarrow> observation list \<Rightarrow> 'a stats_result" where
  "attempts_from operation decode [] = Inl (Err (RetryExhausted operation retry_limit))"
| "attempts_from operation decode (ob # obs) =
     rbind (read_header (obs_start ob)) (\<lambda>header.
       rbind (proto (validate_version header)) (\<lambda>_.
         if is_write_in_progress header then attempts_from operation decode obs
         else rbind (proto_fault (resolve (obs_body ob) (hdr_base header) (hdr_directory_vector header)
                directory_entry_bytes)) (\<lambda>directory.
           rbind (decode (obs_body ob) (hdr_base header) directory) (\<lambda>v.
             rbind (read_header (obs_end ob)) (\<lambda>end_header.
               rbind (proto (validate_version end_header)) (\<lambda>_.
                 if \<not> is_write_in_progress end_header \<and> hdr_epoch end_header = hdr_epoch header
                 then Inr v else attempts_from operation decode obs))))))"

definition with_published_directory ::
  "string \<Rightarrow> (bytes \<Rightarrow> usize \<Rightarrow> published_vector \<Rightarrow> 'a stats_result) \<Rightarrow> (nat \<Rightarrow> observation) \<Rightarrow> 'a stats_result" where
  "with_published_directory operation decode obs =
     attempts_from operation decode (map obs [0..<retry_limit])"

definition stats_names :: "(nat \<Rightarrow> observation) \<Rightarrow> string list stats_result" where
  "stats_names = with_published_directory ''names'' (\<lambda>mapping _ directory.
     collect_res (\<lambda>index. rbind (read_directory_entry directory mapping index)
       (\<lambda>e. proto (name_of_entry e))) [0..<pv_length directory])"

definition stats_read :: "string \<Rightarrow> (nat \<Rightarrow> observation) \<Rightarrow> metric_value stats_result" where
  "stats_read name = with_published_directory ''read'' (\<lambda>mapping base directory.
     rbind (find_entry directory mapping name [0..<pv_length directory]) (\<lambda>found.
       case found of
         None \<Rightarrow> Inl (Err (MetricNotFound name))
       | Some index \<Rightarrow> decode_entry mapping base directory index name 0))"

section \<open>Connecting\<close>

text \<open>
  \<open>stat\<close> is the result of \<^verbatim>\<open>fstat\<close> (the file size), \<open>map_result\<close> that of \<^verbatim>\<open>mmap\<close>: the mapped
  bytes, or an error number.
\<close>

definition segment_mapping :: "int + int \<Rightarrow> (nat \<Rightarrow> int + bytes) \<Rightarrow> bytes stats_result" where
  "segment_mapping stat map_result =
     (case stat of
        Inl e \<Rightarrow> Inl (Err (Fstat e))
      | Inr size' \<Rightarrow>
          if size' \<le> 0 then Inl (Err (InvalidSegmentSize size'))
          else case map_result (nat size') of
            Inl e \<Rightarrow> Inl (Err (MappingFailed e))
          | Inr bs \<Rightarrow> rbind (read_header bs) (\<lambda>h. rbind (proto (validate_version h)) (\<lambda>_. Inr bs)))"

text \<open>\<^verbatim>\<open>socket_address\<close>: the path with its terminating zero must fit \<open>capacity\<close> bytes.\<close>

definition socket_address :: "usize \<Rightarrow> bytes \<Rightarrow> (bytes \<times> usize) stats_result" where
  "socket_address path_capacity path =
     (if path_capacity \<le> length path then Inl (Err (SocketPathTooLong path (path_capacity - 1)))
      else Inr (splice (replicate path_capacity 0) 0 path, 2 + length path + 1))"

text \<open>
  The system calls of \<^verbatim>\<open>connect_socket\<close>: the new descriptor or an error number, and for the others
  an error number when they fail.
\<close>

record socket_calls =
  sys_socket :: "int + int"
  sys_fcntl :: "int option"
  sys_connect :: "bytes \<Rightarrow> usize \<Rightarrow> int option"
  sys_setsockopt :: "nat \<Rightarrow> int option"

definition connect_socket :: "usize \<Rightarrow> socket_calls \<Rightarrow> bytes \<Rightarrow> int stats_result" where
  "connect_socket path_capacity calls path =
     (case sys_socket calls of
        Inl e \<Rightarrow> Inl (Err (Connect path e))
      | Inr socket \<Rightarrow>
          (case sys_fcntl calls of
             Some e \<Rightarrow> Inl (Err (Connect path e))
           | None \<Rightarrow> rbind (socket_address path_capacity path) (\<lambda>(address, address_length).
               case sys_connect calls address address_length of
                 Some e \<Rightarrow> Inl (Err (Connect path e))
               | None \<Rightarrow>
                   (case sys_setsockopt calls handoff_timeout of
                      Some e \<Rightarrow> Inl (Err (Connect path e))
                    | None \<Rightarrow> Inr socket))))"

record control_message =
  cm_socket_rights :: bool
  cm_len :: usize
  cm_fd :: int

datatype receive_result = Received nat | Interrupted | WouldBlock | ReceiveFailed int

text \<open>The receive loop over the results of its \<^verbatim>\<open>recvmsg\<close> calls; \<open>None\<close> while it still waits.\<close>

fun receive_wait :: "receive_result list \<Rightarrow> unit stats_result option" where
  "receive_wait [] = None"
| "receive_wait (r # rs) =
     (case r of
        Received n \<Rightarrow>
          if n = 0 then Some (Inr ()) else Some (Inl (Panic ''descriptor handoff carries no payload''))
      | Interrupted \<Rightarrow> receive_wait rs
      | WouldBlock \<Rightarrow> Some (Inl (Err (HandoffTimeout handoff_timeout)))
      | ReceiveFailed e \<Rightarrow> Some (Inl (Err (Receive e))))"

fun collect_descriptors :: "usize \<Rightarrow> control_message list \<Rightarrow> int option \<Rightarrow> usize \<Rightarrow> int option \<times> usize" where
  "collect_descriptors data_offset [] descriptor received_fds = (descriptor, received_fds)"
| "collect_descriptors data_offset (m # ms) descriptor received_fds =
     (if cm_socket_rights m \<and> data_offset + 4 \<le> cm_len m then
        collect_descriptors data_offset ms
          (if 0 \<le> cm_fd m \<and> descriptor = None then Some (cm_fd m) else descriptor) (received_fds + 1)
      else collect_descriptors data_offset ms descriptor received_fds)"

definition receive_segment_fd ::
  "receive_result list \<Rightarrow> usize \<Rightarrow> control_message list \<Rightarrow> bool \<Rightarrow> int stats_result option" where
  "receive_segment_fd results data_offset messages truncated =
     map_option (\<lambda>received. rbind received (\<lambda>_.
       case collect_descriptors data_offset messages None 0 of
         (Some fd, received_fds) \<Rightarrow>
           if received_fds = 1 \<and> \<not> truncated then Inr fd else Inl (Err (AncillaryData received_fds truncated))
       | (None, received_fds) \<Rightarrow> Inl (Err (AncillaryData received_fds truncated))))
     (receive_wait results)"

text \<open>
  \<^verbatim>\<open>StatsClient::connect\<close>; the outcomes of the receive and of the mapping are those for the
  descriptor they are asked for.
\<close>

definition stats_connect ::
  "usize \<Rightarrow> socket_calls \<Rightarrow> (int \<Rightarrow> receive_result list \<times> control_message list \<times> bool) \<Rightarrow> usize \<Rightarrow>
   (int \<Rightarrow> (int + int) \<times> (nat \<Rightarrow> int + bytes)) \<Rightarrow> bytes \<Rightarrow> bytes stats_result option" where
  "stats_connect path_capacity calls receive data_offset segment path =
     (case connect_socket path_capacity calls path of
        Inl e \<Rightarrow> Some (Inl e)
      | Inr socket \<Rightarrow>
          (case receive socket of (results, messages, truncated) \<Rightarrow>
             map_option (\<lambda>received. rbind received (\<lambda>segment_fd.
               case segment segment_fd of (stat, map_result) \<Rightarrow> segment_mapping stat map_result))
             (receive_segment_fd results data_offset messages truncated)))"

section \<open>What a segment publishes\<close>

text \<open>
  The server's side of the layout: the bytes of a directory entry, a counter row behind a
  pointer (a null pointer is an empty row), a name behind a pointer, one column of a value, and
  the answer an entry calls for after a number of symlink hops: a value, or the error for a kind
  of entry that has none.
\<close>

definition entry_bytes :: "directory_entry \<Rightarrow> bytes" where
  "entry_bytes e = to_ne_bytes 4 (ent_type e) @ replicate 4 0 @ to_ne_bytes 8 (ent_data e) @ ent_name e"









section \<open>Decoding what is published\<close>

lemma u64_at_append:
  "u64_at (to_ne_bytes 8 (w :: u64) @ bs) 0 = w"
  "length as = n \<Longrightarrow> u64_at (as @ bs) n = u64_at bs 0"
  by (simp_all add: u64_at_def)

lemma entry_bytes_read:
  assumes "length (ent_name e) = 128"
  shows "length (entry_bytes e) = directory_entry_bytes"
    and "from_ne_bytes (take 4 (entry_bytes e)) = ent_type e"
    and "u64_at (entry_bytes e) 8 = ent_data e"
    and "drop 16 (entry_bytes e) = ent_name e"
  using assms by (simp_all add: entry_bytes_def directory_entry_bytes_def u64_at_def)

lemma read_directory_entry_published:
  assumes "vector_at mapping base p directory_entry_bytes (map entry_bytes entries) directory"
    and "i < length entries" and "list_all (\<lambda>e. length (ent_name e) = 128) entries"
  shows "read_directory_entry directory mapping i = Inr (entries ! i)"
proof -
  have "vector_element directory mapping i = Inr (entry_bytes (entries ! i))"
    using vector_element_published [OF assms(1), of i] assms(2) by simp
  moreover have "length (ent_name (entries ! i)) = 128"
    using assms(2,3) by (simp add: list_all_length)
  ultimately show ?thesis
    by (simp add: read_directory_entry_def entry_bytes_read)
qed

lemma vector_pointer_published:
  assumes "vector_at mapping base p 8 (map (to_ne_bytes 8) (ps :: u64 list)) v" and "i < length ps"
  shows "vector_pointer v mapping i = Inr (unat (ps ! i))"
  using vector_element_published [OF assms(1), of i] assms by (simp add: vector_pointer_def vector_at_def)













text \<open>A quiescent segment: the directory it publishes, and nothing being written.\<close>

definition publishes_directory :: "bytes \<Rightarrow> usize \<Rightarrow> directory_entry list \<Rightarrow> bool" where
  "publishes_directory mapping base entries \<longleftrightarrow>
     (\<exists>h. read_header mapping = Inr h \<and> hdr_version h = 2 \<and> hdr_in_progress h = 0 \<and> hdr_base h = base \<and>
        published mapping base (hdr_directory_vector h) directory_entry_bytes (map entry_bytes entries)) \<and>
     list_all (\<lambda>e. length (ent_name e) = 128) entries"

abbreviation quiet :: "bytes \<Rightarrow> nat \<Rightarrow> observation" where
  "quiet mapping \<equiv> (\<lambda>_. \<lparr>obs_start = mapping, obs_body = mapping, obs_end = mapping\<rparr>)"

lemma retry_limit_upt: "[0..<retry_limit] = 0 # [1..<16]"
  by (simp add: retry_limit_def upt_rec)

lemma with_quiet_directory:
  assumes "publishes_directory mapping base entries"
  shows "\<exists>p directory. vector_at mapping base p directory_entry_bytes (map entry_bytes entries) directory \<and>
     (\<forall>operation decode. with_published_directory operation decode (quiet mapping) = decode mapping base directory)"
proof -
  obtain h where h: "read_header mapping = Inr h" "hdr_version h = 2" "hdr_in_progress h = 0" "hdr_base h = base"
    and pub: "published mapping base (hdr_directory_vector h) directory_entry_bytes (map entry_bytes entries)"
    using assms by (auto simp: publishes_directory_def)
  obtain directory where dir: "resolve mapping base (hdr_directory_vector h) directory_entry_bytes = Inr directory"
    "vector_at mapping base (hdr_directory_vector h) directory_entry_bytes (map entry_bytes entries) directory"
    using resolve_published [OF pub] by blast
  have "with_published_directory operation decode (quiet mapping) = decode mapping base directory"
    for operation and decode :: "bytes \<Rightarrow> usize \<Rightarrow> published_vector \<Rightarrow> 'a stats_result"
    using h dir(1) by (cases "decode mapping base directory")
      (simp_all add: with_published_directory_def retry_limit_upt validate_version_def stat_segment_version_def
        is_write_in_progress_def)
  with dir(2) show ?thesis by blast
qed

lemma read_header_layout:
  assumes "length mapping < usize_bound"
    and "mapping = to_ne_bytes 8 (v :: u64) @ to_ne_bytes 8 (b :: u64) @ to_ne_bytes 8 (ep :: u64) @
      to_ne_bytes 8 (wip :: u64) @ to_ne_bytes 8 (dv :: u64) @ rest"
  shows "read_header mapping = Inr \<lparr>hdr_version = v, hdr_base = unat b, hdr_epoch = ep, hdr_in_progress = wip,
     hdr_directory_vector = unat dv\<rparr>"
  using assms by (simp add: read_header_def slice_get_def shared_header_bytes_def u64_at_def)

section \<open>Properties of the stats client\<close>












text \<open>The witness publishes a gauge and a symlink to it.\<close>

definition sample_entry :: "u32 \<Rightarrow> u64 \<Rightarrow> string \<Rightarrow> directory_entry" where
  "sample_entry t d name = \<lparr>ent_type = t, ent_data = d, ent_name = str_bytes name @ replicate (128 - length name) 0\<rparr>"

definition sample_entries :: "directory_entry list" where
  "sample_entries = [sample_entry 9 42 ''/a'', sample_entry 6 0 ''/b'']"

definition sample_segment :: bytes where
  "sample_segment = to_ne_bytes 8 (2 :: u64) @ to_ne_bytes 8 (4096 :: u64) @ to_ne_bytes 8 (7 :: u64) @
     to_ne_bytes 8 (0 :: u64) @ to_ne_bytes 8 (4144 :: u64) @ to_ne_bytes 4 (2 :: u32) @ replicate 4 0 @
     concat (map entry_bytes sample_entries)"

lemma sample_entry_length [simp]: "length name \<le> 128 \<Longrightarrow> length (ent_name (sample_entry t d name)) = 128"
  by (simp add: sample_entry_def)

lemma sample_entry_fields [simp]: "ent_type (sample_entry t d name) = t" "ent_data (sample_entry t d name) = d"
  by (simp_all add: sample_entry_def)

lemma sample_entry_name:
  assumes "CHR 0x00 \<notin> set name" and "rust_str name" and "length name \<le> 126"
  shows "name_of_entry (sample_entry t d name) = Inr name"
proof -
  have pad: "replicate (128 - length name) 0 = (0 :: u8) # replicate (127 - length name) 0"
    using assms(3) by (cases "128 - length name") (auto simp: Suc_diff_le)
  have "position (\<lambda>b. b = 0) (str_bytes name @ 0 # replicate (127 - length name) 0) = Some (length (str_bytes name))"
    using assms(1) by (intro position_append_hit) auto
  then show ?thesis
    using assms(2,3)
    by (simp add: name_of_entry_def sample_entry_def pad max_name_length_def max_name_bytes_def list_ex_iff)
qed

lemma sample_publishes: "publishes_directory sample_segment 4096 sample_entries"
proof -
  have len: "length (entry_bytes (sample_entry t d name)) = 144" if "length name \<le> 128" for t d name
    using that entry_bytes_read(1) by (simp add: directory_entry_bytes_def)
  have total: "length sample_segment = 336"
    by (simp add: sample_segment_def sample_entries_def len)
  have "read_header sample_segment = Inr \<lparr>hdr_version = 2, hdr_base = 4096, hdr_epoch = 7, hdr_in_progress = 0,
      hdr_directory_vector = 4144\<rparr>"
    using read_header_layout [where v = 2 and b = 4096 and ep = 7 and wip = 0 and dv = 4144] total
    by (simp add: sample_segment_def usize_bound_def)
  moreover have "published sample_segment 4096 4144 directory_entry_bytes (map entry_bytes sample_entries)"
    unfolding published_def
    by (intro conjI)
      (simp_all add: total usize_bound_def directory_entry_bytes_def sample_entries_def len
        sample_segment_def nth_append)
  ultimately show ?thesis
    by (simp add: publishes_directory_def sample_entries_def)
qed

lemma sample_header: "read_header sample_segment = Inr \<lparr>hdr_version = 2, hdr_base = 4096, hdr_epoch = 7,
    hdr_in_progress = 0, hdr_directory_vector = 4144\<rparr>"
  using read_header_layout [where v = 2 and b = 4096 and ep = 7 and wip = 0 and dv = 4144, of sample_segment
      "to_ne_bytes 4 (2 :: u32) @ replicate 4 0 @ concat (map entry_bytes sample_entries)"]
  by (simp add: sample_segment_def usize_bound_def sample_entries_def entry_bytes_read(1) directory_entry_bytes_def)



lemma attempts_from_Inr:
  assumes "attempts_from operation decode obs = Inr v"
  shows "\<exists>ob\<in>set obs. \<exists>h e directory.
     read_header (obs_start ob) = Inr h \<and> read_header (obs_end ob) = Inr e \<and>
     hdr_version h = 2 \<and> hdr_version e = 2 \<and> hdr_in_progress h = 0 \<and> hdr_in_progress e = 0 \<and>
     hdr_epoch e = hdr_epoch h \<and>
     resolve (obs_body ob) (hdr_base h) (hdr_directory_vector h) directory_entry_bytes = Inr directory \<and>
     decode (obs_body ob) (hdr_base h) directory = Inr v"
  using assms
proof (induction operation decode obs rule: attempts_from.induct)
  case (2 operation decode ob obs)
  from "2.prems" obtain h where h: "read_header (obs_start ob) = Inr h" "validate_version h = Inr ()"
    by (auto simp: rbind_Inr)
  show ?case
  proof (cases "is_write_in_progress h")
    case True
    with h "2.prems" have "attempts_from operation decode obs = Inr v" by simp
    with "2.IH"(1) [OF h(1), of "()"] h True show ?thesis by auto
  next
    case False
    with h "2.prems" obtain d x e where step:
      "resolve (obs_body ob) (hdr_base h) (hdr_directory_vector h) directory_entry_bytes = Inr d"
      "decode (obs_body ob) (hdr_base h) d = Inr x" "read_header (obs_end ob) = Inr e" "validate_version e = Inr ()"
      by (auto simp: rbind_Inr)
    show ?thesis
    proof (cases "\<not> is_write_in_progress e \<and> hdr_epoch e = hdr_epoch h")
      case True
      with h False step "2.prems" show ?thesis
        by (auto simp: validate_version_def stat_segment_version_def is_write_in_progress_def split: if_splits)
    next
      case retry: False
      with h False step "2.prems" have "attempts_from operation decode obs = Inr v" by auto
      with "2.IH"(2) [OF h(1), of "()" d x e "()"] h False step retry show ?thesis by auto
    qed
  qed
qed simp

text \<open>
  C4. A value is only returned from an attempt whose two header reads saw the same epoch, the
  supported version and no write in progress.
\<close>

theorem directory_read_is_stable:
  assumes "with_published_directory operation decode obs = Inr v"
  shows "\<exists>i<16. \<exists>h e directory.
     read_header (obs_start (obs i)) = Inr h \<and> read_header (obs_end (obs i)) = Inr e \<and>
     hdr_version h = 2 \<and> hdr_version e = 2 \<and> hdr_in_progress h = 0 \<and> hdr_in_progress e = 0 \<and>
     hdr_epoch e = hdr_epoch h \<and>
     resolve (obs_body (obs i)) (hdr_base h) (hdr_directory_vector h) directory_entry_bytes = Inr directory \<and>
     decode (obs_body (obs i)) (hdr_base h) directory = Inr v"
  using attempts_from_Inr [OF assms [unfolded with_published_directory_def]] by (auto simp: retry_limit_def)

lemma directory_read_is_stable_witness:
  "\<exists>i<16. \<exists>h e directory.
     read_header (obs_start (quiet sample_segment i)) = Inr h \<and> read_header (obs_end (quiet sample_segment i)) = Inr e \<and>
     hdr_version h = 2 \<and> hdr_version e = 2 \<and> hdr_in_progress h = 0 \<and> hdr_in_progress e = 0 \<and>
     hdr_epoch e = hdr_epoch h \<and>
     resolve (obs_body (quiet sample_segment i)) (hdr_base h) (hdr_directory_vector h) directory_entry_bytes = Inr directory \<and>
     (\<lambda>_ _ _. Inr True) (obs_body (quiet sample_segment i)) (hdr_base h) directory = (Inr True :: bool stats_result)"
proof (rule directory_read_is_stable)
  show "with_published_directory ''names'' (\<lambda>_ _ _. Inr True) (quiet sample_segment) = Inr True"
    using with_quiet_directory [OF sample_publishes] by blast
qed

text \<open>
  A decoding error ends the operation at once, even when the epoch moved under it: the
  attempt is not repeated.
\<close>

theorem decode_error_not_retried:
  assumes "read_header (obs_start (obs 0)) = Inr h" and "hdr_version h = 2" and "hdr_in_progress h = 0"
    and "resolve (obs_body (obs 0)) (hdr_base h) (hdr_directory_vector h) directory_entry_bytes = Inr directory"
    and "decode (obs_body (obs 0)) (hdr_base h) directory = Inl err"
  shows "with_published_directory operation decode obs = Inl err"
  using assms
  by (simp add: with_published_directory_def retry_limit_upt validate_version_def stat_segment_version_def
      is_write_in_progress_def)

lemma decode_error_not_retried_witness:
  "with_published_directory ''read'' (\<lambda>_ _ _. Inl (Err (MetricNotFound ''x'')))
     (\<lambda>_. \<lparr>obs_start = sample_segment, obs_body = sample_segment, obs_end = []\<rparr>) =
   (Inl (Err (MetricNotFound ''x'')) :: bool stats_result)"
proof -
  have "published sample_segment 4096 4144 directory_entry_bytes (map entry_bytes sample_entries)"
    using sample_publishes by (auto simp: publishes_directory_def sample_header)
  then obtain directory where "resolve sample_segment 4096 4144 directory_entry_bytes = Inr directory"
    using resolve_published by blast
  then show ?thesis
    by (intro decode_error_not_retried [where directory = directory and h = "\<lparr>hdr_version = 2, hdr_base = 4096,
          hdr_epoch = 7, hdr_in_progress = 0, hdr_directory_vector = 4144\<rparr>"]) (simp_all add: sample_header)
qed

lemma symlink_chain:
  assumes dir: "vector_at mapping base p directory_entry_bytes (map entry_bytes entries) directory"
    and names: "list_all (\<lambda>e. length (ent_name e) = 128) entries"
    and "\<forall>k<length path. path ! k < length entries \<and> ent_type (entries ! (path ! k)) = 6"
    and "\<forall>k. Suc k < length path \<longrightarrow> unat (ucast (ent_data (entries ! (path ! k)) AND 0xffffffff) :: u32) = path ! Suc k"
    and "path \<noteq> []" and "depth + length path = symlink_limit"
  shows "decode_entry mapping base directory (path ! 0) name depth = Inl (Err (SymlinkCycle name 16))"
  using assms(3-6)
proof (induction path arbitrary: depth)
  case (Cons x xs)
  have entry: "read_directory_entry directory mapping x = Inr (entries ! x)" "ent_type (entries ! x) = 6"
    using Cons.prems(1) by (auto intro!: read_directory_entry_published [OF dir _ names] dest: spec [of _ 0])
  have "decode_entry mapping base directory (unat (ucast (ent_data (entries ! x) AND 0xffffffff) :: u32)) name
      (depth + 1) = Inl (Err (SymlinkCycle name 16))"
  proof (cases "xs = []")
    case True
    with Cons.prems(4) show ?thesis
      by (subst decode_entry.simps) (simp add: symlink_limit_def)
  next
    case False
    have "unat (ucast (ent_data (entries ! x) AND 0xffffffff) :: u32) = xs ! 0"
      using Cons.prems(2) False by (auto dest: spec [of _ 0])
    moreover have "decode_entry mapping base directory (xs ! 0) name (depth + 1) = Inl (Err (SymlinkCycle name 16))"
      using Cons.prems False by (intro Cons.IH) (auto dest: spec [of _ "Suc _"])
    ultimately show ?thesis by simp
  qed
  with entry Cons.prems(4) show ?case
    by (subst decode_entry.simps)
      (simp add: entry_type_def entry_symlink_def directory_type_try_from_def symlink_limit_def)
qed simp

text \<open>
  Decoding always ends: a chain of symlinks longer than the limit, a cycle included, is
  reported and not followed further.
\<close>

theorem symlink_cycle_reported:
  assumes "vector_at mapping base p directory_entry_bytes (map entry_bytes entries) directory"
    and "list_all (\<lambda>e. length (ent_name e) = 128) entries" and "length path = 16"
    and "\<forall>k<16. path ! k < length entries \<and> ent_type (entries ! (path ! k)) = 6"
    and "\<forall>k<15. unat (ucast (ent_data (entries ! (path ! k)) AND 0xffffffff) :: u32) = path ! Suc k"
  shows "decode_entry mapping base directory (path ! 0) name 0 = Inl (Err (SymlinkCycle name 16))"
  using assms by (intro symlink_chain [where path = path]) (auto simp: symlink_limit_def)

definition loop_segment :: bytes where
  "loop_segment = to_ne_bytes 8 (2 :: u64) @ to_ne_bytes 8 (4096 :: u64) @ to_ne_bytes 8 (7 :: u64) @
     to_ne_bytes 8 (0 :: u64) @ to_ne_bytes 8 (4144 :: u64) @ to_ne_bytes 4 (1 :: u32) @ replicate 4 0 @
     entry_bytes (sample_entry 6 0 ''/l'')"

lemma symlink_cycle_reported_witness:
  "\<exists>directory. resolve loop_segment 4096 4144 144 = Inr directory \<and>
     decode_entry loop_segment 4096 directory 0 ''/l'' 0 = Inl (Err (SymlinkCycle ''/l'' 16))"
proof -
  have len: "length (entry_bytes (sample_entry 6 0 ''/l'')) = 144"
    using entry_bytes_read(1) by (simp add: directory_entry_bytes_def)
  then have total: "length loop_segment = 192"
    by (simp add: loop_segment_def)
  have "published loop_segment 4096 4144 directory_entry_bytes (map entry_bytes [sample_entry 6 0 ''/l''])"
    unfolding published_def
    by (intro conjI)
      (simp_all add: total usize_bound_def directory_entry_bytes_def len loop_segment_def nth_append)
  then obtain directory where res: "resolve loop_segment 4096 4144 directory_entry_bytes = Inr directory" and
    dir: "vector_at loop_segment 4096 4144 directory_entry_bytes (map entry_bytes [sample_entry 6 0 ''/l'']) directory"
    using resolve_published by blast
  have "decode_entry loop_segment 4096 directory (replicate 16 0 ! 0) ''/l'' 0 = Inl (Err (SymlinkCycle ''/l'' 16))"
    by (rule symlink_cycle_reported [OF dir]) simp_all
  with res show ?thesis
    by (simp add: directory_entry_bytes_def)
qed

text \<open>
  Element access never leaves the mapping: a successful read is a slice of it of exactly the
  element size, whatever length the vector header claims.
\<close>

theorem vector_element_in_bounds:
  assumes "vector_element v mapping i = Inr bs"
  shows "length bs = pv_element_size v \<and> pv_offset v + i * pv_element_size v + pv_element_size v \<le> length mapping \<and>
     bs = take (pv_element_size v) (drop (pv_offset v + i * pv_element_size v) mapping)"
  using assms by (auto simp: vector_element_Inr)

lemma vector_element_in_bounds_witness:
  "length [3 :: u8, 4] = pv_element_size \<lparr>pv_offset = 2, pv_length = 9, pv_alignment = 8, pv_element_size = 2\<rparr> \<and>
     pv_offset \<lparr>pv_offset = 2, pv_length = 9, pv_alignment = 8, pv_element_size = 2\<rparr> +
       0 * pv_element_size \<lparr>pv_offset = 2, pv_length = 9, pv_alignment = 8, pv_element_size = 2\<rparr> +
       pv_element_size \<lparr>pv_offset = 2, pv_length = 9, pv_alignment = 8, pv_element_size = 2\<rparr> \<le> length [1 :: u8, 2, 3, 4] \<and>
     [3, 4] = take (pv_element_size \<lparr>pv_offset = 2, pv_length = 9, pv_alignment = 8, pv_element_size = 2\<rparr>)
       (drop (pv_offset \<lparr>pv_offset = 2, pv_length = 9, pv_alignment = 8, pv_element_size = 2\<rparr> +
         0 * pv_element_size \<lparr>pv_offset = 2, pv_length = 9, pv_alignment = 8, pv_element_size = 2\<rparr>) [1 :: u8, 2, 3, 4])"
  by (rule vector_element_in_bounds) (simp add: vector_element_Inr usize_bound_def)

definition dangling_segment :: bytes where
  "dangling_segment = to_ne_bytes 8 (2 :: u64) @ to_ne_bytes 8 (4096 :: u64) @ to_ne_bytes 8 (7 :: u64) @
     to_ne_bytes 8 (0 :: u64) @ to_ne_bytes 8 (4144 :: u64) @ to_ne_bytes 4 (1 :: u32) @ replicate 4 0 @
     entry_bytes (sample_entry 4 4296 ''/n'') @ to_ne_bytes 4 (1 :: u32) @ replicate 4 0 @ to_ne_bytes 8 (9999 :: u64)"

lemma dangling_layout:
  "published dangling_segment 4096 4144 144 (map entry_bytes [sample_entry 4 4296 ''/n''])"
  "published dangling_segment 4096 4296 8 (map (to_ne_bytes 8) [9999 :: u64])"
  "length dangling_segment = 208"
proof -
  have len: "length (entry_bytes (sample_entry 4 4296 ''/n'')) = 144"
    using entry_bytes_read(1) by (simp add: directory_entry_bytes_def)
  then show total: "length dangling_segment = 208"
    by (simp add: dangling_segment_def)
  show "published dangling_segment 4096 4144 144 (map entry_bytes [sample_entry 4 4296 ''/n''])"
    "published dangling_segment 4096 4296 8 (map (to_ne_bytes 8) [9999 :: u64])"
    unfolding published_def
    by (intro conjI; simp add: total usize_bound_def len dangling_segment_def nth_append)+
qed

text \<open>
  A segment whose name vector holds a pointer past the mapping makes a read panic instead of
  reporting an error: the slice of the mapping is taken before any bounds check.
\<close>

theorem name_vector_read_panics:
  "publishes_directory dangling_segment 4096 [sample_entry 4 4296 ''/n''] \<and>
   stats_read ''/n'' (quiet dangling_segment) = Inl (Panic ''range start index out of range for slice'')"
proof -
  have "read_header dangling_segment = Inr \<lparr>hdr_version = 2, hdr_base = 4096, hdr_epoch = 7, hdr_in_progress = 0,
      hdr_directory_vector = 4144\<rparr>"
    using read_header_layout [where v = 2 and b = 4096 and ep = 7 and wip = 0 and dv = 4144] dangling_layout(3)
    by (simp add: dangling_segment_def usize_bound_def)
  then have pub: "publishes_directory dangling_segment 4096 [sample_entry 4 4296 ''/n'']"
    using dangling_layout(1) by (simp add: publishes_directory_def directory_entry_bytes_def)
  obtain p directory where
    dir: "vector_at dangling_segment 4096 p directory_entry_bytes (map entry_bytes [sample_entry 4 4296 ''/n'']) directory"
    and run: "with_published_directory operation decode (quiet dangling_segment) = decode dangling_segment 4096 directory"
    for operation and decode :: "bytes \<Rightarrow> usize \<Rightarrow> published_vector \<Rightarrow> metric_value stats_result"
    using with_quiet_directory [OF pub] by blast
  have entry: "read_directory_entry directory dangling_segment 0 = Inr (sample_entry 4 4296 ''/n'')"
    using read_directory_entry_published [OF dir, of 0] by simp
  obtain v where v: "resolve dangling_segment 4096 4296 8 = Inr v"
    "vector_at dangling_segment 4096 4296 8 (map (to_ne_bytes 8) [9999 :: u64]) v"
    using resolve_published [OF dangling_layout(2)] by blast
  have "decode_entry dangling_segment 4096 directory 0 ''/n'' 0 =
      Inl (Panic ''range start index out of range for slice'')"
    using entry v(1) vector_at_length [OF v(2)] vector_pointer_published [OF v(2), of 0] dangling_layout(3)
    by (subst decode_entry.simps)
      (simp add: symlink_limit_def entry_type_def directory_type_try_from_def name_vector_def
        name_vector_pointer_def name_at_def)
  moreover have "find_entry directory dangling_segment ''/n'' [0] = Inr (Some 0)"
    using entry by (simp add: sample_entry_name utf8_valid_ascii byte_of_char_def)
  ultimately show ?thesis
    using pub vector_at_length [OF dir] by (simp add: stats_read_def run)
qed

lemma collect_descriptors_count:
  "collect_descriptors off ms d n =
     (case d of Some fd \<Rightarrow> Some fd
        | None \<Rightarrow> find (\<lambda>fd. 0 \<le> fd) (map cm_fd (filter (\<lambda>m. cm_socket_rights m \<and> off + 4 \<le> cm_len m) ms)),
      n + length (filter (\<lambda>m. cm_socket_rights m \<and> off + 4 \<le> cm_len m) ms))"
  by (induction off ms d n rule: collect_descriptors.induct) (auto split: option.splits)

text \<open>
  The handoff accepts exactly one usable descriptor: one rights message of full length with a
  non-negative descriptor, and an untruncated control buffer.
\<close>

theorem handoff_accepts_one_descriptor:
  "receive_segment_fd results off messages truncated = Some (Inr fd) \<longleftrightarrow>
     receive_wait results = Some (Inr ()) \<and> \<not> truncated \<and> 0 \<le> fd \<and>
     map cm_fd (filter (\<lambda>m. cm_socket_rights m \<and> off + 4 \<le> cm_len m) messages) = [fd]"
proof -
  let ?ms = "filter (\<lambda>m. cm_socket_rights m \<and> off + 4 \<le> cm_len m) messages"
  have "length ?ms = 1 \<and> find (\<lambda>fd. 0 \<le> fd) (map cm_fd ?ms) = Some fd \<longleftrightarrow> 0 \<le> fd \<and> map cm_fd ?ms = [fd]"
    by (cases ?ms) (auto split: if_splits)
  then show ?thesis
    by (auto simp: receive_segment_fd_def collect_descriptors_count rbind_Inr split: option.splits if_splits)
qed

end
