(* ===== verification/Stats_Providers.thy ===== *)
theory Stats_Providers
  imports Stats_Client "HOL-Library.Char_ord" "HOL-Library.List_Lexorder" "HOL-Library.Product_Lexorder"
begin

text \<open>
  The family projections of \<^verbatim>\<open>hammer-stats-client\<close>: \<^verbatim>\<open>memory.rs\<close>, \<^verbatim>\<open>system.rs\<close>,
  \<^verbatim>\<open>buffer_pools.rs\<close>, \<^verbatim>\<open>node.rs\<close> and \<^verbatim>\<open>node_error.rs\<close>, each over the two operations of a
  reader. The monotonic clock is an argument.
\<close>

section \<open>Readers and strings\<close>

record stats_reader =
  rd_names :: "string list stats_result"
  rd_read :: "string \<Rightarrow> metric_value stats_result"

text \<open>The mapped segment as a reader; every call observes the segment on its own.\<close>

definition client_reader :: "(nat \<Rightarrow> observation) \<Rightarrow> (string \<Rightarrow> nat \<Rightarrow> observation) \<Rightarrow> stats_reader" where
  "client_reader names_obs read_obs =
     \<lparr>rd_names = stats_names names_obs, rd_read = (\<lambda>name. stats_read name (read_obs name))\<rparr>"

definition strip_prefix :: "string \<Rightarrow> string \<Rightarrow> string option" where
  "strip_prefix p s = (if take (length p) s = p then Some (drop (length p) s) else None)"

definition split_once :: "char \<Rightarrow> string \<Rightarrow> (string \<times> string) option" where
  "split_once c s =
     (case position (\<lambda>x. x = c) s of None \<Rightarrow> None | Some i \<Rightarrow> Some (take i s, drop (i + 1) s))"

fun metric_type_name :: "metric_value \<Rightarrow> string" where
  "metric_type_name (Scalar _) = ''scalar_index''"
| "metric_type_name (GaugeValue _) = ''gauge''"
| "metric_type_name (Simple _) = ''counter_vector_simple''"
| "metric_type_name (Combined _) = ''counter_vector_combined''"
| "metric_type_name (Names _) = ''name_vector''"
| "metric_type_name (Histogram _) = ''histogram_log2''"
| "metric_type_name (Ring _) = ''ring_buffer''"

definition unexpected_type :: "string \<Rightarrow> string \<Rightarrow> metric_value \<Rightarrow> 'a stats_result" where
  "unexpected_type name expected v = Inl (Err (UnexpectedMetricType name expected (metric_type_name v)))"

definition read_u64 :: "stats_reader \<Rightarrow> string \<Rightarrow> u64 stats_result" where
  "read_u64 r name =
     rbind (rd_read r name) (\<lambda>v. case v of
         Scalar w \<Rightarrow> Inr w
       | GaugeValue w \<Rightarrow> Inr w
       | _ \<Rightarrow> unexpected_type name ''scalar_index or gauge'' v)"

definition checked_total :: "u64 list \<Rightarrow> 'e fault + u64" where
  "checked_total ws =
     (if (\<Sum>w\<leftarrow>ws. unat w) < 2 ^ 64 then Inr (sum_list ws) else Inl (Panic ''attempt to add with overflow''))"

section \<open>Memory heaps\<close>

record memory_heap_usage =
  heap_name :: string
  total_bytes :: u64
  used_bytes :: u64
  free_bytes :: u64
  used_mmap_bytes :: u64
  max_allocated_bytes :: u64
  free_chunk_count :: u64
  releasable_bytes :: u64

definition is_heap_entry :: "string \<Rightarrow> bool" where
  "is_heap_entry name =
     (case strip_prefix ''/mem/'' name of
        None \<Rightarrow> False
      | Some rest \<Rightarrow> rest \<noteq> [] \<and> CHR ''/'' \<notin> set rest)"

definition heap_usage :: "string \<Rightarrow> string \<Rightarrow> u64 list list \<Rightarrow> memory_heap_usage stats_result" where
  "heap_usage name hname rows =
     (if length rows \<noteq> 1 then Inl (Err (UnexpectedRowCount name 1 (length rows)))
      else let columns = rows ! 0 in
        if length columns \<noteq> 7 then Inl (Err (UnexpectedColumnCount name 7 (length columns)))
        else Inr \<lparr>heap_name = hname, total_bytes = columns ! 0, used_bytes = columns ! 1,
          free_bytes = columns ! 2, used_mmap_bytes = columns ! 3, max_allocated_bytes = columns ! 4,
          free_chunk_count = columns ! 5, releasable_bytes = columns ! 6\<rparr>)"

definition read_heap :: "stats_reader \<Rightarrow> string \<Rightarrow> memory_heap_usage stats_result" where
  "read_heap r name =
     (case strip_prefix ''/mem/'' name of
        None \<Rightarrow> Inl (Panic ''a heap entry starts with the family prefix'')
      | Some hname \<Rightarrow> rbind (rd_read r name) (\<lambda>v. case v of
            Simple rows \<Rightarrow> heap_usage name hname rows
          | _ \<Rightarrow> unexpected_type name ''counter_vector_simple'' v))"

definition memory_report :: "stats_reader \<Rightarrow> memory_heap_usage list stats_result" where
  "memory_report r = rbind (rd_names r) (\<lambda>names. collect_res (read_heap r) (filter is_heap_entry names))"

definition memory_heap :: "memory_heap_usage list \<Rightarrow> string \<Rightarrow> memory_heap_usage option" where
  "memory_heap heaps name = find (\<lambda>h. heap_name h = name) heaps"

section \<open>System\<close>

record system_stats =
  worker_thread_count :: u64
  main_loop_counts :: "u64 list"
  loop_rates_per_second :: "u64 list"
  heartbeat :: u64
  boottime_unix_seconds :: u64
  last_stats_clear_unix_seconds :: "u64 option"
  sys_sampled_at :: nat

definition read_row :: "stats_reader \<Rightarrow> string \<Rightarrow> u64 list stats_result" where
  "read_row r name =
     rbind (rd_read r name) (\<lambda>v. case v of
         Simple rows \<Rightarrow>
           if length rows \<noteq> 1 then Inl (Err (UnexpectedRowCount name 1 (length rows))) else Inr (rows ! 0)
       | _ \<Rightarrow> unexpected_type name ''counter_vector_simple'' v)"

definition system_report :: "nat \<Rightarrow> stats_reader \<Rightarrow> system_stats stats_result" where
  "system_report now_at r =
     rbind (read_u64 r ''/sys/num_worker_threads'') (\<lambda>workers.
     rbind (read_row r ''/sys/main_loop_count_per_worker'') (\<lambda>counts.
     rbind (read_row r ''/sys/loops_per_worker'') (\<lambda>rates.
     rbind (collect_res (\<lambda>(name, columns).
         if columns \<noteq> unat workers then Inl (Err (WorkerCountMismatch name workers columns)) else Inr ())
       [(''/sys/main_loop_count_per_worker'', length counts), (''/sys/loops_per_worker'', length rates)]) (\<lambda>_.
     rbind (read_u64 r ''/sys/last_stats_clear'') (\<lambda>clear.
     rbind (read_u64 r ''/sys/heartbeat'') (\<lambda>beat.
     rbind (read_u64 r ''/sys/boottime'') (\<lambda>boot.
       Inr \<lparr>worker_thread_count = workers, main_loop_counts = counts, loop_rates_per_second = rates,
         heartbeat = beat, boottime_unix_seconds = boot,
         last_stats_clear_unix_seconds = (if clear \<noteq> 0 then Some clear else None),
         sys_sampled_at = now_at\<rparr>)))))))"

text \<open>
  Rates between two readings; \<open>rate\<close> is the floating-point division of a count by an elapsed
  time, instants and durations are in nanoseconds.
\<close>

definition checked_deltas :: "u64 list \<Rightarrow> u64 list \<Rightarrow> u64 list option" where
  "checked_deltas current previous =
     (if list_all2 (\<lambda>c p. p \<le> c) current previous then Some (map2 (-) current previous) else None)"

definition main_loop_rates_per_second ::
  "(u64 \<Rightarrow> nat \<Rightarrow> 'f) \<Rightarrow> system_stats \<Rightarrow> system_stats \<Rightarrow> 'f list option" where
  "main_loop_rates_per_second rate now_stats earlier =
     (if sys_sampled_at now_stats < sys_sampled_at earlier then None
      else let elapsed = sys_sampled_at now_stats - sys_sampled_at earlier in
        if elapsed = 0 \<or> length (main_loop_counts now_stats) \<noteq> length (main_loop_counts earlier) then None
        else map_option (map (\<lambda>delta. rate delta elapsed))
          (checked_deltas (main_loop_counts now_stats) (main_loop_counts earlier)))"

section \<open>Buffer pools\<close>

record buffer_pool_usage =
  pool_name :: string
  cached :: u64
  used :: u64
  available :: u64

definition buffer_count :: "buffer_pool_usage \<Rightarrow> 'e fault + u64" where
  "buffer_count p = checked_total [cached p, used p, available p]"

definition pool_of_gauge_entry :: "string \<Rightarrow> string option" where
  "pool_of_gauge_entry name =
     (case strip_prefix ''/buffer-pools/'' name of
        None \<Rightarrow> None
      | Some rest \<Rightarrow> (case split_once (CHR ''/'') rest of
          None \<Rightarrow> None
        | Some (pool, gauge) \<Rightarrow>
            if gauge \<in> {''cached'', ''used'', ''available''} \<and> pool \<noteq> [] then Some pool else None))"

definition read_gauge :: "stats_reader \<Rightarrow> string \<Rightarrow> u64 stats_result" where
  "read_gauge r name =
     rbind (rd_read r name) (\<lambda>v. case v of
         GaugeValue w \<Rightarrow> Inr w
       | _ \<Rightarrow> unexpected_type name ''gauge'' v)"

definition read_pool :: "stats_reader \<Rightarrow> string \<Rightarrow> buffer_pool_usage stats_result" where
  "read_pool r pool =
     rbind (read_gauge r (''/buffer-pools/'' @ pool @ ''/cached'')) (\<lambda>c.
     rbind (read_gauge r (''/buffer-pools/'' @ pool @ ''/used'')) (\<lambda>u.
     rbind (read_gauge r (''/buffer-pools/'' @ pool @ ''/available'')) (\<lambda>a.
       Inr \<lparr>pool_name = pool, cached = c, used = u, available = a\<rparr>)))"

fun collect_pools ::
  "stats_reader \<Rightarrow> string list \<Rightarrow> buffer_pool_usage list \<Rightarrow> buffer_pool_usage list stats_result" where
  "collect_pools r [] pools = Inr pools"
| "collect_pools r (name # names) pools =
     (case pool_of_gauge_entry name of
        None \<Rightarrow> collect_pools r names pools
      | Some pool \<Rightarrow>
          if list_ex (\<lambda>p. pool_name p = pool) pools then collect_pools r names pools
          else rbind (read_pool r pool) (\<lambda>p. collect_pools r names (pools @ [p])))"

definition buffer_pool_report :: "stats_reader \<Rightarrow> buffer_pool_usage list stats_result" where
  "buffer_pool_report r =
     rbind (rd_names r) (\<lambda>names.
       rbind (collect_pools r names []) (\<lambda>pools. Inr (sort_key pool_name pools)))"

definition buffer_pool :: "buffer_pool_usage list \<Rightarrow> string \<Rightarrow> buffer_pool_usage option" where
  "buffer_pool pools name = find (\<lambda>p. pool_name p = name) pools"

section \<open>Graph nodes\<close>

datatype node_counter = Clocks | Vectors | Calls | Suspends

fun node_counter_name :: "node_counter \<Rightarrow> string" where
  "node_counter_name Clocks = ''clocks''" | "node_counter_name Vectors = ''vectors''"
| "node_counter_name Calls = ''calls''" | "node_counter_name Suspends = ''suspends''"

record node_usage =
  nu_name :: string
  nu_clocks :: "u64 list"
  nu_vectors :: "u64 list"
  nu_calls :: "u64 list"
  nu_suspends :: "u64 list"

fun usage_counter :: "node_usage \<Rightarrow> node_counter \<Rightarrow> u64 list" where
  "usage_counter u Clocks = nu_clocks u" | "usage_counter u Vectors = nu_vectors u"
| "usage_counter u Calls = nu_calls u" | "usage_counter u Suspends = nu_suspends u"

record node_stats =
  ns_names :: "string list"
  ns_clocks :: "u64 list list"
  ns_vectors :: "u64 list list"
  ns_calls :: "u64 list list"
  ns_suspends :: "u64 list list"
  ns_sampled_at :: nat

definition thread_count :: "node_stats \<Rightarrow> nat" where
  "thread_count s = length (ns_clocks s)"

fun stats_counter :: "node_stats \<Rightarrow> node_counter \<Rightarrow> u64 list list" where
  "stats_counter s Clocks = ns_clocks s" | "stats_counter s Vectors = ns_vectors s"
| "stats_counter s Calls = ns_calls s" | "stats_counter s Suspends = ns_suspends s"

definition node_column :: "u64 list list \<Rightarrow> nat \<Rightarrow> stats_error fault + u64 list" where
  "node_column counter slot =
     collect_res (\<lambda>row. if slot < length row then Inr (row ! slot) else Inl (Panic ''index out of bounds'')) counter"

definition node_lookup :: "node_stats \<Rightarrow> string \<Rightarrow> node_usage option stats_result" where
  "node_lookup s name =
     (case filter (\<lambda>i. ns_names s ! i = name) [0..<length (ns_names s)] of
        [slot] \<Rightarrow>
          rbind (node_column (ns_clocks s) slot) (\<lambda>c.
          rbind (node_column (ns_vectors s) slot) (\<lambda>v.
          rbind (node_column (ns_calls s) slot) (\<lambda>k.
          rbind (node_column (ns_suspends s) slot) (\<lambda>p.
            Inr (Some \<lparr>nu_name = name, nu_clocks = c, nu_vectors = v, nu_calls = k, nu_suspends = p\<rparr>)))))
      | _ \<Rightarrow> Inr None)"

definition read_node_names :: "stats_reader \<Rightarrow> string \<Rightarrow> string list stats_result" where
  "read_node_names r name =
     rbind (rd_read r name) (\<lambda>v. case v of
         Names ns \<Rightarrow> Inr ns
       | _ \<Rightarrow> unexpected_type name ''name_vector'' v)"

definition read_counter :: "stats_reader \<Rightarrow> string \<Rightarrow> u64 list list stats_result" where
  "read_counter r name =
     rbind (rd_read r name) (\<lambda>v. case v of
         Simple rows \<Rightarrow> Inr rows
       | _ \<Rightarrow> unexpected_type name ''counter_vector_simple'' v)"

text \<open>\<open>row_label\<close> is \<^verbatim>\<open>format!("{name} row {row}")\<close> of an error; its number formatting is a parameter.\<close>

definition check_columns ::
  "(nat \<Rightarrow> string) \<Rightarrow> usize \<Rightarrow> string \<times> u64 list list \<Rightarrow> unit list stats_result" where
  "check_columns show_row expected nc =
     collect_res (\<lambda>(row, values).
       if length values \<noteq> expected
       then Inl (Err (UnexpectedColumnCount (fst nc @ '' row '' @ show_row row) expected (length values)))
       else Inr ()) (enumerate 0 (snd nc))"

definition node_report :: "(nat \<Rightarrow> string) \<Rightarrow> nat \<Rightarrow> stats_reader \<Rightarrow> node_stats option stats_result" where
  "node_report show_row now_at r =
     rbind (rd_names r) (\<lambda>names.
     if ''/sys/node/names'' \<notin> set names then Inr None
     else
     rbind (read_node_names r ''/sys/node/names'') (\<lambda>node_names.
     rbind (read_counter r ''/sys/node/clocks'') (\<lambda>clocks.
     rbind (read_counter r ''/sys/node/vectors'') (\<lambda>vectors.
     rbind (read_counter r ''/sys/node/calls'') (\<lambda>calls.
     rbind (read_counter r ''/sys/node/suspends'') (\<lambda>suspends.
     rbind (collect_res (\<lambda>(name, counter).
         if length counter \<noteq> length clocks
         then Inl (Err (UnexpectedRowCount name (length clocks) (length counter))) else Inr ())
       [(''/sys/node/vectors'', vectors), (''/sys/node/calls'', calls), (''/sys/node/suspends'', suspends)]) (\<lambda>_.
     rbind (collect_res (check_columns show_row (length node_names))
       [(''/sys/node/clocks'', clocks), (''/sys/node/vectors'', vectors), (''/sys/node/calls'', calls),
        (''/sys/node/suspends'', suspends)]) (\<lambda>_.
     rbind (read_u64 r ''/sys/num_worker_threads'') (\<lambda>workers.
     rbind (ok_or (Panic ''thread count plus thread zero does not overflow'') (checked_add (unat workers) 1))
       (\<lambda>expected_rows.
     if length clocks \<noteq> expected_rows
     then Inl (Err (WorkerCountMismatch ''/sys/node/clocks'' workers (length clocks)))
     else Inr (Some \<lparr>ns_names = node_names, ns_clocks = clocks, ns_vectors = vectors, ns_calls = calls,
       ns_suspends = suspends, ns_sampled_at = now_at\<rparr>)))))))))))"

section \<open>Node errors\<close>

record node_error_counters =
  ne_node :: string
  ne_error :: string
  ne_counts :: "u64 list"

definition node_error_total :: "node_error_counters \<Rightarrow> stats_error fault + u64" where
  "node_error_total e = checked_total (ne_counts e)"

definition node_errors_total :: "node_error_counters list \<Rightarrow> stats_error fault + u64" where
  "node_errors_total es = rbind (collect_res node_error_total es) checked_total"

definition find_error :: "node_error_counters list \<Rightarrow> string \<Rightarrow> string \<Rightarrow> node_error_counters option" where
  "find_error es node err = find (\<lambda>e. ne_node e = node \<and> ne_error e = err) es"

definition errors_of_node :: "node_error_counters list \<Rightarrow> string \<Rightarrow> node_error_counters list" where
  "errors_of_node es node = filter (\<lambda>e. ne_node e = node) es"

definition is_alias :: "string \<Rightarrow> bool" where
  "is_alias name =
     (case strip_prefix ''/err'' name of None \<Rightarrow> False | Some rest \<Rightarrow> rest \<noteq> [] \<and> hd rest = CHR ''/'')"

definition alias_parts :: "string \<Rightarrow> (string \<times> string) option" where
  "alias_parts name =
     (case strip_prefix ''/err'' name of
        None \<Rightarrow> None
      | Some rest \<Rightarrow> (case strip_prefix ''/'' rest of
          None \<Rightarrow> None
        | Some rest \<Rightarrow> (case split_once (CHR ''/'') rest of
            None \<Rightarrow> None
          | Some (node, err) \<Rightarrow> if node \<noteq> [] \<and> err \<noteq> [] then Some (node, err) else None)))"

definition read_counts :: "(nat \<Rightarrow> string) \<Rightarrow> stats_reader \<Rightarrow> string \<Rightarrow> u64 list stats_result" where
  "read_counts show_row r name =
     rbind (rd_read r name) (\<lambda>v. case v of
         Simple rows \<Rightarrow> collect_res (\<lambda>(row, values).
           case values of
             [x] \<Rightarrow> Inr x
           | _ \<Rightarrow> Inl (Err (UnexpectedColumnCount (name @ '' row '' @ show_row row) 1 (length values))))
           (enumerate 0 rows)
       | _ \<Rightarrow> unexpected_type name ''counter_vector_simple'' v)"

definition read_alias ::
  "(nat \<Rightarrow> string) \<Rightarrow> stats_reader \<Rightarrow> string \<Rightarrow> node_error_counters option stats_result" where
  "read_alias show_row r name =
     (case alias_parts name of
        None \<Rightarrow> Inr None
      | Some (node, err) \<Rightarrow>
          (case read_counts show_row r name of
             Inr counts \<Rightarrow> Inr (Some \<lparr>ne_node = node, ne_error = err, ne_counts = counts\<rparr>)
           | Inl (Err (MetricNotFound n)) \<Rightarrow> Inr None
           | Inl e \<Rightarrow> Inl e))"

definition node_error_report ::
  "(nat \<Rightarrow> string) \<Rightarrow> nat \<Rightarrow> stats_reader \<Rightarrow> (node_error_counters list \<times> nat) option stats_result" where
  "node_error_report show_row now_at r =
     rbind (rd_names r) (\<lambda>names.
       let aliases = filter is_alias names in
       if aliases = [] then Inr None
       else rbind (collect_res (read_alias show_row r) (sort aliases)) (\<lambda>found.
         Inr (Some (sort_key (\<lambda>e. (ne_node e, ne_error e)) (List.map_filter id found), now_at))))"

end
