(* ===== verification/Stats_Reports.thy ===== *)
theory Stats_Reports
  imports Stats_Providers "HOL-Library.Multiset"
begin

text \<open>
  What the family projections of \<^verbatim>\<open>hammer-stats-client\<close> report. The locale \<open>stats_provider\<close> is
  the contract of the trait \<^verbatim>\<open>StatsProvider\<close>: a report depends on the metrics of its family
  only. The later sections give each report's exact content.
\<close>

section \<open>Names and families\<close>

lemma strip_prefix_Some: "strip_prefix p s = Some t \<longleftrightarrow> s = p @ t"
  by (auto simp: strip_prefix_def) (metis append_take_drop_id)

lemma strip_prefix_append [simp]: "strip_prefix p (p @ t) = Some t"
  by (simp add: strip_prefix_Some)

lemma split_once_Some: "split_once c s = Some (a, b) \<longleftrightarrow> c \<notin> set a \<and> s = a @ c # b"
proof
  assume "split_once c s = Some (a, b)"
  then obtain i where "position (\<lambda>x. x = c) s = Some i" "a = take i s" "b = drop (i + 1) s"
    by (auto simp: split_once_def split: option.splits)
  then show "c \<notin> set a \<and> s = a @ c # b"
    by (auto simp: position_Some in_set_conv_nth id_take_nth_drop)
next
  assume "c \<notin> set a \<and> s = a @ c # b"
  then have "position (\<lambda>x. x = c) s = Some (length a)" and "s = a @ c # b"
    using position_append_hit [of a "\<lambda>x. x = c" c b] by auto
  then show "split_once c s = Some (a, b)"
    by (simp add: split_once_def)
qed

definition in_family :: "string \<Rightarrow> string \<Rightarrow> bool" where
  "in_family p name = (strip_prefix (p @ ''/'') name \<noteq> None)"

lemma strip_prefix_simps [simp]:
  "strip_prefix [] s = Some s"
  "strip_prefix (c # p) [] = None"
  "strip_prefix (c # p) (d # s) = (if c = d then strip_prefix p s else None)"
  by (auto simp: strip_prefix_def)

lemma split_once_hit [simp]: "c \<notin> set a \<Longrightarrow> split_once c (a @ c # b) = Some (a, b)"
  by (simp add: split_once_Some)

lemma is_heap_entry_iff:
  "is_heap_entry name \<longleftrightarrow> (\<exists>h. h \<noteq> [] \<and> CHR ''/'' \<notin> set h \<and> name = ''/mem/'' @ h)"
  unfolding is_heap_entry_def by (cases "strip_prefix ''/mem/'' name") (auto simp: strip_prefix_Some)

lemma pool_of_gauge_entry_Some:
  "pool_of_gauge_entry name = Some p \<longleftrightarrow>
     p \<noteq> [] \<and> CHR ''/'' \<notin> set p \<and>
     (\<exists>g\<in>{''cached'', ''used'', ''available''}. name = ''/buffer-pools/'' @ p @ ''/'' @ g)"
  (is "?L \<longleftrightarrow> ?R")
proof
  assume ?L
  then obtain rest g where "strip_prefix ''/buffer-pools/'' name = Some rest"
      and "split_once (CHR ''/'') rest = Some (p, g)" and "g \<in> {''cached'', ''used'', ''available''}" "p \<noteq> []"
    by (auto simp: pool_of_gauge_entry_def split: option.splits if_splits)
  then show ?R by (auto simp: strip_prefix_Some split_once_Some)
qed (auto simp: pool_of_gauge_entry_def)

lemma alias_parts_Some:
  "alias_parts name = Some (node, err) \<longleftrightarrow>
     node \<noteq> [] \<and> err \<noteq> [] \<and> CHR ''/'' \<notin> set node \<and> name = ''/err/'' @ node @ ''/'' @ err"
  (is "?L \<longleftrightarrow> ?R")
proof
  assume ?L
  then obtain r1 rest where "strip_prefix ''/err'' name = Some r1" "strip_prefix ''/'' r1 = Some rest"
      and "split_once (CHR ''/'') rest = Some (node, err)" and "node \<noteq> []" "err \<noteq> []"
    by (auto simp: alias_parts_def split: option.splits if_splits)
  then show ?R by (auto simp: strip_prefix_Some split_once_Some)
qed (auto simp: alias_parts_def)

lemma is_alias_iff: "is_alias name \<longleftrightarrow> (\<exists>rest. name = ''/err/'' @ rest)"
proof (cases "strip_prefix ''/err'' name")
  case (Some rest)
  then show ?thesis by (cases rest) (auto simp: is_alias_def strip_prefix_Some)
qed (auto simp: is_alias_def)

section \<open>What a projection depends on\<close>

text \<open>
  Two readers agree on a set of metrics when they list the same of those names in the same order
  and read the same values for them.
\<close>

fun same_names :: "(string \<Rightarrow> bool) \<Rightarrow> string list stats_result \<Rightarrow> string list stats_result \<Rightarrow> bool" where
  "same_names fam (Inr a) (Inr b) = (filter fam a = filter fam b)"
| "same_names fam (Inl e) (Inl e') = (e = e')"
| "same_names fam _ _ = False"

definition agree_on :: "(string \<Rightarrow> bool) \<Rightarrow> stats_reader \<Rightarrow> stats_reader \<Rightarrow> bool" where
  "agree_on fam r r' \<longleftrightarrow>
     same_names fam (rd_names r) (rd_names r') \<and> (\<forall>n. fam n \<longrightarrow> rd_read r n = rd_read r' n)"

text \<open>The reader over a segment that publishes only the metrics of \<open>fam\<close>.\<close>

definition restrict_reader :: "(string \<Rightarrow> bool) \<Rightarrow> stats_reader \<Rightarrow> stats_reader" where
  "restrict_reader fam r =
     \<lparr>rd_names = map_sum id (filter fam) (rd_names r),
      rd_read = (\<lambda>n. if fam n then rd_read r n else Inl (Err (MetricNotFound n)))\<rparr>"

text \<open>The reader over a segment that publishes one metric more.\<close>

definition add_metric :: "string \<Rightarrow> metric_value \<Rightarrow> stats_reader \<Rightarrow> stats_reader" where
  "add_metric n v r =
     \<lparr>rd_names = map_sum id (\<lambda>ns. ns @ [n]) (rd_names r), rd_read = (rd_read r)(n := Inr v)\<rparr>"

locale stats_provider =
  fixes fam :: "string \<Rightarrow> bool"
    and report :: "stats_reader \<Rightarrow> 'a stats_result"
  assumes frame: "agree_on fam r r' \<Longrightarrow> report r = report r'"
begin

lemma report_restricted: "report (restrict_reader fam r) = report r"
  by (rule frame, cases "rd_names r") (auto simp: agree_on_def restrict_reader_def)

lemma report_ignores_foreign_metric: "\<not> fam n \<Longrightarrow> report (add_metric n v r) = report r"
  by (rule frame, cases "rd_names r") (auto simp: agree_on_def add_metric_def)

end

lemma agree_on_names:
  assumes "agree_on fam r r'"
    and "\<And>a b. filter fam a = filter fam b \<Longrightarrow> f a = g b"
  shows "rbind (rd_names r) f = rbind (rd_names r') g"
  using assms by (cases "rd_names r"; cases "rd_names r'") (auto simp: agree_on_def)

lemma agree_on_read: "agree_on fam r r' \<Longrightarrow> fam n \<Longrightarrow> rd_read r n = rd_read r' n"
  by (simp add: agree_on_def)

lemma filter_within: "(\<And>x. P x \<Longrightarrow> Q x) \<Longrightarrow> filter Q a = filter Q b \<Longrightarrow> filter P a = filter P b"
  by (metis (mono_tags, lifting) filter_cong filter_filter)

lemma mem_within: "Q x \<Longrightarrow> filter Q a = filter Q b \<Longrightarrow> x \<in> set a \<longleftrightarrow> x \<in> set b"
  by (metis (mono_tags, lifting) mem_Collect_eq set_filter)

lemma in_family_append [simp]: "in_family p (p @ CHR ''/'' # n)"
  by (auto simp: in_family_def strip_prefix_Some)

lemma heap_entry_in_family: "is_heap_entry n \<Longrightarrow> in_family ''/mem'' n"
  by (auto simp: is_heap_entry_iff in_family_def)

lemma alias_in_family: "is_alias n \<Longrightarrow> in_family ''/err'' n"
  by (auto simp: is_alias_iff in_family_def)

lemma heap_entries_within:
  "filter (in_family ''/mem'') a = filter (in_family ''/mem'') b \<Longrightarrow>
     filter is_heap_entry a = filter is_heap_entry b"
  by (rule filter_within [of is_heap_entry "in_family ''/mem''"]) (rule heap_entry_in_family)

lemma aliases_within:
  "filter (in_family ''/err'') a = filter (in_family ''/err'') b \<Longrightarrow> filter is_alias a = filter is_alias b"
  by (rule filter_within [of is_alias "in_family ''/err''"]) (rule alias_in_family)

interpretation memory_provider: stats_provider "in_family ''/mem''" memory_report
proof
  fix r r' assume same: "agree_on (in_family ''/mem'') r r'"
  have "read_heap r n = read_heap r' n" if "is_heap_entry n" for n
    using agree_on_read [OF same heap_entry_in_family [OF that]] unfolding read_heap_def by (simp only:)
  then show "memory_report r = memory_report r'"
    unfolding memory_report_def
    by (intro agree_on_names [OF same] collect_res_cong heap_entries_within) simp_all
qed

interpretation node_error_provider: stats_provider "in_family ''/err''" "node_error_report show_row now_at"
proof
  fix r r' assume same: "agree_on (in_family ''/err'') r r'"
  have "read_counts show_row r n = read_counts show_row r' n" if "is_alias n" for n
    using agree_on_read [OF same alias_in_family [OF that]] by (simp add: read_counts_def)
  then have "read_alias show_row r n = read_alias show_row r' n" if "is_alias n" for n
    unfolding read_alias_def using that by (simp only:)
  then have reads: "collect_res (read_alias show_row r) (sort (filter is_alias a)) =
      collect_res (read_alias show_row r') (sort (filter is_alias a))" for a
    by (intro collect_res_cong) auto
  show "node_error_report show_row now_at r = node_error_report show_row now_at r'"
    unfolding node_error_report_def Let_def
  proof (rule agree_on_names [OF same])
    fix a b assume "filter (in_family ''/err'') a = filter (in_family ''/err'') b"
    note within = aliases_within [OF this]
    show "(if filter is_alias a = [] then Inr None
        else rbind (collect_res (read_alias show_row r) (sort (filter is_alias a))) (\<lambda>found.
          Inr (Some (sort_key (\<lambda>e. (ne_node e, ne_error e)) (List.map_filter id found), now_at)))) =
      (if filter is_alias b = [] then Inr None
        else rbind (collect_res (read_alias show_row r') (sort (filter is_alias b))) (\<lambda>found.
          Inr (Some (sort_key (\<lambda>e. (ne_node e, ne_error e)) (List.map_filter id found), now_at))))"
      unfolding within reads ..
  qed
qed

lemma collect_pools_within:
  assumes "\<And>n. in_family ''/buffer-pools'' n \<Longrightarrow> rd_read r n = rd_read r' n"
  shows "collect_pools r names pools = collect_pools r' (filter (in_family ''/buffer-pools'') names) pools"
proof -
  have read: "read_pool r p = read_pool r' p" for p
    by (simp add: read_pool_def read_gauge_def assms in_family_def)
  have none: "pool_of_gauge_entry n = None" if "\<not> in_family ''/buffer-pools'' n" for n
    using that by (cases "pool_of_gauge_entry n") (auto simp: pool_of_gauge_entry_Some in_family_def)
  show ?thesis
    by (induction names arbitrary: pools) (auto simp: read none split: option.splits intro!: rbind_cong)
qed

interpretation buffer_pool_provider: stats_provider "in_family ''/buffer-pools''" buffer_pool_report
proof
  fix r r' assume same: "agree_on (in_family ''/buffer-pools'') r r'"
  have "collect_pools r a [] = collect_pools r' b []"
    if "filter (in_family ''/buffer-pools'') a = filter (in_family ''/buffer-pools'') b" for a b
    using collect_pools_within [of r r' a] collect_pools_within [of r' r' b] agree_on_read [OF same] that
    by simp
  then show "buffer_pool_report r = buffer_pool_report r'"
    unfolding buffer_pool_report_def by (intro agree_on_names [OF same]) simp
qed

interpretation system_provider: stats_provider "in_family ''/sys''" "system_report now_at"
proof
  fix r r' assume "agree_on (in_family ''/sys'') r r'"
  note read = agree_on_read [OF this]
  show "system_report now_at r = system_report now_at r'"
    unfolding system_report_def read_u64_def read_row_def by (simp add: read in_family_def)
qed

text \<open>
  The node projection also reads the worker count, which lies outside the prefix it declares.
\<close>

definition node_family :: "string \<Rightarrow> bool" where
  "node_family n \<longleftrightarrow> in_family ''/sys/node'' n \<or> n = ''/sys/num_worker_threads''"

interpretation node_provider: stats_provider node_family "node_report show_row now_at"
proof
  fix r r' assume same: "agree_on node_family r r'"
  have reads: "rd_read r ''/sys/node/names'' = rd_read r' ''/sys/node/names''"
    "rd_read r ''/sys/node/clocks'' = rd_read r' ''/sys/node/clocks''"
    "rd_read r ''/sys/node/vectors'' = rd_read r' ''/sys/node/vectors''"
    "rd_read r ''/sys/node/calls'' = rd_read r' ''/sys/node/calls''"
    "rd_read r ''/sys/node/suspends'' = rd_read r' ''/sys/node/suspends''"
    "rd_read r ''/sys/num_worker_threads'' = rd_read r' ''/sys/num_worker_threads''"
    by (auto intro!: agree_on_read [OF same] simp: node_family_def in_family_def)
  have names: "node_family ''/sys/node/names''" by (simp add: node_family_def in_family_def)
  show "node_report show_row now_at r = node_report show_row now_at r'"
    unfolding node_report_def read_u64_def read_counter_def read_node_names_def
    by (rule agree_on_names [OF same], drule mem_within [of node_family, OF names]) (simp only: reads)
qed

section \<open>The buffer-pool report\<close>

lemma read_gauge_Inr [simp]: "read_gauge r n = Inr w \<longleftrightarrow> rd_read r n = Inr (GaugeValue w)"
proof (cases "rd_read r n")
  case (Inr v)
  then show ?thesis by (cases v) (auto simp: read_gauge_def unexpected_type_def)
qed (simp add: read_gauge_def)

lemma read_pool_Inr:
  "read_pool r p = Inr u \<longleftrightarrow> pool_name u = p \<and>
     rd_read r (''/buffer-pools/'' @ p @ ''/cached'') = Inr (GaugeValue (cached u)) \<and>
     rd_read r (''/buffer-pools/'' @ p @ ''/used'') = Inr (GaugeValue (used u)) \<and>
     rd_read r (''/buffer-pools/'' @ p @ ''/available'') = Inr (GaugeValue (available u))"
  by (cases u) (auto simp: read_pool_def rbind_Inr)

definition pools_of :: "string list \<Rightarrow> string set" where
  "pools_of names = {p. p \<noteq> [] \<and> CHR ''/'' \<notin> set p \<and>
     (\<exists>g\<in>{''cached'', ''used'', ''available''}. ''/buffer-pools/'' @ p @ ''/'' @ g \<in> set names)}"

lemma mem_pools_of: "p \<in> pools_of names \<longleftrightarrow> (\<exists>n\<in>set names. pool_of_gauge_entry n = Some p)"
  unfolding pool_of_gauge_entry_Some pools_of_def by blast

lemma pools_of_Cons:
  "pools_of (n # ns) = (case pool_of_gauge_entry n of None \<Rightarrow> {} | Some p \<Rightarrow> {p}) \<union> pools_of ns"
  by (auto simp: mem_pools_of split: option.splits)

lemma collect_pools_Inr:
  assumes "collect_pools r names pools = Inr out" and "distinct (map pool_name pools)"
    and "\<forall>u\<in>set pools. read_pool r (pool_name u) = Inr u"
  shows "distinct (map pool_name out) \<and> pool_name ` set out = pool_name ` set pools \<union> pools_of names \<and>
     (\<forall>u\<in>set out. read_pool r (pool_name u) = Inr u)"
  using assms
proof (induction r names pools rule: collect_pools.induct)
  case (2 r name names pools)
  show ?case
  proof (cases "pool_of_gauge_entry name")
    case None
    with 2 show ?thesis by (simp add: pools_of_Cons)
  next
    case (Some p)
    show ?thesis
    proof (cases "list_ex (\<lambda>u. pool_name u = p) pools")
      case True
      with 2 Some show ?thesis by (auto simp: pools_of_Cons list_ex_iff)
    next
      case False
      with 2(4) Some obtain u where u: "read_pool r p = Inr u" "collect_pools r names (pools @ [u]) = Inr out"
        by (auto simp: rbind_Inr)
      have p: "pool_name u = p" using u(1) by (simp add: read_pool_Inr)
      have "p \<notin> pool_name ` set pools" using False by (auto simp: list_ex_iff)
      then have "distinct (map pool_name out) \<and>
          pool_name ` set out = pool_name ` set (pools @ [u]) \<union> pools_of names \<and>
          (\<forall>u\<in>set out. read_pool r (pool_name u) = Inr u)"
        using 2(5,6) u(1) p by (intro 2(3) [OF Some False u]) auto
      then show ?thesis using Some p by (auto simp: pools_of_Cons)
    qed
  qed
qed (auto simp: pools_of_def)

lemma collect_pools_total:
  assumes "\<forall>p\<in>pools_of names. \<exists>u. read_pool r p = Inr u"
  shows "\<exists>out. collect_pools r names pools = Inr out"
  using assms
proof (induction r names pools rule: collect_pools.induct)
  case (2 r name names pools)
  show ?case
  proof (cases "pool_of_gauge_entry name")
    case (Some p)
    with 2(4) obtain u where "read_pool r p = Inr u" by (auto simp: pools_of_Cons)
    with 2 Some show ?thesis by (auto simp: pools_of_Cons)
  qed (use 2 in \<open>auto simp: pools_of_Cons\<close>)
qed auto

lemma sort_key_strict: "distinct (map f xs) \<Longrightarrow> sorted_wrt (<) (map f (sort_key f xs))"
  by (simp add: strict_sorted_iff distinct_map)

lemma strict_key_unique:
  fixes f :: "'a \<Rightarrow> 'b::linorder"
  assumes "sorted_wrt (<) (map f xs)" "sorted_wrt (<) (map f ys)" "f ` set xs = f ` set ys"
    and "\<forall>x\<in>set xs. \<forall>y\<in>set ys. f x = f y \<longrightarrow> x = y"
  shows "xs = ys"
proof -
  have "map f xs = map f ys"
    using assms(1-3) by (intro sorted_distinct_set_unique) (simp_all add: strict_sorted_iff)
  then show ?thesis
    using assms(4) by (metis (mono_tags, lifting) inj_on_def length_map map_eq_conv nth_equalityI nth_map nth_mem)
qed

definition pool_report_of :: "stats_reader \<Rightarrow> string list \<Rightarrow> buffer_pool_usage list \<Rightarrow> bool" where
  "pool_report_of r names pools \<longleftrightarrow>
     sorted_wrt (<) (map pool_name pools) \<and> pool_name ` set pools = pools_of names \<and>
     (\<forall>u\<in>set pools. read_pool r (pool_name u) = Inr u)"

lemma pool_report_of_unique:
  assumes "pool_report_of r names a" "pool_report_of r names b"
  shows "a = b"
proof (rule strict_key_unique [of pool_name])
  show "\<forall>x\<in>set a. \<forall>y\<in>set b. pool_name x = pool_name y \<longrightarrow> x = y"
    using assms unfolding pool_report_of_def by (metis sum.inject(2))
qed (use assms in \<open>simp_all add: pool_report_of_def\<close>)

lemma buffer_pool_report_Inr:
  assumes "rd_names r = Inr names"
  shows "buffer_pool_report r = Inr pools \<longleftrightarrow> pool_report_of r names pools"
proof -
  have sound: "pool_report_of r names (sort_key pool_name out)" if "collect_pools r names [] = Inr out" for out
    using collect_pools_Inr [OF that] by (auto simp: pool_report_of_def sort_key_strict)
  show ?thesis
  proof
    assume "buffer_pool_report r = Inr pools"
    then show "pool_report_of r names pools"
      using assms sound by (auto simp: buffer_pool_report_def rbind_Inr)
  next
    assume pools: "pool_report_of r names pools"
    then have "\<forall>p\<in>pools_of names. \<exists>u. read_pool r p = Inr u"
      unfolding pool_report_of_def by (metis imageE)
    then obtain out where out: "collect_pools r names [] = Inr out"
      using collect_pools_total by blast
    then have "sort_key pool_name out = pools"
      using pool_report_of_unique [OF sound pools] by blast
    then show "buffer_pool_report r = Inr pools"
      using assms out by (simp add: buffer_pool_report_def)
  qed
qed

lemma find_by_key:
  assumes "distinct (map f xs)"
  shows "find (\<lambda>x. f x = k) xs = Some x \<longleftrightarrow> x \<in> set xs \<and> f x = k"
  using assms by (induction xs) (auto simp: rev_image_eqI)

section \<open>The memory report\<close>

definition heap_columns :: "memory_heap_usage \<Rightarrow> u64 list" where
  "heap_columns h = [total_bytes h, used_bytes h, free_bytes h, used_mmap_bytes h, max_allocated_bytes h,
     free_chunk_count h, releasable_bytes h]"

lemma length_eq_7: "length xs = 7 \<longleftrightarrow> (\<exists>a b c d e f g. xs = [a, b, c, d, e, f, g])"
  by (auto simp: numeral_eq_Suc length_Suc_conv)

lemma heap_usage_Inr: "heap_usage name hname rows = Inr h \<longleftrightarrow> heap_name h = hname \<and> rows = [heap_columns h]"
  by (cases h) (auto simp: heap_usage_def heap_columns_def length_eq_7 length_Suc_conv split: if_splits)

lemma simple_read_Inr:
  "rbind m (\<lambda>v. case v of Simple rows \<Rightarrow> f rows | _ \<Rightarrow> unexpected_type n t v) = Inr y \<longleftrightarrow>
     (\<exists>rows. m = Inr (Simple rows) \<and> f rows = Inr y)"
proof (cases m)
  case (Inr v)
  then show ?thesis by (cases v) (auto simp: unexpected_type_def)
qed simp

lemma read_heap_Inr:
  "is_heap_entry name \<Longrightarrow> read_heap r name = Inr h \<longleftrightarrow>
     name = ''/mem/'' @ heap_name h \<and> rd_read r name = Inr (Simple [heap_columns h])"
  by (auto simp: is_heap_entry_iff read_heap_def simple_read_Inr heap_usage_Inr)

lemma memory_report_Inr:
  "rd_names r = Inr names \<Longrightarrow> memory_report r = Inr heaps \<longleftrightarrow>
     list_all2 (\<lambda>name h. name = ''/mem/'' @ heap_name h \<and> rd_read r name = Inr (Simple [heap_columns h]))
       (filter is_heap_entry names) heaps"
  by (simp add: memory_report_def collect_res_Inr, intro list.rel_cong refl) (auto simp: read_heap_Inr)

section \<open>The node report\<close>

lemma read_counter_Inr: "read_counter r n = Inr rows \<longleftrightarrow> rd_read r n = Inr (Simple rows)"
  by (auto simp: read_counter_def simple_read_Inr)

lemma check_columns_Inr:
  "check_columns show_row expected (name, counter) = Inr u \<Longrightarrow> \<forall>row\<in>set counter. length row = expected"
  unfolding check_columns_def collect_res_Inr
  by (fastforce simp: list_all2_conv_all_nth in_set_conv_nth nth_enumerate_eq split: if_splits)

lemma node_report_Inr:
  assumes "node_report show_row now_at r = Inr (Some s)"
  shows "\<exists>workers. read_u64 r ''/sys/num_worker_threads'' = Inr workers \<and>
    (\<forall>c. length (stats_counter s c) = unat workers + 1 \<and>
       rd_read r (''/sys/node/'' @ node_counter_name c) = Inr (Simple (stats_counter s c)) \<and>
       (\<forall>row\<in>set (stats_counter s c). length row = length (ns_names s)))"
proof -
  obtain workers where "read_u64 r ''/sys/num_worker_threads'' = Inr workers"
    and rows: "length (ns_clocks s) = unat workers + 1" "length (ns_vectors s) = unat workers + 1"
      "length (ns_calls s) = unat workers + 1" "length (ns_suspends s) = unat workers + 1"
    and reads: "read_counter r ''/sys/node/clocks'' = Inr (ns_clocks s)"
      "read_counter r ''/sys/node/vectors'' = Inr (ns_vectors s)"
      "read_counter r ''/sys/node/calls'' = Inr (ns_calls s)"
      "read_counter r ''/sys/node/suspends'' = Inr (ns_suspends s)"
    and columns: "\<exists>us. collect_res (check_columns show_row (length (ns_names s)))
       [(''/sys/node/clocks'', ns_clocks s), (''/sys/node/vectors'', ns_vectors s),
        (''/sys/node/calls'', ns_calls s), (''/sys/node/suspends'', ns_suspends s)] = Inr us"
    using assms by (auto simp: node_report_def rbind_Inr checked_add_def split: if_splits)
  moreover have "\<forall>row\<in>set (stats_counter s c). length row = length (ns_names s)" for c
    using columns by (cases c) (auto simp: rbind_Inr dest!: check_columns_Inr)
  moreover have "length (stats_counter s c) = unat workers + 1 \<and>
      rd_read r (''/sys/node/'' @ node_counter_name c) = Inr (Simple (stats_counter s c))" for c
    using rows reads by (cases c) (auto simp: read_counter_Inr)
  ultimately show ?thesis by blast
qed

lemma node_column_in:
  "\<forall>row\<in>set counter. slot < length row \<Longrightarrow> node_column counter slot = Inr (map (\<lambda>row. row ! slot) counter)"
  unfolding node_column_def by (rule collect_res_map) simp

lemma filter_upt_eq: "filter (\<lambda>j. j = i) [0..<n] = (if i < n then [i] else [])"
  by (induction n) auto

lemma filter_upt_unique:
  "i < n \<Longrightarrow> \<forall>j<n. P j \<longleftrightarrow> j = i \<Longrightarrow> filter P [0..<n] = [i]"
  using filter_cong [of "[0..<n]" "[0..<n]" P "\<lambda>j. j = i"] by (simp add: filter_upt_eq)

lemma all_counters: "(\<forall>c. P c) \<longleftrightarrow> P Clocks \<and> P Vectors \<and> P Calls \<and> P Suspends"
  by (metis node_counter.exhaust)

lemma node_lookup_unique:
  assumes "\<forall>c. \<forall>row\<in>set (stats_counter s c). length row = length (ns_names s)"
    and "slot < length (ns_names s)" "\<forall>j<length (ns_names s). ns_names s ! j = name \<longleftrightarrow> j = slot"
  shows "\<exists>u. node_lookup s name = Inr (Some u) \<and> nu_name u = name \<and>
    (\<forall>c. usage_counter u c = map (\<lambda>row. row ! slot) (stats_counter s c))"
proof -
  have "filter (\<lambda>i. ns_names s ! i = name) [0..<length (ns_names s)] = [slot]"
    using assms(2,3) by (intro filter_upt_unique) auto
  moreover have "node_column (stats_counter s c) slot = Inr (map (\<lambda>row. row ! slot) (stats_counter s c))" for c
    using assms(1,2) by (intro node_column_in) auto
  note this [of Clocks] this [of Vectors] this [of Calls] this [of Suspends]
  ultimately show ?thesis
    by (simp add: node_lookup_def all_counters)
qed

lemma node_lookup_none:
  assumes "\<nexists>slot. slot < length (ns_names s) \<and> (\<forall>j<length (ns_names s). ns_names s ! j = name \<longleftrightarrow> j = slot)"
  shows "node_lookup s name = Inr None"
proof -
  have "filter (\<lambda>i. ns_names s ! i = name) [0..<length (ns_names s)] \<noteq> [slot]" for slot
  proof
    assume "filter (\<lambda>i. ns_names s ! i = name) [0..<length (ns_names s)] = [slot]"
    then have "set (filter (\<lambda>i. ns_names s ! i = name) [0..<length (ns_names s)]) = {slot}"
      by (simp only: list.set)
    then have "i < length (ns_names s) \<and> ns_names s ! i = name \<longleftrightarrow> i = slot" for i
      by (auto simp: set_eq_iff)
    with assms show False by metis
  qed
  then show ?thesis by (auto simp: node_lookup_def split: list.splits)
qed

lemma count_list_once:
  "count_list xs x = 1 \<longleftrightarrow> (\<exists>i<length xs. \<forall>j<length xs. xs ! j = x \<longleftrightarrow> j = i)"
proof (induction xs)
  case (Cons y ys)
  show ?case
  proof (cases "y = x")
    case True
    then have "count_list (y # ys) x = 1 \<longleftrightarrow> x \<notin> set ys" by (simp add: count_list_0_iff)
    also have "\<dots> \<longleftrightarrow> (\<exists>i<length (y # ys). \<forall>j<length (y # ys). (y # ys) ! j = x \<longleftrightarrow> j = i)"
      using True by (auto simp: in_set_conv_nth All_less_Suc2 Ex_less_Suc2)
    finally show ?thesis .
  next
    case False
    then show ?thesis using Cons by (auto simp: All_less_Suc2 Ex_less_Suc2)
  qed
qed simp

section \<open>The node-error report\<close>

lemma rows_of_one:
  "list_all2 (\<lambda>x y. (case x of (row, values) \<Rightarrow>
       (case values of [v] \<Rightarrow> Inr v | _ \<Rightarrow> Inl (e row values))) = Inr y) (enumerate k rows) counts \<longleftrightarrow>
     rows = map (\<lambda>c. [c]) counts"
  by (induction rows arbitrary: counts k) (auto simp: list_all2_Cons1 split: list.splits)

lemma read_counts_Inr:
  "read_counts show_row r n = Inr counts \<longleftrightarrow> rd_read r n = Inr (Simple (map (\<lambda>c. [c]) counts))"
  unfolding read_counts_def simple_read_Inr collect_res_Inr by (auto simp: rows_of_one)

text \<open>The published name of an error of a node; the first slash after the prefix ends the node's name.\<close>

definition error_name :: "string \<Rightarrow> string \<Rightarrow> string" where
  "error_name node err = ''/err/'' @ node @ ''/'' @ err"

definition error_key :: "string \<Rightarrow> string \<Rightarrow> bool" where
  "error_key node err \<longleftrightarrow> node \<noteq> [] \<and> err \<noteq> [] \<and> CHR ''/'' \<notin> set node"

text \<open>The counters of an error as the segment has them: one column, one row per thread.\<close>

definition error_entry :: "stats_reader \<Rightarrow> node_error_counters \<Rightarrow> bool" where
  "error_entry r e \<longleftrightarrow> error_key (ne_node e) (ne_error e) \<and>
     rd_read r (error_name (ne_node e) (ne_error e)) = Inr (Simple (map (\<lambda>c. [c]) (ne_counts e)))"

lemma alias_parts_iff: "alias_parts n = Some (node, err) \<longleftrightarrow> error_key node err \<and> n = error_name node err"
  unfolding alias_parts_Some error_key_def error_name_def by blast

lemma read_alias_Inr_Some:
  "read_alias show_row r n = Inr (Some e) \<longleftrightarrow> error_entry r e \<and> n = error_name (ne_node e) (ne_error e)"
proof -
  have "read_alias show_row r n = Inr (Some e) \<longleftrightarrow> alias_parts n = Some (ne_node e, ne_error e) \<and>
      rd_read r n = Inr (Simple (map (\<lambda>c. [c]) (ne_counts e)))"
    unfolding read_alias_def read_counts_Inr [of show_row, symmetric]
    by (cases e) (auto split: option.splits sum.splits fault.splits stats_error.splits)
  then show ?thesis by (auto simp: alias_parts_iff error_entry_def)
qed

lemma read_counts_not_found:
  "read_counts show_row r n = Inl (Err (MetricNotFound m)) \<longleftrightarrow> rd_read r n = Inl (Err (MetricNotFound m))"
proof (cases "rd_read r n")
  case (Inr v)
  then show ?thesis
    by (cases v; auto simp: read_counts_def unexpected_type_def split: list.splits dest!: collect_res_InlD)
qed (simp add: read_counts_def)

lemma read_alias_Inl:
  assumes "read_alias show_row r n = Inl f"
  shows "alias_parts n \<noteq> None \<and> read_counts show_row r n = Inl f \<and> (\<forall>m. f \<noteq> Err (MetricNotFound m))"
proof (cases "read_counts show_row r n")
  case (Inl g)
  with assms show ?thesis
    unfolding read_alias_def by (auto split: option.splits fault.splits stats_error.splits)
qed (use assms in \<open>auto simp: read_alias_def split: option.splits\<close>)

text \<open>Reading an alias goes well when it is not a published error, is readable, or has vanished.\<close>

definition alias_fine :: "stats_reader \<Rightarrow> string \<Rightarrow> string \<Rightarrow> bool" where
  "alias_fine r node err \<longleftrightarrow>
     (\<exists>counts. rd_read r (error_name node err) = Inr (Simple (map (\<lambda>c. [c]) counts))) \<or>
     (\<exists>m. rd_read r (error_name node err) = Inl (Err (MetricNotFound m)))"

lemma read_alias_defined:
  "(\<exists>y. read_alias show_row r n = Inr y) \<longleftrightarrow> (\<forall>node err. error_key node err \<longrightarrow> n = error_name node err \<longrightarrow> alias_fine r node err)"
proof (cases "alias_parts n")
  case None
  then have "\<not> (error_key node err \<and> n = error_name node err)" for node err
    using alias_parts_iff [of n node err] by simp
  with None show ?thesis by (auto simp: read_alias_def)
next
  case (Some p)
  then obtain node err where p: "alias_parts n = Some (node, err)" by (cases p) auto
  then have n: "n = error_name node err" "error_key node err" and
    only: "error_key node' err' \<Longrightarrow> n = error_name node' err' \<Longrightarrow> node' = node \<and> err' = err" for node' err'
    using alias_parts_iff [of n] by (auto, metis+)
  have "(\<exists>y. read_alias show_row r n = Inr y) \<longleftrightarrow>
      (\<exists>c. read_counts show_row r n = Inr c) \<or> (\<exists>m. read_counts show_row r n = Inl (Err (MetricNotFound m)))"
    using p by (auto simp: read_alias_def split: sum.splits fault.splits stats_error.splits)
  also have "\<dots> \<longleftrightarrow> alias_fine r node err"
    by (simp add: alias_fine_def read_counts_Inr read_counts_not_found n(1))
  finally show ?thesis using n only by blast
qed

lemma collect_res_all: "(\<exists>ys. collect_res f xs = Inr ys) \<longleftrightarrow> (\<forall>x\<in>set xs. \<exists>y. f x = Inr y)"
  by (induction xs) (auto simp: rbind_Inr)

lemma count_found:
  assumes "collect_res (read_alias show_row r) xs = Inr found"
  shows "count_list (List.map_filter id found) e =
     (if error_entry r e then count_list xs (error_name (ne_node e) (ne_error e)) else 0)"
  using assms
proof (induction xs arbitrary: found)
  case (Cons n xs)
  then obtain y ys where y: "read_alias show_row r n = Inr y" "collect_res (read_alias show_row r) xs = Inr ys"
    "found = y # ys" by (auto simp: rbind_Inr)
  have "y = Some e \<longleftrightarrow> error_entry r e \<and> n = error_name (ne_node e) (ne_error e)"
    using y(1) read_alias_Inr_Some [of show_row r n e] by auto
  with Cons.IH [OF y(2)] y(3) show ?case
    by (cases y) (auto simp: List.map_filter_simps)
qed (simp add: List.map_filter_simps)

lemma count_list_filter_eq: "filter ((=) x) xs = replicate (count_list xs x) x"
  by (induction xs) auto

lemma count_list_sort_key: "count_list (sort_key k xs) x = count_list xs x"
  by (metis count_list_eq_length_filter count_mset mset_sort)

lemma sort_key_unique:
  assumes "sorted (map k ys)" and count: "\<And>x. count_list ys x = count_list xs x" and inj: "inj_on k (set xs)"
  shows "ys = sort_key k xs"
proof -
  have ms: "mset ys = mset xs"
    by (rule multiset_eqI) (simp add: count_mset count flip: count_list_eq_length_filter)
  then have "set ys = set xs" by (metis set_mset_mset)
  have "filter (\<lambda>x. k y = k x) zs = replicate (count_list zs y) y" if "y \<in> set ys" "set zs = set xs" for y zs
  proof -
    have "filter (\<lambda>x. k y = k x) zs = filter ((=) y) zs"
      using that inj \<open>set ys = set xs\<close> by (intro filter_cong) (auto dest: inj_onD)
    then show ?thesis by (simp add: count_list_filter_eq)
  qed
  then have "sort_key k xs = ys"
    using ms assms(1) \<open>set ys = set xs\<close> count by (intro properties_for_sort_key) simp_all
  then show ?thesis by simp
qed

lemma sorted_errors:
  assumes found: "collect_res (read_alias show_row r) (sort (filter is_alias names)) = Inr found"
  shows "es = sort_key (\<lambda>e. (ne_node e, ne_error e)) (List.map_filter id found) \<longleftrightarrow>
    sorted (map (\<lambda>e. (ne_node e, ne_error e)) es) \<and>
    (\<forall>e. count_list es e = (if error_entry r e then count_list names (error_name (ne_node e) (ne_error e)) else 0))"
proof -
  let ?k = "\<lambda>e. (ne_node e, ne_error e)" and ?xs = "List.map_filter id found"
  have named: "is_alias (error_name node err)" if "error_key node err" for node err
    using that by (auto simp: is_alias_iff error_name_def)
  have count: "count_list ?xs e = (if error_entry r e then count_list names (error_name (ne_node e) (ne_error e)) else 0)" for e
  proof -
    have "count_list (sort (filter is_alias names)) n = count_list names n" if "is_alias n" for n
      using that by (simp add: count_list_eq_length_filter filter_sort) (metis (mono_tags, lifting) filter_cong)
    with count_found [OF found, of e] named show ?thesis by (auto simp: error_entry_def)
  qed
  have "error_entry r e" if "e \<in> set ?xs" for e
    using that count [of e] by (auto simp: count_list_0_iff split: if_splits)
  moreover have "e = e'" if "error_entry r e" "error_entry r e'" "?k e = ?k e'" for e e'
  proof -
    have "map (\<lambda>c. [c]) (ne_counts e) = map (\<lambda>c. [c]) (ne_counts e')"
      using that by (simp add: error_entry_def)
    then have "ne_counts e = ne_counts e'"
      by (rule map_injective) (simp add: inj_def)
    with that(3) show ?thesis by (intro node_error_counters.equality) auto
  qed
  ultimately have "inj_on ?k (set ?xs)"
    by (intro inj_onI) blast
  from sort_key_unique [OF _ _ this, of es] count show ?thesis
    by (auto simp: count_list_sort_key)
qed

section \<open>The properties\<close>

text \<open>
  C32. Every projection is confined to its family: on a segment cut down to the family's metrics,
  where reading any other name fails, each of the five providers gives the same report, errors
  included. The node family is \<^verbatim>\<open>/sys/node\<close> and the worker count.
\<close>

theorem reports_confined_to_family:
  "memory_report (restrict_reader (in_family ''/mem'') r) = memory_report r \<and>
   system_report now_at (restrict_reader (in_family ''/sys'') r) = system_report now_at r \<and>
   buffer_pool_report (restrict_reader (in_family ''/buffer-pools'') r) = buffer_pool_report r \<and>
   node_report show_row now_at (restrict_reader node_family r) = node_report show_row now_at r \<and>
   node_error_report show_row now_at (restrict_reader (in_family ''/err'') r) = node_error_report show_row now_at r"
  by (intro conjI memory_provider.report_restricted system_provider.report_restricted
      buffer_pool_provider.report_restricted node_provider.report_restricted
      node_error_provider.report_restricted)

text \<open>
  C33. The buffer-pool report is exactly the list, strictly ordered by name, of the pools named by
  a published gauge \<^verbatim>\<open>/buffer-pools/<pool>/<gauge>\<close>, each with its three gauge readings; and it exists
  if and only if there is such a list, that is when the three gauges of every such pool are
  readable. Looking a pool up finds the one entry of that name.
\<close>

theorem buffer_pool_report_exact:
  assumes "rd_names r = Inr names"
  shows "(buffer_pool_report r = Inr pools \<longleftrightarrow>
      sorted_wrt (<) (map pool_name pools) \<and>
      pool_name ` set pools = {p. p \<noteq> [] \<and> CHR ''/'' \<notin> set p \<and>
        (\<exists>g\<in>{''cached'', ''used'', ''available''}. ''/buffer-pools/'' @ p @ ''/'' @ g \<in> set names)} \<and>
      (\<forall>u\<in>set pools.
        rd_read r (''/buffer-pools/'' @ pool_name u @ ''/cached'') = Inr (GaugeValue (cached u)) \<and>
        rd_read r (''/buffer-pools/'' @ pool_name u @ ''/used'') = Inr (GaugeValue (used u)) \<and>
        rd_read r (''/buffer-pools/'' @ pool_name u @ ''/available'') = Inr (GaugeValue (available u)))) \<and>
    (buffer_pool_report r = Inr pools \<longrightarrow>
      (\<forall>p u. buffer_pool pools p = Some u \<longleftrightarrow> u \<in> set pools \<and> pool_name u = p))"
proof (intro conjI impI)
  assume "buffer_pool_report r = Inr pools"
  then have "distinct (map pool_name pools)"
    by (simp add: buffer_pool_report_Inr [OF assms] pool_report_of_def strict_sorted_iff)
  then show "\<forall>p u. buffer_pool pools p = Some u \<longleftrightarrow> u \<in> set pools \<and> pool_name u = p"
    by (simp add: buffer_pool_def find_by_key)
qed (simp only: buffer_pool_report_Inr [OF assms] pool_report_of_def pools_of_def read_pool_Inr simp_thms)

definition two_pools :: stats_reader where
  "two_pools = \<lparr>rd_names = Inr [''/buffer-pools/b/used'', ''/if/names'', ''/buffer-pools/a/cached'',
       ''/buffer-pools/b/cached''],
     rd_read = (\<lambda>n. Inr (GaugeValue (if n = ''/buffer-pools/a/used'' then 7 else 1)))\<rparr>"

theorem buffer_pool_report_exact_witness:
  "buffer_pool_report two_pools = Inr [\<lparr>pool_name = ''a'', cached = 1, used = 7, available = 1\<rparr>,
     \<lparr>pool_name = ''b'', cached = 1, used = 1, available = 1\<rparr>] \<and>
   buffer_pool [\<lparr>pool_name = ''a'', cached = 1, used = 7, available = 1\<rparr>,
     \<lparr>pool_name = ''b'', cached = 1, used = 1, available = 1\<rparr>] ''b'' =
     Some \<lparr>pool_name = ''b'', cached = 1, used = 1, available = 1\<rparr>"
proof -
  have names: "rd_names two_pools = Inr [''/buffer-pools/b/used'', ''/if/names'', ''/buffer-pools/a/cached'',
       ''/buffer-pools/b/cached'']"
    by (simp add: two_pools_def)
  have "buffer_pool_report two_pools = Inr [\<lparr>pool_name = ''a'', cached = 1, used = 7, available = 1\<rparr>,
     \<lparr>pool_name = ''b'', cached = 1, used = 1, available = 1\<rparr>]"
    by (simp add: buffer_pool_report_def two_pools_def pool_of_gauge_entry_def split_once_def
        read_pool_def read_gauge_def)
  then show ?thesis
    using buffer_pool_report_exact [OF names, THEN conjunct2] by simp
qed

text \<open>
  A node report is rectangular: each of the four counters has a row for thread zero and one for
  every worker, each row one column per node name. Hence looking a node up never indexes out of
  range: a name that occurs once yields its column of all four counters, any other name nothing.
\<close>

theorem node_report_rectangular:
  assumes "node_report show_row now_at r = Inr (Some s)"
  shows "(\<exists>workers. read_u64 r ''/sys/num_worker_threads'' = Inr workers \<and>
      (\<forall>c. length (stats_counter s c) = unat workers + 1 \<and>
         rd_read r (''/sys/node/'' @ node_counter_name c) = Inr (Simple (stats_counter s c)) \<and>
         (\<forall>row\<in>set (stats_counter s c). length row = length (ns_names s)))) \<and>
    (\<forall>slot<length (ns_names s). count_list (ns_names s) (ns_names s ! slot) = 1 \<longrightarrow>
      (\<exists>u. node_lookup s (ns_names s ! slot) = Inr (Some u) \<and> nu_name u = ns_names s ! slot \<and>
        (\<forall>c. usage_counter u c = map (\<lambda>row. row ! slot) (stats_counter s c)))) \<and>
    (\<forall>name. count_list (ns_names s) name \<noteq> 1 \<longrightarrow> node_lookup s name = Inr None)"
proof (intro conjI allI impI)
  show "\<exists>workers. read_u64 r ''/sys/num_worker_threads'' = Inr workers \<and>
      (\<forall>c. length (stats_counter s c) = unat workers + 1 \<and>
         rd_read r (''/sys/node/'' @ node_counter_name c) = Inr (Simple (stats_counter s c)) \<and>
         (\<forall>row\<in>set (stats_counter s c). length row = length (ns_names s)))"
    by (rule node_report_Inr [OF assms])
  then have rows: "\<forall>c. \<forall>row\<in>set (stats_counter s c). length row = length (ns_names s)" by blast
  fix slot assume "slot < length (ns_names s)" "count_list (ns_names s) (ns_names s ! slot) = 1"
  then show "\<exists>u. node_lookup s (ns_names s ! slot) = Inr (Some u) \<and> nu_name u = ns_names s ! slot \<and>
      (\<forall>c. usage_counter u c = map (\<lambda>row. row ! slot) (stats_counter s c))"
    by (intro node_lookup_unique [OF rows]) (simp, metis count_list_once)
next
  fix name assume "count_list (ns_names s) name \<noteq> 1"
  then show "node_lookup s name = Inr None"
    by (intro node_lookup_none) (metis count_list_once)
qed

definition two_threads :: stats_reader where
  "two_threads = \<lparr>rd_names = Inr [''/sys/node/names''],
     rd_read = (\<lambda>n. if n = ''/sys/node/names'' then Inr (Names [''drop'', ''ip4-input''])
       else if n = ''/sys/num_worker_threads'' then Inr (Scalar 1)
       else Inr (Simple [[1, 2], [3, 4]]))\<rparr>"

theorem node_report_rectangular_witness:
  "\<exists>s u. node_report (\<lambda>_. []) 5 two_threads = Inr (Some s) \<and> thread_count s = 2 \<and>
     node_lookup s ''ip4-input'' = Inr (Some u) \<and> nu_clocks u = [2, 4] \<and>
     node_lookup s ''ip6-input'' = Inr None"
proof -
  let ?rows = "[[1, 2], [3, 4]] :: u64 list list"
  let ?s = "\<lparr>ns_names = [''drop'', ''ip4-input''], ns_clocks = ?rows, ns_vectors = ?rows, ns_calls = ?rows,
      ns_suspends = ?rows, ns_sampled_at = 5\<rparr>"
  have report: "node_report (\<lambda>_. []) 5 two_threads = Inr (Some ?s)"
    by (simp add: node_report_def two_threads_def read_node_names_def read_counter_def read_u64_def
        check_columns_def checked_add_def usize_bound_def)
  note exact = node_report_rectangular [OF report, THEN conjunct2]
  obtain u where u: "node_lookup ?s ''ip4-input'' = Inr (Some u)"
      "\<forall>c. usage_counter u c = map (\<lambda>row. row ! 1) (stats_counter ?s c)"
    using exact [THEN conjunct1, rule_format, of 1] by auto
  have "node_lookup ?s ''ip6-input'' = Inr None"
    using exact [THEN conjunct2, rule_format, of "''ip6-input''"] by simp
  moreover have "nu_clocks u = [2, 4]"
    using u(2) [rule_format, of Clocks] by simp
  ultimately show ?thesis
    using report u(1) by (intro exI [of _ ?s] exI [of _ u]) (simp add: thread_count_def)
qed

text \<open>
  The report panics on a worker count of \<open>2 ^ 64 - 1\<close>, which \<open>checked_add\<close> refuses, although the
  published rows could simply be reported as a mismatch.
\<close>

lemma node_report_panics:
  "node_report show_row now_at \<lparr>rd_names = Inr [''/sys/node/names''],
     rd_read = (\<lambda>n. if n = ''/sys/node/names'' then Inr (Names [])
       else if n = ''/sys/num_worker_threads'' then Inr (Scalar 0xFFFFFFFFFFFFFFFF) else Inr (Simple []))\<rparr> =
   Inl (Panic ''thread count plus thread zero does not overflow'')"
  by (simp add: node_report_def read_node_names_def read_counter_def read_u64_def check_columns_def
      checked_add_def usize_bound_def)

text \<open>
  C34. The node-error report, in full. There is none exactly when no published name starts with \<^verbatim>\<open>/err/\<close>. Otherwise
  it exists exactly when every published alias \<^verbatim>\<open>/err/<node>/<error>\<close> either reads with one column per thread or has
  vanished by the time it is read; it is then ordered by node and error and lists each readable alias with its
  counters, as often as its name is published, and nothing else. A failing report fails with the error of some alias,
  and never because of a vanished one.
\<close>

theorem node_error_report_exact:
  assumes "rd_names r = Inr names"
  shows "(node_error_report show_row now_at r = Inr None \<longleftrightarrow> \<not> (\<exists>rest. ''/err/'' @ rest \<in> set names)) \<and>
    (node_error_report show_row now_at r = Inr (Some (es, at)) \<longleftrightarrow>
      (\<exists>rest. ''/err/'' @ rest \<in> set names) \<and> at = now_at \<and>
      (\<forall>node err. error_key node err \<longrightarrow> error_name node err \<in> set names \<longrightarrow> alias_fine r node err) \<and>
      sorted (map (\<lambda>e. (ne_node e, ne_error e)) es) \<and>
      (\<forall>e. count_list es e = (if error_entry r e then count_list names (error_name (ne_node e) (ne_error e)) else 0))) \<and>
    (node_error_report show_row now_at r = Inl f \<longrightarrow>
      f \<notin> (\<lambda>n. Err (MetricNotFound n)) ` UNIV \<and>
      (\<exists>n\<in>set names. alias_parts n \<noteq> None \<and> read_counts show_row r n = Inl f))"
proof (intro conjI)
  let ?aliases = "filter is_alias names"
  have some: "?aliases \<noteq> [] \<longleftrightarrow> (\<exists>rest. ''/err/'' @ rest \<in> set names)"
    by (auto simp: filter_empty_conv is_alias_iff)
  show "node_error_report show_row now_at r = Inr None \<longleftrightarrow> \<not> (\<exists>rest. ''/err/'' @ rest \<in> set names)"
    using assms some by (auto simp: node_error_report_def Let_def rbind_Inr)
  have "is_alias (error_name node err)" if "error_key node err" for node err
    using that by (auto simp: is_alias_iff error_name_def)
  then have fine: "(\<exists>found. collect_res (read_alias show_row r) (sort ?aliases) = Inr found) \<longleftrightarrow>
      (\<forall>node err. error_key node err \<longrightarrow> error_name node err \<in> set names \<longrightarrow> alias_fine r node err)"
    by (auto simp: collect_res_all read_alias_defined)
  have "node_error_report show_row now_at r = Inr (Some (es, at)) \<longleftrightarrow> ?aliases \<noteq> [] \<and> at = now_at \<and>
      (\<exists>found. collect_res (read_alias show_row r) (sort ?aliases) = Inr found \<and>
        es = sort_key (\<lambda>e. (ne_node e, ne_error e)) (List.map_filter id found))"
    using assms by (auto simp: node_error_report_def Let_def rbind_Inr)
  then show "node_error_report show_row now_at r = Inr (Some (es, at)) \<longleftrightarrow>
      (\<exists>rest. ''/err/'' @ rest \<in> set names) \<and> at = now_at \<and>
      (\<forall>node err. error_key node err \<longrightarrow> error_name node err \<in> set names \<longrightarrow> alias_fine r node err) \<and>
      sorted (map (\<lambda>e. (ne_node e, ne_error e)) es) \<and>
      (\<forall>e. count_list es e = (if error_entry r e then count_list names (error_name (ne_node e) (ne_error e)) else 0))"
    using some fine sorted_errors by (metis (no_types, lifting))
  show "node_error_report show_row now_at r = Inl f \<longrightarrow> f \<notin> (\<lambda>n. Err (MetricNotFound n)) ` UNIV \<and>
      (\<exists>n\<in>set names. alias_parts n \<noteq> None \<and> read_counts show_row r n = Inl f)"
  proof
    assume "node_error_report show_row now_at r = Inl f"
    then have "collect_res (read_alias show_row r) (sort ?aliases) = Inl f"
      using assms by (auto simp: node_error_report_def Let_def rbind_Inl split: if_splits)
    then obtain n where "n \<in> set names" "read_alias show_row r n = Inl f"
      using collect_res_InlD by force
    with read_alias_Inl [of show_row r n f] show "f \<notin> (\<lambda>n. Err (MetricNotFound n)) ` UNIV \<and>
        (\<exists>n\<in>set names. alias_parts n \<noteq> None \<and> read_counts show_row r n = Inl f)" by blast
  qed
qed

definition one_alias :: stats_reader where
  "one_alias = \<lparr>rd_names = Inr [''/err/ip4-input/drops'', ''/err/gone/x''],
     rd_read = (\<lambda>n. if n = ''/err/ip4-input/drops'' then Inr (Simple [[3], [4]]) else Inl (Err (MetricNotFound n)))\<rparr>"

theorem node_error_report_exact_witness:
  "node_error_report (\<lambda>_. []) 9 one_alias =
     Inr (Some ([\<lparr>ne_node = ''ip4-input'', ne_error = ''drops'', ne_counts = [3, 4]\<rparr>], 9)) \<and>
   \<not> error_entry one_alias \<lparr>ne_node = ''gone'', ne_error = ''x'', ne_counts = []\<rparr>"
proof -
  have names: "rd_names one_alias = Inr [''/err/ip4-input/drops'', ''/err/gone/x'']"
    by (simp add: one_alias_def)
  have report: "node_error_report (\<lambda>_. []) 9 one_alias =
      Inr (Some ([\<lparr>ne_node = ''ip4-input'', ne_error = ''drops'', ne_counts = [3, 4]\<rparr>], 9))"
    by (simp add: node_error_report_def one_alias_def is_alias_def read_alias_def alias_parts_def split_once_def
        read_counts_def List.map_filter_def)
  have "count_list [\<lparr>ne_node = ''ip4-input'', ne_error = ''drops'', ne_counts = [3, 4]\<rparr>]
      \<lparr>ne_node = ''gone'', ne_error = ''x'', ne_counts = []\<rparr> =
      (if error_entry one_alias \<lparr>ne_node = ''gone'', ne_error = ''x'', ne_counts = []\<rparr>
       then count_list [''/err/ip4-input/drops'', ''/err/gone/x''] (error_name ''gone'' ''x'') else 0)"
    using node_error_report_exact [OF names, THEN conjunct2, THEN conjunct1, THEN iffD1, OF report,
        THEN conjunct2, THEN conjunct2, THEN conjunct2, THEN conjunct2, rule_format,
        of "\<lparr>ne_node = ''gone'', ne_error = ''x'', ne_counts = []\<rparr>"]
    by (simp only: node_error_counters.simps)
  moreover have "error_name ''gone'' ''x'' = ''/err/gone/x''" by (simp add: error_name_def)
  ultimately show ?thesis using report by (simp split: if_splits)
qed

end
