(* ===== verification/Hammerctl.thy ===== *)
theory Hammerctl
  imports Utf8
begin

text \<open>
  The command-line tool, \<^verbatim>\<open>hammerctl/src/main.rs\<close>: reading its arguments, and sending a command and
  copying the answer to standard output up to the first zero byte. The socket, the standard output and the
  process around them are a world \<open>'w\<close> with the operations of \<open>cli_env\<close>; arguments and paths are the bytes
  of a Unix \<^verbatim>\<open>OsString\<close>. An operation of the world that fails gives the error number.
\<close>

section \<open>The world\<close>

record 'w cli_env =
  cli_connect :: "bytes \<Rightarrow> 'w \<Rightarrow> (int + unit) \<times> 'w"
  stream_write_all :: "bytes \<Rightarrow> 'w \<Rightarrow> (int + unit) \<times> 'w"
  stream_read :: "'w \<Rightarrow> (int + bytes) \<times> 'w"
  stdout_write_all :: "bytes \<Rightarrow> 'w \<Rightarrow> (int + unit) \<times> 'w"
  stdout_flush :: "'w \<Rightarrow> (int + unit) \<times> 'w"

datatype cli_error =
    InvalidInput string
  | ConnectFailed bytes int
  | CommandUnfinished
  | Io int

section \<open>Arguments\<close>

definition default_socket :: bytes where
  "default_socket = str_bytes ''/run/hammer/cli.sock''"

definition is_socket_flag :: "bytes \<Rightarrow> bool" where
  "is_socket_flag argument \<longleftrightarrow> argument = str_bytes ''-s'' \<or> argument = str_bytes ''--socket''"

definition is_help_flag :: "bytes \<Rightarrow> bool" where
  "is_help_flag argument \<longleftrightarrow> argument = str_bytes ''-h'' \<or> argument = str_bytes ''--help''"

datatype cli_request = Usage | Command bytes "bytes list"

text \<open>The loop over the arguments; the command is empty as long as it runs.\<close>

fun parse_arguments :: "bytes \<Rightarrow> bytes list \<Rightarrow> cli_error + cli_request" where
  "parse_arguments socket [] = Inr (Command socket [])"
| "parse_arguments socket (argument # arguments) =
     (if is_socket_flag argument then
        (case arguments of
           [] \<Rightarrow> Inl (InvalidInput ''missing CLI socket path'')
         | path # rest \<Rightarrow> parse_arguments path rest)
      else if is_help_flag argument then Inr Usage
      else Inr (Command socket (argument # arguments)))"

fun join_words :: "bytes list \<Rightarrow> bytes" where
  "join_words [] = []"
| "join_words [word] = word"
| "join_words (word # words) = word @ str_bytes '' '' @ join_words words"

definition command_line :: "bytes list \<Rightarrow> cli_error + bytes" where
  "command_line command =
     (if command = [] then Inl (InvalidInput ''missing command; use hammerctl [-s SOCKET] COMMAND ...'')
      else if list_all (\<lambda>word. from_utf8 word \<noteq> None) command then Inr (join_words command)
      else Inl (InvalidInput ''command is not UTF-8''))"

section \<open>Running a command\<close>

text \<open>
  The loop of \<^verbatim>\<open>execute\<close>. The buffered reader holds \<open>buffer\<close>; it reads from the socket when that is
  empty, and a read of no bytes is the end of the stream.
\<close>

partial_function (option) relay ::
  "'w cli_env \<Rightarrow> bytes \<Rightarrow> 'w \<Rightarrow> ((cli_error fault + unit) \<times> bytes \<times> 'w) option" where
  "relay env buffer w =
     (case (if buffer = [] then stream_read env w else (Inr buffer, w)) of
        (Inl e, w1) \<Rightarrow> Some (Inl (Err (Io e)), buffer, w1)
      | (Inr available, w1) \<Rightarrow>
          if available = [] then Some (Inl (Err CommandUnfinished), [], w1)
          else
            let completed = position (\<lambda>b. b = 0) available;
                len = (case completed of Some i \<Rightarrow> i | None \<Rightarrow> length available)
            in (case stdout_write_all env (take len available) w1 of
                  (Inl e, w2) \<Rightarrow> Some (Inl (Err (Io e)), available, w2)
                | (Inr _, w2) \<Rightarrow>
                    let rest = drop (len + (if completed = None then 0 else 1)) available in
                    if completed = None then relay env rest w2 else Some (Inr (), rest, w2)))"

definition execute :: "'w cli_env \<Rightarrow> bytes \<Rightarrow> 'w \<Rightarrow> ((cli_error fault + unit) \<times> 'w) option" where
  "execute env command w =
     (case stream_write_all env command w of
        (Inl e, w1) \<Rightarrow> Some (Inl (Err (Io e)), w1)
      | (Inr _, w1) \<Rightarrow>
          (case stream_write_all env (str_bytes [CHR 0x0A]) w1 of
             (Inl e, w2) \<Rightarrow> Some (Inl (Err (Io e)), w2)
           | (Inr _, w2) \<Rightarrow>
               (case relay env [] w2 of
                  None \<Rightarrow> None
                | Some (Inl e, _, w3) \<Rightarrow> Some (Inl e, w3)
                | Some (Inr _, _, w3) \<Rightarrow>
                    (case stdout_flush env w3 of
                       (Inl e, w4) \<Rightarrow> Some (Inl (Err (Io e)), w4)
                     | (Inr _, w4) \<Rightarrow> Some (Inr (), w4)))))"

text \<open>\<^verbatim>\<open>println!\<close> panics when standard output cannot be written.\<close>

definition usage_text :: string where
  "usage_text = ''Usage: hammerctl [-s SOCKET] [COMMAND ...]'' @ [CHR 0x0A]"

definition run_cli :: "'w cli_env \<Rightarrow> bytes list \<Rightarrow> 'w \<Rightarrow> ((cli_error fault + unit) \<times> 'w) option" where
  "run_cli env arguments w =
     (case parse_arguments default_socket arguments of
        Inl e \<Rightarrow> Some (Inl (Err e), w)
      | Inr Usage \<Rightarrow>
          (case stdout_write_all env (str_bytes usage_text) w of
             (Inl _, w1) \<Rightarrow> Some (Inl (Panic ''failed printing to stdout''), w1)
           | (Inr _, w1) \<Rightarrow> Some (Inr (), w1))
      | Inr (Command socket command) \<Rightarrow>
          (case command_line command of
             Inl e \<Rightarrow> Some (Inl (Err e), w)
           | Inr line \<Rightarrow>
               (case cli_connect env socket w of
                  (Inl e, w1) \<Rightarrow> Some (Inl (Err (ConnectFailed socket e)), w1)
                | (Inr _, w1) \<Rightarrow> execute env line w1)))"

definition exit_status :: "cli_error fault + unit \<Rightarrow> nat" where
  "exit_status res = (case res of Inr _ \<Rightarrow> 0 | Inl (Err _) \<Rightarrow> 1 | Inl (Panic _) \<Rightarrow> 101)"

section \<open>What is printed\<close>

text \<open>
  A socket and a standard output that work: what the peer will still send, in the chunks the reads return, and
  what has been written on either side.
\<close>

definition cli_link_ok ::
  "'w cli_env \<Rightarrow> ('w \<Rightarrow> bytes list) \<Rightarrow> ('w \<Rightarrow> bytes) \<Rightarrow> ('w \<Rightarrow> bytes) \<Rightarrow> bool" where
  "cli_link_ok env incoming sent printed \<longleftrightarrow>
     (\<forall>w. case stream_read env w of
        (Inl e, w') \<Rightarrow> False
      | (Inr bs, w') \<Rightarrow>
          (case incoming w of [] \<Rightarrow> bs = [] \<and> incoming w' = [] | c # cs \<Rightarrow> bs = c \<and> c \<noteq> [] \<and> incoming w' = cs) \<and>
          sent w' = sent w \<and> printed w' = printed w) \<and>
     (\<forall>bs w. fst (stdout_write_all env bs w) = Inr () \<and>
        (let w' = snd (stdout_write_all env bs w) in
         printed w' = printed w @ bs \<and> incoming w' = incoming w \<and> sent w' = sent w)) \<and>
     (\<forall>bs w. fst (stream_write_all env bs w) = Inr () \<and>
        (let w' = snd (stream_write_all env bs w) in
         sent w' = sent w @ bs \<and> incoming w' = incoming w \<and> printed w' = printed w)) \<and>
     (\<forall>w. fst (stdout_flush env w) = Inr () \<and>
        (let w' = snd (stdout_flush env w) in
         printed w' = printed w \<and> incoming w' = incoming w \<and> sent w' = sent w))"

lemma cli_link_okD:
  assumes "cli_link_ok env incoming sent printed"
  obtains w' where "stream_read env w = (Inr (case incoming w of [] \<Rightarrow> [] | c # cs \<Rightarrow> c), w')" "incoming w' = tl (incoming w)"
      "sent w' = sent w" "printed w' = printed w" "incoming w \<noteq> [] \<longrightarrow> hd (incoming w) \<noteq> []"
proof -
  have "case stream_read env w of
      (Inl e, w') \<Rightarrow> False
    | (Inr bs, w') \<Rightarrow>
        (case incoming w of [] \<Rightarrow> bs = [] \<and> incoming w' = [] | c # cs \<Rightarrow> bs = c \<and> c \<noteq> [] \<and> incoming w' = cs) \<and>
        sent w' = sent w \<and> printed w' = printed w"
    using assms unfolding cli_link_ok_def by (rule conjunct1 [THEN spec [of _ w]])
  then show ?thesis
    by (intro that [of "snd (stream_read env w)"]) (auto split: prod.splits sum.splits list.splits)
qed

lemma cli_link_writes:
  assumes "cli_link_ok env incoming sent printed"
  obtains w' where "stdout_write_all env bs w = (Inr (), w')" "printed w' = printed w @ bs" "incoming w' = incoming w"
      "sent w' = sent w"
  using assms that [of "snd (stdout_write_all env bs w)"] unfolding cli_link_ok_def Let_def by (metis prod.collapse)

lemma cli_link_sends:
  assumes "cli_link_ok env incoming sent printed"
  obtains w' where "stream_write_all env bs w = (Inr (), w')" "sent w' = sent w @ bs" "incoming w' = incoming w"
      "printed w' = printed w"
  using assms that [of "snd (stream_write_all env bs w)"] unfolding cli_link_ok_def Let_def by (metis prod.collapse)

lemma cli_link_flushes:
  assumes "cli_link_ok env incoming sent printed"
  obtains w' where "stdout_flush env w = (Inr (), w')" "printed w' = printed w" "incoming w' = incoming w"
      "sent w' = sent w"
  using assms that [of "snd (stdout_flush env w)"] unfolding cli_link_ok_def Let_def by (metis prod.collapse)

lemma position_zero:
  "case position (\<lambda>b. b = 0) bs of
     None \<Rightarrow> 0 \<notin> set bs
   | Some i \<Rightarrow> 0 \<in> set bs \<and> take i bs = takeWhile (\<lambda>b. b \<noteq> 0) bs" for bs :: bytes
  by (induction bs) (auto split: option.splits)

lemma relay_prints:
  assumes "cli_link_ok env incoming sent printed"
  shows "\<exists>rest w'. relay env [] w =
      Some (if 0 \<in> set (concat (incoming w)) then Inr () else Inl (Err CommandUnfinished), rest, w') \<and>
    printed w' = printed w @ takeWhile (\<lambda>b. b \<noteq> 0) (concat (incoming w)) \<and> sent w' = sent w"
proof (induction "incoming w" arbitrary: w)
  case Nil
  show ?case
    by (rule cli_link_okD [OF assms, of w]) (use Nil [symmetric] in \<open>auto simp: relay.simps\<close>)
next
  case (Cons c cs)
  obtain w1 where read: "stream_read env w = (Inr c, w1)" "incoming w1 = cs" "sent w1 = sent w" "printed w1 = printed w" "c \<noteq> []"
    by (rule cli_link_okD [OF assms, of w]) (use Cons(2) [symmetric] in auto)
  let ?len = "case position (\<lambda>b. b = 0) c of Some i \<Rightarrow> i | None \<Rightarrow> length c"
  obtain w2 where out: "stdout_write_all env (take ?len c) w1 = (Inr (), w2)" "printed w2 = printed w1 @ take ?len c"
      "incoming w2 = incoming w1" "sent w2 = sent w1"
    by (rule cli_link_writes [OF assms])
  show ?case
  proof (cases "position (\<lambda>b. b = 0) c")
    case None
    then have zero: "0 \<notin> set c" using position_zero [of c] by simp
    have all: "takeWhile (\<lambda>b. b \<noteq> 0) (c @ bs) = c @ takeWhile (\<lambda>b. b \<noteq> 0) bs" for bs
      using zero by (intro takeWhile_append2) auto
    obtain rest w' where rec: "relay env [] w2 =
          Some (if 0 \<in> set (concat cs) then Inr () else Inl (Err CommandUnfinished), rest, w')"
        "printed w' = printed w2 @ takeWhile (\<lambda>b. b \<noteq> 0) (concat cs)" "sent w' = sent w2"
      using Cons(1) [of w2] out(3) read(2) by auto
    have "relay env [] w = relay env [] w2"
      using None read out(1) by (subst relay.simps) simp
    then show ?thesis
      using rec out read zero None Cons(2) [symmetric] by (intro exI [of _ rest] exI [of _ w']) (auto simp: all)
  next
    case (Some i)
    then have zero: "0 \<in> set c" "take i c = takeWhile (\<lambda>b. b \<noteq> 0) c" using position_zero [of c] by simp_all
    have "relay env [] w = Some (Inr (), drop (Suc i) c, w2)"
      using Some read out(1) by (subst relay.simps) simp
    then show ?thesis
      using out read zero Some Cons(2) [symmetric] by (auto simp: takeWhile_append1)
  qed
qed

definition options :: "(bytes \<times> bytes) list \<Rightarrow> bytes list" where
  "options os = concat (map (\<lambda>(flag, path). [flag, path]) os)"

lemma parse_options:
  "list_all (\<lambda>(flag, path). is_socket_flag flag) os \<Longrightarrow>
     parse_arguments socket (options os @ arguments) = parse_arguments (last (socket # map snd os)) arguments"
  by (induction os arbitrary: socket) (auto simp: options_def)

lemma parse_command:
  "\<not> is_socket_flag word \<Longrightarrow> \<not> is_help_flag word \<Longrightarrow>
     parse_arguments socket (word # rest) = Inr (Command socket (word # rest))"
  by simp

text \<open>
  C11. Socket options before the first word of a command choose the socket, the last one counting, and
  everything from that word on is the command, even words that look like options. The words are sent joined by
  spaces and ended by a newline. What is printed is the answer up to its first zero byte, however the socket
  cuts the stream, and the tool succeeds exactly when that byte arrives before the end of the stream.
\<close>

theorem hammerctl_prints_answer:
  assumes ok: "cli_link_ok env incoming sent printed"
    and os: "list_all (\<lambda>(flag, path). is_socket_flag flag) os"
    and word: "\<not> is_socket_flag word" "\<not> is_help_flag word"
    and utf8: "list_all (\<lambda>bs. from_utf8 bs \<noteq> None) (word # rest)"
    and connected: "cli_connect env (last (default_socket # map snd os)) w = (Inr (), w1)"
  shows "\<exists>res w'. run_cli env (options os @ word # rest) w = Some (res, w') \<and>
    (exit_status res = 0 \<longleftrightarrow> 0 \<in> set (concat (incoming w1))) \<and>
    printed w' = printed w1 @ takeWhile (\<lambda>b. b \<noteq> 0) (concat (incoming w1)) \<and>
    sent w' = sent w1 @ join_words (word # rest) @ [0x0A]"
proof -
  let ?line = "join_words (word # rest)"
  have run: "run_cli env (options os @ word # rest) w = execute env ?line w1"
    using parse_options [OF os, of default_socket "word # rest"] parse_command [OF word] utf8 connected
    by (simp add: run_cli_def command_line_def del: parse_arguments.simps)
  obtain w2 where w2: "stream_write_all env ?line w1 = (Inr (), w2)" "sent w2 = sent w1 @ ?line"
      "incoming w2 = incoming w1" "printed w2 = printed w1"
    by (rule cli_link_sends [OF ok])
  obtain w3 where w3: "stream_write_all env (str_bytes [CHR 0x0A]) w2 = (Inr (), w3)" "sent w3 = sent w2 @ str_bytes [CHR 0x0A]"
      "incoming w3 = incoming w2" "printed w3 = printed w2"
    by (rule cli_link_sends [OF ok])
  obtain rest' w4 where w4: "relay env [] w3 =
        Some (if 0 \<in> set (concat (incoming w3)) then Inr () else Inl (Err CommandUnfinished), rest', w4)"
      "printed w4 = printed w3 @ takeWhile (\<lambda>b. b \<noteq> 0) (concat (incoming w3))" "sent w4 = sent w3"
    using relay_prints [OF ok] by blast
  obtain w5 where w5: "stdout_flush env w4 = (Inr (), w5)" "printed w5 = printed w4" "incoming w5 = incoming w4"
      "sent w5 = sent w4"
    by (rule cli_link_flushes [OF ok])
  have newline: "str_bytes [CHR 0x0A] = [0x0A]" by (simp add: byte_of_char_def)
  have "execute env ?line w1 =
      Some (if 0 \<in> set (concat (incoming w1)) then (Inr (), w5) else (Inl (Err CommandUnfinished), w4))"
    using w2(1,3) w3(1,3) w4(1) w5(1) by (auto simp: execute_def)
  then show ?thesis
    using run w2 w3 w4 w5 newline by (auto simp: exit_status_def)
qed

text \<open>A peer whose answer arrives in two chunks, the first cut inside the line.\<close>

definition pipe_env :: "(bytes list \<times> bytes \<times> bytes) cli_env" where
  "pipe_env =
     \<lparr>cli_connect = (\<lambda>_ w. (Inr (), w)),
      stream_write_all = (\<lambda>bs (i, s, p). (Inr (), i, s @ bs, p)),
      stream_read = (\<lambda>(i, s, p).
        case dropWhile (\<lambda>c. c = []) i of [] \<Rightarrow> (Inr [], [], s, p) | c # cs \<Rightarrow> (Inr c, cs, s, p)),
      stdout_write_all = (\<lambda>bs (i, s, p). (Inr (), i, s, p @ bs)),
      stdout_flush = (\<lambda>w. (Inr (), w))\<rparr>"

definition chunks_of :: "bytes list \<times> bytes \<times> bytes \<Rightarrow> bytes list" where
  "chunks_of w = filter (\<lambda>c. c \<noteq> []) (fst w)"

lemma nonempty_chunks:
  "filter (\<lambda>c. c \<noteq> []) i =
     (case dropWhile (\<lambda>c. c = []) i of [] \<Rightarrow> [] | c # cs \<Rightarrow> c # filter (\<lambda>c. c \<noteq> []) cs)"
  "dropWhile (\<lambda>c. c = []) i = c # cs \<Longrightarrow> c \<noteq> []"
  by (induction i) (auto split: if_splits)

lemma pipe_env_ok: "cli_link_ok pipe_env chunks_of (fst \<circ> snd) (snd \<circ> snd)"
proof -
  have "case stream_read pipe_env w of
      (Inl e, w') \<Rightarrow> False
    | (Inr bs, w') \<Rightarrow>
        (case chunks_of w of [] \<Rightarrow> bs = [] \<and> chunks_of w' = [] | c # cs \<Rightarrow> bs = c \<and> c \<noteq> [] \<and> chunks_of w' = cs) \<and>
        (fst \<circ> snd) w' = (fst \<circ> snd) w \<and> (snd \<circ> snd) w' = (snd \<circ> snd) w" for w
  proof (cases "dropWhile (\<lambda>c. c = []) (fst w)")
    case Nil
    then have "chunks_of w = []" by (simp add: chunks_of_def)
    moreover have "stream_read pipe_env w = (Inr [], [], snd w)"
      using Nil by (cases w) (simp add: pipe_env_def del: dropWhile_eq_Nil_conv)
    ultimately show ?thesis by (simp add: chunks_of_def)
  next
    case (Cons c cs)
    then have "chunks_of w = c # filter (\<lambda>c. c \<noteq> []) cs"
      unfolding chunks_of_def nonempty_chunks(1) [of "fst w"] by simp
    moreover have "stream_read pipe_env w = (Inr c, cs, snd w)"
      using Cons by (cases w) (simp add: pipe_env_def)
    moreover from Cons have "c \<noteq> []" by (rule nonempty_chunks(2))
    ultimately show ?thesis by (simp add: chunks_of_def)
  qed
  then show ?thesis
    by (simp add: cli_link_ok_def) (simp add: pipe_env_def chunks_of_def split: prod.splits)
qed

lemma hammerctl_prints_answer_witness:
  "\<exists>res w'. run_cli pipe_env (options [(str_bytes ''-s'', str_bytes ''/tmp/s'')] @ [str_bytes ''show'', str_bytes ''-h''])
      ([[79], [75, 10, 0]], [], []) = Some (res, w') \<and>
    exit_status res = 0 \<and> snd (snd w') = [79, 75, 10] \<and>
    fst (snd w') = str_bytes ''show -h'' @ [0x0A]"
proof -
  have flags: "list_all (\<lambda>(flag, path). is_socket_flag flag) [(str_bytes ''-s'', str_bytes ''/tmp/s'')]"
      "\<not> is_socket_flag (str_bytes ''show'')" "\<not> is_help_flag (str_bytes ''show'')"
    by (simp_all add: is_socket_flag_def is_help_flag_def byte_of_char_def)
  have utf8: "list_all (\<lambda>bs. from_utf8 bs \<noteq> None) [str_bytes ''show'', str_bytes ''-h'']"
    by (simp add: from_utf8_def utf8_valid_ascii byte_of_char_def)
  have "cli_connect pipe_env (last (default_socket # map snd [(str_bytes ''-s'', str_bytes ''/tmp/s'')]))
      ([[79], [75, 10, 0]], [], []) = (Inr (), [[79], [75, 10, 0]], [], [])"
    by (simp add: pipe_env_def)
  from hammerctl_prints_answer [OF pipe_env_ok flags utf8 this]
  show ?thesis
    by (auto simp: chunks_of_def)
qed

end
