(* ===== verification/Spec2Isabelle.thy ===== *)
theory Spec2Isabelle
  imports Rpc_Services Api_Client_Liveness Api_Client_Scenario Message_Identities Message_Table Svm_Queue_Steps
    Svm_Queue_Restart Stats_Reports Hammerctl
begin

text \<open>
  Verification of the netsystem client, the Rust workspace under \<^verbatim>\<open>src/rust/crates\<close>: a client of a packet
  processing server that talks to it through shared memory. Three programs share the code.

  \<^item> The Binary API client. It attaches a region of shared memory the server has prepared (\<^verbatim>\<open>hammer-shmem\<close>), finds an
    API header and a queue there, encodes messages with the server's wire format (\<^verbatim>\<open>hammer-binary-api-protocol\<close>) into
    blocks of the shared heap, puts the address of a block into the server's queue, and takes the address of the answer
    from a queue of its own (\<^verbatim>\<open>hammer-binary-api-client\<close>). Typed services sit on top (\<^verbatim>\<open>hammer-binary-api-rpc\<close>).
  \<^item> The statistics client. It receives the descriptor of a read-only segment over a socket, maps it, reads a directory
    of counters optimistically under an epoch, and projects families of counters to reports
    (\<^verbatim>\<open>hammer-stats-protocol\<close>, \<^verbatim>\<open>hammer-stats-client\<close>).
  \<^item> \<^verbatim>\<open>hammerctl\<close>, which sends one command over a socket and prints the answer.

  Theories and the files they model, from the bottom up.

  \<^item> \<open>Net_Prelude\<close>: machine integers as words, \<^verbatim>\<open>usize\<close> as a natural number below \<open>usize_bound\<close> with the checked
    operations written out, results as sums (\<open>Inl\<close> the error), a \<open>fault\<close> being a returned error or a panic, slices,
    byte orders, and their simplification rules. \<open>Utf8\<close>: the validity check behind \<^verbatim>\<open>str\<close>, and lossy conversion.
  \<^item> \<open>Codec\<close> (\<^verbatim>\<open>codec.rs\<close>): the serializer and deserializer over a value type that has one constructor per Serde call;
    \<open>Codec_Wire\<close>: the reference encoding \<open>wire\<close> and the proofs that the serializer writes exactly it, that the
    measuring pass predicts its length, that decoding inverts it, and that decoding any input is type sound and stays
    inside the input.
  \<^item> \<open>Api_Declarations\<close> (\<^verbatim>\<open>api.rs\<close>): blocks, their CRC and the compile-time checks. \<open>Api_Message\<close> (\<^verbatim>\<open>value.rs\<close>, the
    \<^verbatim>\<open>Api\<close> trait): fixed strings and the locale \<open>api_message\<close>, the contract of a message type. \<open>Messages\<close>
    (\<^verbatim>\<open>memclnt.rs\<close>, \<^verbatim>\<open>control.rs\<close>, \<^verbatim>\<open>vpe.rs\<close>, \<^verbatim>\<open>session.rs\<close>): the twelve message types, each an interpretation.
    \<open>Message_Identities\<close>: their names with CRC, evaluated. \<open>Message_Table\<close> (\<^verbatim>\<open>table.rs\<close>): the table of message ids.
  \<^item> \<open>Svm_Queue\<close> (\<^verbatim>\<open>queue.rs\<close>): the ring of shared memory with its mutex, condition variable and descriptors behind an
    environment \<open>queue_env\<close>; \<open>queue_inv\<close> is its invariant, \<open>contents\<close> the abstract queue, the locale
    \<open>bounded_fifo\<close> the abstract data type it implements, and \<open>env_run\<close> what the other processes do to the queue while
    an operation waits for it. \<open>Svm_Queue_Steps\<close>: all interleavings of producers and consumers as a step relation whose
    steps run \<open>queue_add\<close>, \<open>queue_add2\<close> and \<open>queue_sub\<close> themselves against a site of sleeping and spinning processes,
    so that who is woken is what their calls of \<open>signal\<close> wake; who cannot be left asleep, and who can.
    \<open>Svm_Queue_Restart\<close>: the operations outside the lock, on the object with the storage of its mutex: walking a ring,
    destroying the POSIX objects, and resetting the mutex on restart, with the states of a robust POSIX mutex
    (\<open>robust_ok\<close>).
  \<^item> \<open>Shared_Heap\<close> (\<^verbatim>\<open>heap.rs\<close>): the heap methods over an external allocator \<open>mspace\<close> with the contract \<open>mspace_ok\<close>, and
    memory as a function from addresses to bytes. \<open>Shared_Region\<close> (\<^verbatim>\<open>region.rs\<close>): attaching and validating a region.
    \<open>Msg_Buf\<close> (\<^verbatim>\<open>memory.rs\<close>): the API header and message buffers.
  \<^item> \<open>Api_Client\<close> (\<^verbatim>\<open>client.rs\<close> of the Binary API client): the client's state is the record \<open>client\<close>; everything outside
    it (heap, memory, the queues by address, the rest of the world) is the record \<open>link\<close>, which the operations thread;
    the clock, sleeping, the allocator and the system calls are the environment \<open>client_env\<close>. \<open>Api_Client_Send\<close>:
    sending, also through the contract of a message type. \<open>Api_Client_Calls\<close>: receiving, invoking, connecting and
    disconnecting. \<open>Api_Client_Replies\<close>: an answered call, and a call that finds an old answer. \<open>Api_Client_Connect\<close>: an
    accepted connection and disconnection with their effect on the shared heap, and \<open>Api_Client_Scenario\<close>: a server in
    concrete memory for them. \<open>Api_Client_Liveness\<close>: when the client's loops end, from the locale \<open>finite_supply\<close>.
    \<open>Rpc_Services\<close> (\<^verbatim>\<open>rpc/session.rs\<close>, \<^verbatim>\<open>rpc/vpe.rs\<close>): the namespace and version services.
  \<^item> \<open>Stats_Protocol\<close> (\<^verbatim>\<open>protocol.rs\<close>), \<open>Stats_Client\<close> (\<^verbatim>\<open>client.rs\<close>, \<^verbatim>\<open>error.rs\<close>, \<^verbatim>\<open>reader.rs\<close>), \<open>Stats_Providers\<close>
    (\<^verbatim>\<open>memory.rs\<close>, \<^verbatim>\<open>system.rs\<close>, \<^verbatim>\<open>buffer_pools.rs\<close>, \<^verbatim>\<open>node.rs\<close>, \<^verbatim>\<open>node_error.rs\<close>), and \<open>Stats_Reports\<close> with their
    properties and the locale \<open>stats_provider\<close>.
  \<^item> \<open>Hammerctl\<close> (\<^verbatim>\<open>main.rs\<close>).

  What is shown. The codec, the messages, the table and the message buffers have round trips; composed with the queue
  they give the statement of the client: a message that \<^verbatim>\<open>send_message\<close> reports as sent is in the server's queue and
  decodes to the value sent, and one it reports as failed leaves nothing allocated. For a client that answers no
  keepalive \<^verbatim>\<open>invoke\<close> returns, and returns only a reply with the right id, type and context; such a reply at the head
  of the client's queue is returned and freed. Connecting gives exactly the table the server published, and
  disconnecting frees exactly the client's queue. While the server posts finitely many messages \<^verbatim>\<open>connect\<close>, \<^verbatim>\<open>invoke\<close>
  and \<^verbatim>\<open>disconnect\<close> return, keepalives included, and report a timeout only when its time has passed. The queue
  refines a bounded first-in first-out list: an operation that takes effect adds to or takes from exactly what the other
  processes had left, under every environment that keeps the invariant. Reading the statistics
  gives published values only, from an unchanged epoch, answers with the value published at the first attempt that no
  update disturbs or with the error its entry calls for, and gives up after sixteen disturbed attempts; the projections
  depend on their own family alone. The theorems also record where the code falls short of its intent: lost wakeups of
  producers (of a pair, and of any element when only the consumer's descriptor is set), a lost message in
  \<^verbatim>\<open>receive\<close>, a contended mutex reported as a failure, deadlines that an endless stream of messages
  suspends, an old answer that fails the next call, a queue that stays allocated when its announcement cannot be sent,
  a restart that overwrites a mutex it holds, byte order of arrays in a \<^verbatim>\<open>client_index\<close> field, and places
  where a malformed segment panics the client.

  Conventions. Arithmetic is that of a debug build: overflow of an unchecked operation is a panic. Durations and instants
  are natural numbers of nanoseconds. A loop that may not end is a \<open>partial_function\<close> whose value \<open>None\<close> means that it
  never returns; no fuel is used, and the termination theorems say when the value is \<open>Some\<close>. The two loops whose
  iterations are bounded by the code (the retry limit of the directory read, the limit on symbolic links) are structural
  recursions over those bounds. Words that hold signed integers are read with \<open>sint\<close>.

  Simplifications. One attempt to read the statistics directory sees one snapshot of the segment between its two header
  reads. The queue objects are kept beside the byte memory, by address, and the POSIX mutex and condition variable in
  them are operations of the environment. Memory that nobody mapped is not represented, but an access the code makes
  without a range check panics in the model when it leaves the mapping.

  Not modelled: unmapping the statistics segment and closing descriptors; logging; the texts of errors; the crate roots and the build script; the
  vendored allocator, third-party C code, which is the parameter \<open>mspace\<close>; Tokio, Serde and the standard library beyond
  what the sources use of them.

  Open: several clients of one region interleaved.
\<close>

end
